theory Spec2Isabelle
  imports Main "HOL-Library.Word" "HOL-Library.AList" "HOL-Library.List_Lexorder"
    "HOL-Library.Char_ord"
begin

unbundle bit_operations_syntax

section \<open>Data model of a package document\<close>

text \<open>
  The documents handled by \<open>factory.tsx\<close> are JSON values. The fields that the code reads
  or writes are record fields; everything else an object carries (the ``\<open>...attributes\<close>'' of
  the interfaces, which are not part of this file) is an opaque payload of type \<open>'a\<close>.

  A JavaScript object used as a dictionary (\<open>layer.models\<close>) is the association list of its
  own properties, in the order \<open>Object.keys\<close> enumerates them; its keys are distinct.

  In a document every id is a string. \<open>loadPackage\<close> can also write a member of
  \<open>Object.prototype\<close> where an id stands (see \<open>lookupId\<close> below), so the \<open>block\<close> property of
  a wire endpoint and the \<open>id\<close> property of a model hold an \<open>idval\<close>: a string, or the value
  that \<open>Object.prototype\<close> has under a name.
\<close>

datatype error = TypeError | Rejected string

datatype idval = Str string | Inherited string

record Endpoint =
  block :: idval
  port :: string

record 'a Block =
  block_id :: string
  block_rest :: 'a

record 'a Wire =
  source :: Endpoint
  target :: Endpoint
  wire_rest :: 'a

record 'a Graph =
  blocks :: "'a Block list"
  wires :: "'a Wire list"

record 'a ProjectDesign =
  graph :: "'a Graph"
  design_rest :: 'a

record 'a Model =
  model_id :: idval
  model_rest :: 'a

type_synonym 'a Models = "(string \<times> 'a Model) list"

record 'a Layer =
  models :: "'a Models"
  layer_rest :: 'a

record 'a Editor =
  layers :: "'a Layer list"
  editor_rest :: 'a

record 'a Project =
  editor :: "'a Editor"
  design :: "'a ProjectDesign"
  package :: 'a
  dependencies :: 'a

text \<open>The options object handed to \<open>new PackageBlockModel({model, design, info, dependencies})\<close>.\<close>

record 'a PackageOptions =
  opt_model :: "'a Editor"
  opt_design :: "'a ProjectDesign"
  opt_info :: 'a
  opt_dependencies :: 'a

section \<open>Plain objects as dictionaries\<close>

text \<open>
  \<open>newIdMap\<close> is created as \<open>{}\<close> and a \<open>models\<close> object is a plain object too: both
  inherit from \<open>Object.prototype\<close>, whose own property names are these.
\<close>

definition protoNames :: "string list" where
  "protoNames =
     [''constructor'', ''__defineGetter__'', ''__defineSetter__'', ''hasOwnProperty'',
      ''__lookupGetter__'', ''__lookupSetter__'', ''isPrototypeOf'', ''propertyIsEnumerable'',
      ''toString'', ''valueOf'', ''__proto__'', ''toLocaleString'']"

text \<open>
  The property key a value is converted to when it is used as one (\<open>models[newId]\<close>,
  \<open>newIdMap[wire.source.block]\<close>): a string is its own key; \<open>Object.prototype\<close> itself,
  which is what the name \<open>__proto__\<close> yields, prints as \<open>[object Object]\<close>; every other
  member is a built-in function and prints as V8 prints it, \<open>constructor\<close> being the
  function \<open>Object\<close>.
\<close>

fun toPropertyKey :: "idval \<Rightarrow> string" where
  "toPropertyKey (Str s) = s"
| "toPropertyKey (Inherited n) =
     (if n = ''__proto__'' then ''[object Object]''
      else if n = ''constructor'' then ''function Object() { [native code] }''
      else ''function '' @ n @ ''() { [native code] }'')"

text \<open>
  \<open>newIdMap[k]\<close>: the own entry under \<open>k\<close> if there is one, else the member of
  \<open>Object.prototype\<close> of that name if there is one, else \<open>undefined\<close>. The own entries of
  \<open>newIdMap\<close> are a map from strings to strings.
\<close>

definition lookupId :: "(string \<rightharpoonup> string) \<Rightarrow> string \<Rightarrow> idval option" where
  "lookupId newIdMap k =
     (case newIdMap k of
        Some v \<Rightarrow> Some (Str v)
      | None \<Rightarrow> if k \<in> set protoNames then Some (Inherited k) else None)"

text \<open>
  \<open>newIdMap[k] = v\<close> with a string \<open>v\<close>: an own entry is made or overwritten, except under
  \<open>__proto__\<close>, where the assignment reaches the inherited setter, which ignores a string.
\<close>

definition assignId :: "(string \<rightharpoonup> string) \<Rightarrow> string \<Rightarrow> string \<Rightarrow> (string \<rightharpoonup> string)" where
  "assignId newIdMap k v = (if k = ''__proto__'' then newIdMap else newIdMap(k \<mapsto> v))"

text \<open>
  \<open>models[k] = v\<close> with an object \<open>v\<close>: an own property under \<open>k\<close> is overwritten where it
  stands, and otherwise a new one is added at the end (\<open>AList.update\<close>); except that under
  \<open>__proto__\<close>, when the object has no own property of that name, the inherited setter makes
  \<open>v\<close> the prototype of the object and no property is added.
\<close>

definition assignProp :: "string \<Rightarrow> 'v \<Rightarrow> (string \<times> 'v) list \<Rightarrow> (string \<times> 'v) list" where
  "assignProp k v ms =
     (if k = ''__proto__'' \<and> k \<notin> fst ` set ms then ms else AList.update k v ms)"

text \<open>\<open>if (newId)\<close>: \<open>undefined\<close> and the empty string do not count; an object does.\<close>

fun truthy :: "idval option \<Rightarrow> bool" where
  "truthy None = False"
| "truthy (Some (Str s)) = (s \<noteq> [])"
| "truthy (Some (Inherited n)) = True"

text \<open>
  \<open>cloneDeep\<close> (lodash.clonedeep) on the parts of a document: the copy has the properties of
  the original, each copied in turn. What the copy makes of the remaining attributes of an
  object is the parameter \<open>copy\<close>. The copy of a property is stored with \<open>clone[key] = value\<close>:
  under the key \<open>__proto__\<close> that makes the copied model the prototype of the new \<open>models\<close>
  object, so the new object has no entry under that key.
\<close>

definition cloneDeep_models :: "('a \<Rightarrow> 'a) \<Rightarrow> 'a Models \<Rightarrow> 'a Models" where
  "cloneDeep_models copy ms =
     map (\<lambda>(k, m). (k, m\<lparr>model_rest := copy (model_rest m)\<rparr>))
       (filter (\<lambda>(k, m). k \<noteq> ''__proto__'') ms)"

definition cloneDeep_editor :: "('a \<Rightarrow> 'a) \<Rightarrow> 'a Editor \<Rightarrow> 'a Editor" where
  "cloneDeep_editor copy ed =
     \<lparr>layers = map (\<lambda>l. \<lparr>models = cloneDeep_models copy (models l),
                          layer_rest = copy (layer_rest l)\<rparr>) (layers ed),
      editor_rest = copy (editor_rest ed)\<rparr>"

definition cloneDeep_design :: "('a \<Rightarrow> 'a) \<Rightarrow> 'a ProjectDesign \<Rightarrow> 'a ProjectDesign" where
  "cloneDeep_design copy d =
     \<lparr>graph = \<lparr>blocks = map (\<lambda>b. b\<lparr>block_rest := copy (block_rest b)\<rparr>) (blocks (graph d)),
               wires = map (\<lambda>w. w\<lparr>wire_rest := copy (wire_rest w)\<rparr>) (wires (graph d))\<rparr>,
      design_rest = copy (design_rest d)\<rparr>"

section \<open>Identifier generation\<close>

text \<open>
  \<open>Math.random() * 16 | 0\<close> is an integer between 0 and 15. The sequence of these values
  is a parameter of the model: \<open>rand i\<close> is the value of the \<open>i\<close>-th draw. A generator
  state is the number of draws made so far.
\<close>

type_synonym rng = "nat \<Rightarrow> 4 word"

definition toString16 :: "4 word \<Rightarrow> char" where
  "toString16 d = ''0123456789abcdef'' ! unat d"

text \<open>\<open>template.replace(/[xy]/g, c => ...)\<close>: every \<open>x\<close> and \<open>y\<close> of the template, from left
  to right, is replaced by one hexadecimal digit; each replacement makes one draw.\<close>

fun replace_xy :: "rng \<Rightarrow> nat \<Rightarrow> string \<Rightarrow> string \<times> nat" where
  "replace_xy rand n [] = ([], n)"
| "replace_xy rand n (c # cs) =
     (if c = CHR ''x'' \<or> c = CHR ''y'' then
        (let r = rand n;
             d = (if c = CHR ''x'' then r else (r AND 3) OR 8);
             (rest, n') = replace_xy rand (Suc n) cs
         in (toString16 d # rest, n'))
      else
        (let (rest, n') = replace_xy rand n cs in (c # rest, n')))"

definition generateNewId :: "rng \<Rightarrow> nat \<Rightarrow> string \<times> nat" where
  "generateNewId rand n = replace_xy rand n ''xxxxxxxx-xxxx-4xxx-yxxx-xxxxxxxxxxxx''"

section \<open>loadPackage\<close>

text \<open>The first \<open>forEach\<close>: every block, in order, gets a generated id, which is assigned
  to \<open>newIdMap\<close> under the block's old id and written into the block.\<close>

fun renameBlocks ::
  "rng \<Rightarrow> nat \<Rightarrow> (string \<rightharpoonup> string) \<Rightarrow> 'a Block list
     \<Rightarrow> 'a Block list \<times> (string \<rightharpoonup> string) \<times> nat" where
  "renameBlocks rand n newIdMap [] = ([], newIdMap, n)"
| "renameBlocks rand n newIdMap (b # bs) =
     (let (newId, n') = generateNewId rand n;
          newIdMap' = assignId newIdMap (block_id b) newId;
          b' = b\<lparr>block_id := newId\<rparr>;
          (bs', newIdMap'', n'') = renameBlocks rand n' newIdMap' bs
      in (b' # bs', newIdMap'', n''))"

text \<open>
  The body of \<open>updateModelIdsInLayer\<close>: \<open>Object.keys(models)\<close> is taken once, then each
  key is looked up in \<open>newIdMap\<close>. When the lookup counts, the model gets what was found as
  its \<open>id\<close>, is stored under the property key of what was found, and the old key is deleted
  (\<open>AList.delete\<close>). Every key of the list is still a key of the object when its turn comes,
  so \<open>models[oldId]\<close> is a model; were it \<open>undefined\<close>, writing its \<open>id\<close> would be a
  TypeError.
\<close>

fun renameModels :: "(string \<rightharpoonup> string) \<Rightarrow> string list \<Rightarrow> 'a Models \<Rightarrow> error + 'a Models" where
  "renameModels newIdMap [] ms = Inr ms"
| "renameModels newIdMap (oldId # ks) ms =
     (if truthy (lookupId newIdMap oldId) then
        (case (map_of ms oldId, lookupId newIdMap oldId) of
           (Some b, Some newId) \<Rightarrow>
             renameModels newIdMap ks
               (AList.delete oldId
                  (assignProp (toPropertyKey newId) (b\<lparr>model_id := newId\<rparr>) ms))
         | _ \<Rightarrow> Inl TypeError)
      else renameModels newIdMap ks ms)"

text \<open>\<open>tempJsonModelEditor.layers[layerIndex].models\<close> of a missing layer is a TypeError.\<close>

definition updateModelIdsInLayer ::
  "(string \<rightharpoonup> string) \<Rightarrow> nat \<Rightarrow> 'a Editor \<Rightarrow> error + 'a Editor" where
  "updateModelIdsInLayer newIdMap layerIndex ed =
     (if layerIndex < length (layers ed) then
        (let layer = layers ed ! layerIndex in
         case renameModels newIdMap (map fst (models layer)) (models layer) of
           Inl e \<Rightarrow> Inl e
         | Inr ms \<Rightarrow> Inr (ed\<lparr>layers := (layers ed)[layerIndex := layer\<lparr>models := ms\<rparr>]\<rparr>))
      else Inl TypeError)"

text \<open>The body of the last \<open>forEach\<close>: both endpoints are looked up first, then written.\<close>

definition updateWire :: "(string \<rightharpoonup> string) \<Rightarrow> 'a Wire \<Rightarrow> 'a Wire" where
  "updateWire newIdMap wire =
     (let newSourceId = lookupId newIdMap (toPropertyKey (block (source wire)));
          newTargetId = lookupId newIdMap (toPropertyKey (block (target wire)));
          wire1 = (case newSourceId of
                     Some s \<Rightarrow> if truthy newSourceId
                               then wire\<lparr>source := (source wire)\<lparr>block := s\<rparr>\<rparr> else wire
                   | None \<Rightarrow> wire)
      in (case newTargetId of
            Some t \<Rightarrow> if truthy newTargetId
                      then wire1\<lparr>target := (target wire1)\<lparr>block := t\<rparr>\<rparr> else wire1
          | None \<Rightarrow> wire1))"

text \<open>\<open>[0, 1].forEach(updateModelIdsInLayer)\<close>: the layers are updated in the order of the
  index array; an exception ends the loop.\<close>

fun forEachLayer :: "(string \<rightharpoonup> string) \<Rightarrow> nat list \<Rightarrow> 'a Editor \<Rightarrow> error + 'a Editor" where
  "forEachLayer newIdMap [] ed = Inr ed"
| "forEachLayer newIdMap (layerIndex # rest) ed =
     (case updateModelIdsInLayer newIdMap layerIndex ed of
        Inl e \<Rightarrow> Inl e
      | Inr ed' \<Rightarrow> forEachLayer newIdMap rest ed')"

text \<open>
  \<open>loadPackage\<close> works on the deep copies of \<open>design\<close> and \<open>editor\<close>; \<open>package\<close> and
  \<open>dependencies\<close> are handed on as they are. The result is the options object of the new
  \<open>PackageBlockModel\<close>.
\<close>

definition loadPackage :: "('a \<Rightarrow> 'a) \<Rightarrow> rng \<Rightarrow> 'a Project \<Rightarrow> error + 'a PackageOptions" where
  "loadPackage copy rand jsonModel =
     (let tempJsonModelDesign = cloneDeep_design copy (design jsonModel);
          tempJsonModelEditor = cloneDeep_editor copy (editor jsonModel);
          (blocks', newIdMap, n) =
             renameBlocks rand 0 Map.empty (blocks (graph tempJsonModelDesign))
      in case forEachLayer newIdMap [0, 1] tempJsonModelEditor of
           Inl e \<Rightarrow> Inl e
         | Inr ed \<Rightarrow>
             Inr \<lparr>opt_model = ed,
                  opt_design = tempJsonModelDesign
                    \<lparr>graph := \<lparr>blocks = blocks',
                               wires = map (updateWire newIdMap)
                                         (wires (graph tempJsonModelDesign))\<rparr>\<rparr>,
                  opt_info = package jsonModel,
                  opt_dependencies = dependencies jsonModel\<rparr>)"

section \<open>createBlock and editBlock\<close>

text \<open>
  The dialogs, the collection lookup, \<open>Toolkit.UID\<close>, \<open>Math.random\<close>, \<open>cloneDeep\<close> and the
  block classes live outside \<open>factory.tsx\<close>; they are parameters of the model. An awaited promise either
  resolves with a value (\<open>Inr\<close>) or rejects with an error (\<open>Inl\<close>), which \<open>await\<close> throws;
  a user who cancels a dialog rejects it.

  The object a dialog resolves with is an opaque payload together with its \<open>id\<close> property,
  the one property \<open>createBlock\<close> writes. A block object is its class and the data it was
  built from; \<open>getData\<close> returns that data and \<open>setData\<close> replaces it.
\<close>

record 'a DialogProps =
  isOpen :: bool
  dlg_name :: "'a option"
  dlg_local :: "'a option"
  dlg_inputs :: "'a option"
  dlg_outputs :: "'a option"
  dlg_params :: "'a option"

record 'a BlockData =
  data_id :: "string option"
  data_fields :: 'a

datatype 'a NodeModel =
    ConstantBlockModel "'a BlockData"
  | CodeBlockModel "'a BlockData"
  | InputBlockModel "'a BlockData"
  | OutputBlockModel "'a BlockData"
  | PackageBlockModel "'a PackageOptions"
  | OtherNodeModel 'a

record 'a Collaborators =
  createConstantDialog :: "'a DialogProps \<Rightarrow> error + 'a BlockData"
  createCodeDialog :: "'a DialogProps \<Rightarrow> error + 'a BlockData"
  createIODialog :: "'a DialogProps \<Rightarrow> error + 'a BlockData"
  getCollectionBlock :: "string \<Rightarrow> error + 'a Project"
  UID :: string
  random :: rng
  copyAttributes :: "'a \<Rightarrow> 'a"
  getName :: "'a BlockData \<Rightarrow> 'a option"
  getLocal :: "'a BlockData \<Rightarrow> 'a option"
  getInputNames :: "'a BlockData \<Rightarrow> 'a option"
  getOutputNames :: "'a BlockData \<Rightarrow> 'a option"
  getParameterNames :: "'a BlockData \<Rightarrow> 'a option"

text \<open>The props \<open>{isOpen: true}\<close>; the other properties are absent.\<close>

definition openProps :: "'a DialogProps" where
  "openProps = \<lparr>isOpen = True, dlg_name = None, dlg_local = None, dlg_inputs = None,
                 dlg_outputs = None, dlg_params = None\<rparr>"

text \<open>\<open>blockCount.toString()\<close> of a count: its decimal digits, most significant first.\<close>

function toString10 :: "nat \<Rightarrow> string" where
  "toString10 n =
     (if n < 10 then [''0123456789'' ! n]
      else toString10 (n div 10) @ [''0123456789'' ! (n mod 10)])"
  by pat_completeness auto
termination
  by (relation "measure id") auto

declare toString10.simps [simp del]

text \<open>\<open>s.padStart(targetLength, c)\<close> with a pad string of one character.\<close>

definition padStart :: "nat \<Rightarrow> char \<Rightarrow> string \<Rightarrow> string" where
  "padStart targetLength c s = replicate (targetLength - length s) c @ s"

text \<open>The \<open>try\<close> block of \<open>createBlock\<close>: the block it assigns, or the error it throws.\<close>

definition createBlock_try :: "'a Collaborators \<Rightarrow> string \<Rightarrow> nat \<Rightarrow> error + 'a NodeModel" where
  "createBlock_try c name blockCount =
     (if name = ''basic.constant'' then
        (case createConstantDialog c openProps of
           Inl e \<Rightarrow> Inl e
         | Inr data \<Rightarrow>
             Inr (ConstantBlockModel
                    (data\<lparr>data_id := Some (padStart 4 CHR ''0'' (toString10 blockCount)
                                            @ ''-'' @ UID c)\<rparr>)))
      else if name = ''basic.code'' then
        (case createCodeDialog c openProps of
           Inl e \<Rightarrow> Inl e
         | Inr data \<Rightarrow> Inr (CodeBlockModel data))
      else if name = ''basic.input'' then
        (case createIODialog c openProps of
           Inl e \<Rightarrow> Inl e
         | Inr data \<Rightarrow> Inr (InputBlockModel data))
      else if name = ''basic.output'' then
        (case createIODialog c openProps of
           Inl e \<Rightarrow> Inl e
         | Inr data \<Rightarrow> Inr (OutputBlockModel data))
      else
        (case getCollectionBlock c name of
           Inl e \<Rightarrow> Inl e
         | Inr data \<Rightarrow>
             (case loadPackage (copyAttributes c) (random c) data of
                Inl e \<Rightarrow> Inl e
              | Inr opts \<Rightarrow> Inr (PackageBlockModel opts))))"

text \<open>
  \<open>createBlock\<close>: what \<open>console.log\<close> received, and how the returned promise settles:
  \<open>Inr (Some block)\<close> resolves with a block, \<open>Inr None\<close> resolves with \<open>undefined\<close>, and
  \<open>Inl\<close> would be a rejection.
\<close>

definition createBlock ::
  "'a Collaborators \<Rightarrow> string \<Rightarrow> nat \<Rightarrow> error list \<times> (error + 'a NodeModel option)" where
  "createBlock c name blockCount =
     (case createBlock_try c name blockCount of
        Inl e \<Rightarrow> ([e], Inr None)
      | Inr b \<Rightarrow> ([], Inr (Some b)))"

text \<open>The \<open>try\<close> block of \<open>editBlock\<close>: the node after \<open>setData\<close>, or the error thrown.\<close>

definition editBlock_try :: "'a Collaborators \<Rightarrow> 'a NodeModel \<Rightarrow> error + 'a NodeModel" where
  "editBlock_try c node =
     (case node of
        ConstantBlockModel d \<Rightarrow>
          (case createConstantDialog c
                  (openProps\<lparr>dlg_name := getName c d, dlg_local := getLocal c d\<rparr>) of
             Inl e \<Rightarrow> Inl e
           | Inr data \<Rightarrow> Inr (ConstantBlockModel data))
      | CodeBlockModel d \<Rightarrow>
          (case createCodeDialog c
                  (openProps\<lparr>dlg_inputs := getInputNames c d, dlg_outputs := getOutputNames c d,
                              dlg_params := getParameterNames c d\<rparr>) of
             Inl e \<Rightarrow> Inl e
           | Inr data \<Rightarrow> Inr (CodeBlockModel data))
      | InputBlockModel d \<Rightarrow>
          (case createIODialog c (openProps\<lparr>dlg_name := getName c d\<rparr>) of
             Inl e \<Rightarrow> Inl e
           | Inr data \<Rightarrow> Inr (InputBlockModel data))
      | OutputBlockModel d \<Rightarrow>
          (case createIODialog c (openProps\<lparr>dlg_name := getName c d\<rparr>) of
             Inl e \<Rightarrow> Inl e
           | Inr data \<Rightarrow> Inr (OutputBlockModel data))
      | _ \<Rightarrow> Inr node)"

text \<open>\<open>editBlock\<close>: what \<open>console.log\<close> received, and the node the returned promise leaves
  behind when it resolves (\<open>Inl\<close> would be a rejection).\<close>

definition editBlock ::
  "'a Collaborators \<Rightarrow> 'a NodeModel \<Rightarrow> error list \<times> (error + 'a NodeModel)" where
  "editBlock c node =
     (case editBlock_try c node of
        Inl e \<Rightarrow> ([e], Inr node)
      | Inr node' \<Rightarrow> ([], Inr node'))"

section \<open>loadPackage on a store of objects\<close>

text \<open>
  \<open>loadPackage\<close> writes into objects (\<open>block.id = newId\<close>, \<open>models[newId] = block\<close>,
  \<open>delete models[oldId]\<close>, \<open>wire.source.block = newSourceId\<close>). To say what these writes do
  to the caller's document, the objects are cells of a store: an address is an index into
  the store, a property that holds an object holds its address, and a new object goes to
  the end of the store. A cell has the shape of one kind of object of a package document;
  reading a property of an object of another shape is a TypeError. The outcome of a
  computation is its result or the error thrown, together with the store it leaves.
\<close>

type_synonym ref = nat

datatype 'a cell =
    BlockCell "'a Block"
  | EndpointCell Endpoint
  | WireCell ref ref 'a
  | ModelCell "'a Model"
  | ModelsCell "(string \<times> ref) list"
  | LayerCell ref 'a
  | ArrayCell "ref list"
  | GraphCell ref ref
  | DesignCell ref 'a
  | EditorCell ref 'a
  | ProjectCell ref ref 'a 'a

type_synonym 'a store = "'a cell list"

type_synonym ('a, 'r) prog = "'a store \<Rightarrow> (error + 'r) \<times> 'a store"

definition ret :: "'r \<Rightarrow> ('a, 'r) prog" where
  "ret x h = (Inr x, h)"

definition throw :: "error \<Rightarrow> ('a, 'r) prog" where
  "throw e h = (Inl e, h)"

definition andThen :: "('a, 'r) prog \<Rightarrow> ('r \<Rightarrow> ('a, 'q) prog) \<Rightarrow> ('a, 'q) prog" where
  "andThen p f h = (case p h of (Inl e, h') \<Rightarrow> (Inl e, h') | (Inr x, h') \<Rightarrow> f x h')"

definition getCell :: "ref \<Rightarrow> ('a, 'a cell) prog" where
  "getCell r h = (if r < length h then (Inr (h ! r), h) else (Inl TypeError, h))"

definition setCell :: "ref \<Rightarrow> 'a cell \<Rightarrow> ('a, unit) prog" where
  "setCell r c h = (if r < length h then (Inr (), h[r := c]) else (Inl TypeError, h))"

definition alloc :: "'a cell \<Rightarrow> ('a, ref) prog" where
  "alloc c h = (Inr (length h), h @ [c])"

definition getBlock :: "ref \<Rightarrow> ('a, 'a Block) prog" where
  "getBlock r = andThen (getCell r) (\<lambda>c. case c of BlockCell b \<Rightarrow> ret b | _ \<Rightarrow> throw TypeError)"

definition getEndpoint :: "ref \<Rightarrow> ('a, Endpoint) prog" where
  "getEndpoint r =
     andThen (getCell r) (\<lambda>c. case c of EndpointCell e \<Rightarrow> ret e | _ \<Rightarrow> throw TypeError)"

definition getWire :: "ref \<Rightarrow> ('a, ref \<times> ref \<times> 'a) prog" where
  "getWire r =
     andThen (getCell r) (\<lambda>c. case c of WireCell s t x \<Rightarrow> ret (s, t, x) | _ \<Rightarrow> throw TypeError)"

definition getModel :: "ref \<Rightarrow> ('a, 'a Model) prog" where
  "getModel r = andThen (getCell r) (\<lambda>c. case c of ModelCell m \<Rightarrow> ret m | _ \<Rightarrow> throw TypeError)"

definition getModels :: "ref \<Rightarrow> ('a, (string \<times> ref) list) prog" where
  "getModels r =
     andThen (getCell r) (\<lambda>c. case c of ModelsCell es \<Rightarrow> ret es | _ \<Rightarrow> throw TypeError)"

definition getLayer :: "ref \<Rightarrow> ('a, ref \<times> 'a) prog" where
  "getLayer r =
     andThen (getCell r) (\<lambda>c. case c of LayerCell m x \<Rightarrow> ret (m, x) | _ \<Rightarrow> throw TypeError)"

definition getArray :: "ref \<Rightarrow> ('a, ref list) prog" where
  "getArray r = andThen (getCell r) (\<lambda>c. case c of ArrayCell rs \<Rightarrow> ret rs | _ \<Rightarrow> throw TypeError)"

definition getGraph :: "ref \<Rightarrow> ('a, ref \<times> ref) prog" where
  "getGraph r =
     andThen (getCell r) (\<lambda>c. case c of GraphCell bs ws \<Rightarrow> ret (bs, ws) | _ \<Rightarrow> throw TypeError)"

definition getDesign :: "ref \<Rightarrow> ('a, ref \<times> 'a) prog" where
  "getDesign r =
     andThen (getCell r) (\<lambda>c. case c of DesignCell g x \<Rightarrow> ret (g, x) | _ \<Rightarrow> throw TypeError)"

definition getEditor :: "ref \<Rightarrow> ('a, ref \<times> 'a) prog" where
  "getEditor r =
     andThen (getCell r) (\<lambda>c. case c of EditorCell ls x \<Rightarrow> ret (ls, x) | _ \<Rightarrow> throw TypeError)"

text \<open>
  \<open>cloneDeep\<close> on a document of the shape above: every object reached is copied into a new
  object, from the leaves up; nothing is written to an object that exists. As on values,
  \<open>copy\<close> is what the copy makes of the remaining attributes of an object, and the copy of
  a model found under the key \<open>__proto__\<close> becomes the prototype of the new \<open>models\<close> object
  instead of an entry of it.
\<close>

fun mapS :: "(ref \<Rightarrow> ('a, ref) prog) \<Rightarrow> ref list \<Rightarrow> ('a, ref list) prog" where
  "mapS f [] = ret []"
| "mapS f (r # rs) = andThen (f r) (\<lambda>r'. andThen (mapS f rs) (\<lambda>rs'. ret (r' # rs')))"

definition cloneBlock :: "('a \<Rightarrow> 'a) \<Rightarrow> ref \<Rightarrow> ('a, ref) prog" where
  "cloneBlock copy r =
     andThen (getBlock r) (\<lambda>b. alloc (BlockCell (b\<lparr>block_rest := copy (block_rest b)\<rparr>)))"

definition cloneEndpoint :: "ref \<Rightarrow> ('a, ref) prog" where
  "cloneEndpoint r = andThen (getEndpoint r) (\<lambda>e. alloc (EndpointCell e))"

definition cloneWire :: "('a \<Rightarrow> 'a) \<Rightarrow> ref \<Rightarrow> ('a, ref) prog" where
  "cloneWire copy r =
     andThen (getWire r) (\<lambda>(s, t, x).
     andThen (cloneEndpoint s) (\<lambda>s'.
     andThen (cloneEndpoint t) (\<lambda>t'. alloc (WireCell s' t' (copy x)))))"

definition cloneModel :: "('a \<Rightarrow> 'a) \<Rightarrow> ref \<Rightarrow> ('a, ref) prog" where
  "cloneModel copy r =
     andThen (getModel r) (\<lambda>m. alloc (ModelCell (m\<lparr>model_rest := copy (model_rest m)\<rparr>)))"

fun cloneEntries :: "('a \<Rightarrow> 'a) \<Rightarrow> (string \<times> ref) list \<Rightarrow> ('a, (string \<times> ref) list) prog" where
  "cloneEntries copy [] = ret []"
| "cloneEntries copy ((k, r) # es) =
     andThen (cloneModel copy r) (\<lambda>r'.
     andThen (cloneEntries copy es) (\<lambda>es'.
       ret (if k = ''__proto__'' then es' else (k, r') # es')))"

definition cloneModels :: "('a \<Rightarrow> 'a) \<Rightarrow> ref \<Rightarrow> ('a, ref) prog" where
  "cloneModels copy r =
     andThen (getModels r) (\<lambda>es.
     andThen (cloneEntries copy es) (\<lambda>es'. alloc (ModelsCell es')))"

definition cloneLayer :: "('a \<Rightarrow> 'a) \<Rightarrow> ref \<Rightarrow> ('a, ref) prog" where
  "cloneLayer copy r =
     andThen (getLayer r) (\<lambda>(m, x).
     andThen (cloneModels copy m) (\<lambda>m'. alloc (LayerCell m' (copy x))))"

definition cloneArray :: "(ref \<Rightarrow> ('a, ref) prog) \<Rightarrow> ref \<Rightarrow> ('a, ref) prog" where
  "cloneArray f r =
     andThen (getArray r) (\<lambda>rs. andThen (mapS f rs) (\<lambda>rs'. alloc (ArrayCell rs')))"

definition cloneEditor :: "('a \<Rightarrow> 'a) \<Rightarrow> ref \<Rightarrow> ('a, ref) prog" where
  "cloneEditor copy r =
     andThen (getEditor r) (\<lambda>(ls, x).
     andThen (cloneArray (cloneLayer copy) ls) (\<lambda>ls'. alloc (EditorCell ls' (copy x))))"

definition cloneGraph :: "('a \<Rightarrow> 'a) \<Rightarrow> ref \<Rightarrow> ('a, ref) prog" where
  "cloneGraph copy r =
     andThen (getGraph r) (\<lambda>(bs, ws).
     andThen (cloneArray (cloneBlock copy) bs) (\<lambda>bs'.
     andThen (cloneArray (cloneWire copy) ws) (\<lambda>ws'. alloc (GraphCell bs' ws'))))"

definition cloneDesign :: "('a \<Rightarrow> 'a) \<Rightarrow> ref \<Rightarrow> ('a, ref) prog" where
  "cloneDesign copy r =
     andThen (getDesign r) (\<lambda>(g, x).
     andThen (cloneGraph copy g) (\<lambda>g'. alloc (DesignCell g' (copy x))))"

text \<open>The three loops of \<open>loadPackage\<close>, writing into the objects they reach.\<close>

fun renameBlocksS ::
  "rng \<Rightarrow> nat \<Rightarrow> (string \<rightharpoonup> string) \<Rightarrow> ref list \<Rightarrow> ('a, (string \<rightharpoonup> string) \<times> nat) prog" where
  "renameBlocksS rand n newIdMap [] = ret (newIdMap, n)"
| "renameBlocksS rand n newIdMap (r # rs) =
     andThen (getBlock r) (\<lambda>b.
       (let (newId, n') = generateNewId rand n;
            newIdMap' = assignId newIdMap (block_id b) newId
        in andThen (setCell r (BlockCell (b\<lparr>block_id := newId\<rparr>)))
             (\<lambda>_. renameBlocksS rand n' newIdMap' rs)))"

fun renameModelsS :: "(string \<rightharpoonup> string) \<Rightarrow> ref \<Rightarrow> string list \<Rightarrow> ('a, unit) prog" where
  "renameModelsS newIdMap modelsRef [] = ret ()"
| "renameModelsS newIdMap modelsRef (oldId # ks) =
     andThen (getModels modelsRef) (\<lambda>es.
       if truthy (lookupId newIdMap oldId) then
         (case (map_of es oldId, lookupId newIdMap oldId) of
            (Some b, Some newId) \<Rightarrow>
              andThen (getModel b) (\<lambda>m.
              andThen (setCell b (ModelCell (m\<lparr>model_id := newId\<rparr>))) (\<lambda>_.
              andThen (getModels modelsRef) (\<lambda>es1.
              andThen (setCell modelsRef
                         (ModelsCell (assignProp (toPropertyKey newId) b es1))) (\<lambda>_.
              andThen (getModels modelsRef) (\<lambda>es2.
              andThen (setCell modelsRef (ModelsCell (AList.delete oldId es2))) (\<lambda>_.
              renameModelsS newIdMap modelsRef ks))))))
          | _ \<Rightarrow> throw TypeError)
       else renameModelsS newIdMap modelsRef ks)"

definition updateModelIdsInLayerS :: "(string \<rightharpoonup> string) \<Rightarrow> ref \<Rightarrow> nat \<Rightarrow> ('a, unit) prog" where
  "updateModelIdsInLayerS newIdMap tempJsonModelEditor layerIndex =
     andThen (getEditor tempJsonModelEditor) (\<lambda>(ls, x).
     andThen (getArray ls) (\<lambda>layerRefs.
       if layerIndex < length layerRefs then
         andThen (getLayer (layerRefs ! layerIndex)) (\<lambda>(modelsRef, y).
         andThen (getModels modelsRef) (\<lambda>es.
           renameModelsS newIdMap modelsRef (map fst es)))
       else throw TypeError))"

fun forEachS :: "('x \<Rightarrow> ('a, unit) prog) \<Rightarrow> 'x list \<Rightarrow> ('a, unit) prog" where
  "forEachS f [] = ret ()"
| "forEachS f (x # xs) = andThen (f x) (\<lambda>_. forEachS f xs)"

definition updateWireS :: "(string \<rightharpoonup> string) \<Rightarrow> ref \<Rightarrow> ('a, unit) prog" where
  "updateWireS newIdMap wire =
     andThen (getWire wire) (\<lambda>(s, t, x).
     andThen (getEndpoint s) (\<lambda>src.
     andThen (getEndpoint t) (\<lambda>tgt.
       (let newSourceId = lookupId newIdMap (toPropertyKey (block src));
            newTargetId = lookupId newIdMap (toPropertyKey (block tgt))
        in andThen
             (case newSourceId of
                Some i \<Rightarrow> if truthy newSourceId
                          then andThen (getEndpoint s) (\<lambda>e. setCell s (EndpointCell (e\<lparr>block := i\<rparr>)))
                          else ret ()
              | None \<Rightarrow> ret ())
             (\<lambda>_. case newTargetId of
                Some i \<Rightarrow> if truthy newTargetId
                          then andThen (getEndpoint t) (\<lambda>e. setCell t (EndpointCell (e\<lparr>block := i\<rparr>)))
                          else ret ()
              | None \<Rightarrow> ret ())))))"

text \<open>The options object of the new \<open>PackageBlockModel\<close>, holding the two copies.\<close>

record 'a PackageRefs =
  ref_model :: ref
  ref_design :: ref
  ref_info :: 'a
  ref_dependencies :: 'a

definition blocksOf :: "ref \<Rightarrow> ('a, ref list) prog" where
  "blocksOf d =
     andThen (getDesign d) (\<lambda>(g, x). andThen (getGraph g) (\<lambda>(bs, ws). getArray bs))"

definition wiresOf :: "ref \<Rightarrow> ('a, ref list) prog" where
  "wiresOf d =
     andThen (getDesign d) (\<lambda>(g, x). andThen (getGraph g) (\<lambda>(bs, ws). getArray ws))"

definition loadPackageS :: "('a \<Rightarrow> 'a) \<Rightarrow> rng \<Rightarrow> ref \<Rightarrow> ('a, 'a PackageRefs) prog" where
  "loadPackageS copy rand jsonModel =
     andThen (getCell jsonModel) (\<lambda>c.
       case c of
         ProjectCell originalEditor originalDesign pkg deps \<Rightarrow>
           andThen (cloneDesign copy originalDesign) (\<lambda>tempJsonModelDesign.
           andThen (cloneEditor copy originalEditor) (\<lambda>tempJsonModelEditor.
           andThen (blocksOf tempJsonModelDesign) (\<lambda>blockRefs.
           andThen (renameBlocksS rand 0 Map.empty blockRefs) (\<lambda>(newIdMap, n).
           andThen (forEachS (updateModelIdsInLayerS newIdMap tempJsonModelEditor) [0, 1]) (\<lambda>_.
           andThen (wiresOf tempJsonModelDesign) (\<lambda>wireRefs.
           andThen (forEachS (updateWireS newIdMap) wireRefs) (\<lambda>_.
           ret \<lparr>ref_model = tempJsonModelEditor, ref_design = tempJsonModelDesign,
                ref_info = pkg, ref_dependencies = deps\<rparr>)))))))
       | _ \<Rightarrow> throw TypeError)"

text \<open>Reading a document off the store, as the value the first part of the theory works on.\<close>

definition valBlock :: "'a store \<Rightarrow> ref \<Rightarrow> 'a Block option" where
  "valBlock h r = (if r < length h then (case h ! r of BlockCell b \<Rightarrow> Some b | _ \<Rightarrow> None) else None)"

definition valEndpoint :: "'a store \<Rightarrow> ref \<Rightarrow> Endpoint option" where
  "valEndpoint h r =
     (if r < length h then (case h ! r of EndpointCell e \<Rightarrow> Some e | _ \<Rightarrow> None) else None)"

definition valWire :: "'a store \<Rightarrow> ref \<Rightarrow> 'a Wire option" where
  "valWire h r =
     (if r < length h then
        (case h ! r of
           WireCell s t x \<Rightarrow>
             (case (valEndpoint h s, valEndpoint h t) of
                (Some src, Some tgt) \<Rightarrow> Some \<lparr>source = src, target = tgt, wire_rest = x\<rparr>
              | _ \<Rightarrow> None)
         | _ \<Rightarrow> None)
      else None)"

definition valModel :: "'a store \<Rightarrow> ref \<Rightarrow> 'a Model option" where
  "valModel h r = (if r < length h then (case h ! r of ModelCell m \<Rightarrow> Some m | _ \<Rightarrow> None) else None)"

fun valList :: "(ref \<Rightarrow> 'v option) \<Rightarrow> ref list \<Rightarrow> 'v list option" where
  "valList f [] = Some []"
| "valList f (r # rs) =
     (case (f r, valList f rs) of (Some v, Some vs) \<Rightarrow> Some (v # vs) | _ \<Rightarrow> None)"

fun valEntries :: "'a store \<Rightarrow> (string \<times> ref) list \<Rightarrow> 'a Models option" where
  "valEntries h [] = Some []"
| "valEntries h ((k, r) # es) =
     (case (valModel h r, valEntries h es) of
        (Some m, Some ms) \<Rightarrow> Some ((k, m) # ms)
      | _ \<Rightarrow> None)"

definition valLayer :: "'a store \<Rightarrow> ref \<Rightarrow> 'a Layer option" where
  "valLayer h r =
     (if r < length h then
        (case h ! r of
           LayerCell m x \<Rightarrow>
             (if m < length h then
                (case h ! m of
                   ModelsCell es \<Rightarrow>
                     (case valEntries h es of
                        Some ms \<Rightarrow> Some \<lparr>models = ms, layer_rest = x\<rparr>
                      | None \<Rightarrow> None)
                 | _ \<Rightarrow> None)
              else None)
         | _ \<Rightarrow> None)
      else None)"

definition valArray :: "(ref \<Rightarrow> 'v option) \<Rightarrow> 'a store \<Rightarrow> ref \<Rightarrow> 'v list option" where
  "valArray f h r =
     (if r < length h then (case h ! r of ArrayCell rs \<Rightarrow> valList f rs | _ \<Rightarrow> None) else None)"

definition valEditor :: "'a store \<Rightarrow> ref \<Rightarrow> 'a Editor option" where
  "valEditor h r =
     (if r < length h then
        (case h ! r of
           EditorCell ls x \<Rightarrow>
             (case valArray (valLayer h) h ls of
                Some lvs \<Rightarrow> Some \<lparr>layers = lvs, editor_rest = x\<rparr>
              | None \<Rightarrow> None)
         | _ \<Rightarrow> None)
      else None)"

definition valDesign :: "'a store \<Rightarrow> ref \<Rightarrow> 'a ProjectDesign option" where
  "valDesign h r =
     (if r < length h then
        (case h ! r of
           DesignCell g x \<Rightarrow>
             (if g < length h then
                (case h ! g of
                   GraphCell bs ws \<Rightarrow>
                     (case (valArray (valBlock h) h bs, valArray (valWire h) h ws) of
                        (Some bvs, Some wvs) \<Rightarrow>
                          Some \<lparr>graph = \<lparr>blocks = bvs, wires = wvs\<rparr>, design_rest = x\<rparr>
                      | _ \<Rightarrow> None)
                 | _ \<Rightarrow> None)
              else None)
         | _ \<Rightarrow> None)
      else None)"

definition valProject :: "'a store \<Rightarrow> ref \<Rightarrow> 'a Project option" where
  "valProject h r =
     (if r < length h then
        (case h ! r of
           ProjectCell e d p q \<Rightarrow>
             (case (valEditor h e, valDesign h d) of
                (Some ev, Some dv) \<Rightarrow>
                  Some \<lparr>editor = ev, design = dv, package = p, dependencies = q\<rparr>
              | _ \<Rightarrow> None)
         | _ \<Rightarrow> None)
      else None)"

definition valPackage :: "'a store \<Rightarrow> 'a PackageRefs \<Rightarrow> 'a PackageOptions option" where
  "valPackage h p =
     (case (valEditor h (ref_model p), valDesign h (ref_design p)) of
        (Some ev, Some dv) \<Rightarrow>
          Some \<lparr>opt_model = ev, opt_design = dv, opt_info = ref_info p,
                opt_dependencies = ref_dependencies p\<rparr>
      | _ \<Rightarrow> None)"

section \<open>Notions used in the statements\<close>

text \<open>The format of a version 4 UUID in lower-case hexadecimal digits.\<close>

definition isHex :: "char \<Rightarrow> bool" where
  "isHex c = (c \<in> set ''0123456789abcdef'')"

definition is_uuid_v4 :: "string \<Rightarrow> bool" where
  "is_uuid_v4 s =
     (length s = 36 \<and>
      list_all isHex (take 8 s) \<and> s ! 8 = CHR ''-'' \<and>
      list_all isHex (take 4 (drop 9 s)) \<and> s ! 13 = CHR ''-'' \<and>
      s ! 14 = CHR ''4'' \<and> list_all isHex (take 3 (drop 15 s)) \<and> s ! 18 = CHR ''-'' \<and>
      s ! 19 \<in> set ''89ab'' \<and> list_all isHex (take 3 (drop 20 s)) \<and> s ! 23 = CHR ''-'' \<and>
      list_all isHex (take 12 (drop 24 s)))"

text \<open>The ids generated for \<open>k\<close> blocks in a row, the first from draw \<open>n\<close> on.\<close>

definition newIds :: "rng \<Rightarrow> nat \<Rightarrow> nat \<Rightarrow> string list" where
  "newIds rand n k = map (\<lambda>i. fst (generateNewId rand (n + 31 * i))) [0..<k]"

text \<open>A map that sends no two keys to the same value.\<close>

definition inj_map :: "('k \<rightharpoonup> 'v) \<Rightarrow> bool" where
  "inj_map m = (\<forall>k1 k2 v. m k1 = Some v \<and> m k2 = Some v \<longrightarrow> k1 = k2)"

text \<open>The keys that the keys \<open>ks\<close> of a layer are renamed to.\<close>

definition targets :: "(string \<rightharpoonup> string) \<Rightarrow> string list \<Rightarrow> string set" where
  "targets m ks =
     {t. \<exists>k \<in> set ks. \<exists>v. lookupId m k = Some v \<and> truthy (Some v) \<and> t = toPropertyKey v}"

text \<open>Every model stored under a key of \<open>W\<close> carries that key as its own \<open>id\<close>.\<close>

definition ids_agree :: "'a Models \<Rightarrow> string set \<Rightarrow> bool" where
  "ids_agree ms W = (\<forall>n \<in> W. \<forall>mdl. map_of ms n = Some mdl \<longrightarrow> model_id mdl = Str n)"

text \<open>The property keys of the members of \<open>Object.prototype\<close>.\<close>

definition inheritedKeys :: "string set" where
  "inheritedKeys = (\<lambda>x. toPropertyKey (Inherited x)) ` set protoNames"

text \<open>The \<open>newIdMap\<close> that \<open>loadPackage\<close> builds from the blocks of the copied design.\<close>

definition newIdMapOf :: "('a \<Rightarrow> 'a) \<Rightarrow> rng \<Rightarrow> 'a Project \<Rightarrow> (string \<rightharpoonup> string)" where
  "newIdMapOf copy rand jsonModel =
     fst (snd (renameBlocks rand 0 Map.empty
                 (blocks (graph (cloneDeep_design copy (design jsonModel))))))"

text \<open>The number of model entries of an editor, over all its layers.\<close>

definition modelCount :: "'a Editor \<Rightarrow> nat" where
  "modelCount ed = sum_list (map (\<lambda>l. length (models l)) (layers ed))"

text \<open>The keys of the \<open>models\<close> object of layer \<open>i\<close>.\<close>

definition layerKeys :: "'a Editor \<Rightarrow> nat \<Rightarrow> string set" where
  "layerKeys ed i = fst ` set (models (layers ed ! i))"

text \<open>Every \<open>models\<close> object lists a key once, as a JavaScript object does.\<close>

definition distinctKeys :: "'a Editor \<Rightarrow> bool" where
  "distinctKeys ed = list_all (\<lambda>l. distinct (map fst (models l))) (layers ed)"

text \<open>No \<open>models\<close> object has an entry under the key \<open>__proto__\<close>.\<close>

definition protoFree :: "'a Editor \<Rightarrow> bool" where
  "protoFree ed = list_all (\<lambda>l. ''__proto__'' \<notin> fst ` set (models l)) (layers ed)"

text \<open>The ids of the blocks of a design, in order.\<close>

abbreviation blockIds :: "'a ProjectDesign \<Rightarrow> string list" where
  "blockIds d \<equiv> map block_id (blocks (graph d))"

text \<open>The copy that \<open>cloneDeep\<close> makes of a model and of a wire.\<close>

definition cloneModel_of :: "('a \<Rightarrow> 'a) \<Rightarrow> 'a Model \<Rightarrow> 'a Model" where
  "cloneModel_of copy mdl = mdl\<lparr>model_rest := copy (model_rest mdl)\<rparr>"

text \<open>
  Two windows of 31 draws, starting at \<open>a\<close> and at \<open>b\<close>, give the same id: they agree at every
  \<open>x\<close> position and, at the \<open>y\<close> position (the 16th draw), on the two low bits.
\<close>

definition sameDraws :: "rng \<Rightarrow> nat \<Rightarrow> nat \<Rightarrow> bool" where
  "sameDraws rand a b =
     list_all (\<lambda>k. if k = 15 then rand (a + k) AND 3 = rand (b + k) AND 3
                    else rand (a + k) = rand (b + k)) [0..<31]"

section \<open>Sample inputs\<close>

text \<open>A random source whose draws count up, and one that always draws 0.\<close>

definition sample_rand :: rng where
  "sample_rand = (\<lambda>i. of_nat i)"

definition zero_rand :: rng where
  "zero_rand = (\<lambda>i. 0)"

text \<open>A document with two blocks, two wires (one to a block that is not there) and two
  layers; and the package \<open>loadPackage\<close> makes of it with the counting source.\<close>

definition sample_doc :: "string Project" where
  "sample_doc =
     \<lparr>editor = \<lparr>layers =
         [\<lparr>models = [(''a'', \<lparr>model_id = Str ''a'', model_rest = ''node a''\<rparr>),
                     (''z'', \<lparr>model_id = Str ''z'', model_rest = ''node z''\<rparr>),
                     (''b'', \<lparr>model_id = Str ''b'', model_rest = ''node b''\<rparr>)],
           layer_rest = ''nodes''\<rparr>,
          \<lparr>models = [(''a'', \<lparr>model_id = Str ''a'', model_rest = ''link a''\<rparr>)],
           layer_rest = ''links''\<rparr>],
        editor_rest = ''zoom''\<rparr>,
      design = \<lparr>graph =
         \<lparr>blocks = [\<lparr>block_id = ''a'', block_rest = ''code''\<rparr>,
                    \<lparr>block_id = ''b'', block_rest = ''constant''\<rparr>],
          wires = [\<lparr>source = \<lparr>block = Str ''a'', port = ''out''\<rparr>,
                    target = \<lparr>block = Str ''b'', port = ''in''\<rparr>, wire_rest = ''w1''\<rparr>,
                   \<lparr>source = \<lparr>block = Str ''b'', port = ''out''\<rparr>,
                    target = \<lparr>block = Str ''orphan'', port = ''in''\<rparr>, wire_rest = ''w2''\<rparr>]\<rparr>,
        design_rest = ''board''\<rparr>,
      package = ''info'', dependencies = ''deps''\<rparr>"

definition sample_out :: "string PackageOptions" where
  "sample_out =
     \<lparr>opt_model = \<lparr>layers =
         [\<lparr>models = [(''z'', \<lparr>model_id = Str ''z'', model_rest = ''node z''\<rparr>),
                     (''01234567-89ab-4cde-b012-3456789abcde'',
                        \<lparr>model_id = Str ''01234567-89ab-4cde-b012-3456789abcde'', model_rest = ''node a''\<rparr>),
                     (''f0123456-789a-4bcd-af01-23456789abcd'',
                        \<lparr>model_id = Str ''f0123456-789a-4bcd-af01-23456789abcd'', model_rest = ''node b''\<rparr>)],
           layer_rest = ''nodes''\<rparr>,
          \<lparr>models = [(''01234567-89ab-4cde-b012-3456789abcde'',
                        \<lparr>model_id = Str ''01234567-89ab-4cde-b012-3456789abcde'', model_rest = ''link a''\<rparr>)],
           layer_rest = ''links''\<rparr>],
        editor_rest = ''zoom''\<rparr>,
      opt_design = \<lparr>graph =
         \<lparr>blocks = [\<lparr>block_id = ''01234567-89ab-4cde-b012-3456789abcde'', block_rest = ''code''\<rparr>,
                    \<lparr>block_id = ''f0123456-789a-4bcd-af01-23456789abcd'', block_rest = ''constant''\<rparr>],
          wires = [\<lparr>source = \<lparr>block = Str ''01234567-89ab-4cde-b012-3456789abcde'', port = ''out''\<rparr>,
                    target = \<lparr>block = Str ''f0123456-789a-4bcd-af01-23456789abcd'', port = ''in''\<rparr>,
                    wire_rest = ''w1''\<rparr>,
                   \<lparr>source = \<lparr>block = Str ''f0123456-789a-4bcd-af01-23456789abcd'', port = ''out''\<rparr>,
                    target = \<lparr>block = Str ''orphan'', port = ''in''\<rparr>, wire_rest = ''w2''\<rparr>]\<rparr>,
        design_rest = ''board''\<rparr>,
      opt_info = ''info'', opt_dependencies = ''deps''\<rparr>"

text \<open>A document with two blocks, each with a model in layer 0; and the package
  \<open>loadPackage\<close> makes of it when every draw is 0.\<close>

definition twin_doc :: "string Project" where
  "twin_doc =
     \<lparr>editor = \<lparr>layers =
         [\<lparr>models = [(''a'', \<lparr>model_id = Str ''a'', model_rest = ''node a''\<rparr>),
                     (''b'', \<lparr>model_id = Str ''b'', model_rest = ''node b''\<rparr>)],
           layer_rest = ''nodes''\<rparr>,
          \<lparr>models = [], layer_rest = ''links''\<rparr>],
        editor_rest = ''zoom''\<rparr>,
      design = \<lparr>graph =
         \<lparr>blocks = [\<lparr>block_id = ''a'', block_rest = ''code''\<rparr>,
                    \<lparr>block_id = ''b'', block_rest = ''constant''\<rparr>],
          wires = []\<rparr>,
        design_rest = ''board''\<rparr>,
      package = ''info'', dependencies = ''deps''\<rparr>"

definition twin_out :: "string PackageOptions" where
  "twin_out =
     \<lparr>opt_model = \<lparr>layers =
         [\<lparr>models = [(''00000000-0000-4000-8000-000000000000'',
                        \<lparr>model_id = Str ''00000000-0000-4000-8000-000000000000'', model_rest = ''node b''\<rparr>)],
           layer_rest = ''nodes''\<rparr>,
          \<lparr>models = [], layer_rest = ''links''\<rparr>],
        editor_rest = ''zoom''\<rparr>,
      opt_design = \<lparr>graph =
         \<lparr>blocks = [\<lparr>block_id = ''00000000-0000-4000-8000-000000000000'', block_rest = ''code''\<rparr>,
                    \<lparr>block_id = ''00000000-0000-4000-8000-000000000000'', block_rest = ''constant''\<rparr>],
          wires = []\<rparr>,
        design_rest = ''board''\<rparr>,
      opt_info = ''info'', opt_dependencies = ''deps''\<rparr>"

text \<open>A document one of whose model keys, not the id of a block, is the id that the
  constant source generates; and the package \<open>loadPackage\<close> makes of it.\<close>

definition clash_doc :: "string Project" where
  "clash_doc =
     \<lparr>editor = \<lparr>layers =
         [\<lparr>models = [(''a'', \<lparr>model_id = Str ''a'', model_rest = ''node a''\<rparr>),
                     (''00000000-0000-4000-8000-000000000000'',
                        \<lparr>model_id = Str ''00000000-0000-4000-8000-000000000000'', model_rest = ''note''\<rparr>)],
           layer_rest = ''nodes''\<rparr>,
          \<lparr>models = [], layer_rest = ''links''\<rparr>],
        editor_rest = ''zoom''\<rparr>,
      design = \<lparr>graph = \<lparr>blocks = [\<lparr>block_id = ''a'', block_rest = ''code''\<rparr>], wires = []\<rparr>,
        design_rest = ''board''\<rparr>,
      package = ''info'', dependencies = ''deps''\<rparr>"

definition clash_out :: "string PackageOptions" where
  "clash_out =
     \<lparr>opt_model = \<lparr>layers =
         [\<lparr>models = [(''00000000-0000-4000-8000-000000000000'',
                        \<lparr>model_id = Str ''00000000-0000-4000-8000-000000000000'', model_rest = ''node a''\<rparr>)],
           layer_rest = ''nodes''\<rparr>,
          \<lparr>models = [], layer_rest = ''links''\<rparr>],
        editor_rest = ''zoom''\<rparr>,
      opt_design = \<lparr>graph =
         \<lparr>blocks = [\<lparr>block_id = ''00000000-0000-4000-8000-000000000000'', block_rest = ''code''\<rparr>],
          wires = []\<rparr>,
        design_rest = ''board''\<rparr>,
      opt_info = ''info'', opt_dependencies = ''deps''\<rparr>"

text \<open>A document whose block has the id \<open>__proto__\<close>, with a wire from that block to
  itself and a model under that key; and the package \<open>loadPackage\<close> makes of it when every
  draw is 0.\<close>

definition proto_doc :: "string Project" where
  "proto_doc =
     \<lparr>editor = \<lparr>layers =
         [\<lparr>models = [(''__proto__'', \<lparr>model_id = Str ''__proto__'', model_rest = ''node''\<rparr>)],
           layer_rest = ''nodes''\<rparr>,
          \<lparr>models = [], layer_rest = ''links''\<rparr>],
        editor_rest = ''zoom''\<rparr>,
      design = \<lparr>graph =
         \<lparr>blocks = [\<lparr>block_id = ''__proto__'', block_rest = ''code''\<rparr>],
          wires = [\<lparr>source = \<lparr>block = Str ''__proto__'', port = ''out''\<rparr>,
                    target = \<lparr>block = Str ''__proto__'', port = ''in''\<rparr>, wire_rest = ''w1''\<rparr>]\<rparr>,
        design_rest = ''board''\<rparr>,
      package = ''info'', dependencies = ''deps''\<rparr>"

definition proto_out :: "string PackageOptions" where
  "proto_out =
     \<lparr>opt_model = \<lparr>layers =
         [\<lparr>models = [], layer_rest = ''nodes''\<rparr>,
          \<lparr>models = [], layer_rest = ''links''\<rparr>],
        editor_rest = ''zoom''\<rparr>,
      opt_design = \<lparr>graph =
         \<lparr>blocks = [\<lparr>block_id = ''00000000-0000-4000-8000-000000000000'', block_rest = ''code''\<rparr>],
          wires = [\<lparr>source = \<lparr>block = Inherited ''__proto__'', port = ''out''\<rparr>,
                    target = \<lparr>block = Inherited ''__proto__'', port = ''in''\<rparr>,
                    wire_rest = ''w1''\<rparr>]\<rparr>,
        design_rest = ''board''\<rparr>,
      opt_info = ''info'', opt_dependencies = ''deps''\<rparr>"

text \<open>A document with a wire from a block that is not there, named \<open>constructor\<close>, and a
  model under the key \<open>toString\<close>, which is not the id of a block; and the package
  \<open>loadPackage\<close> makes of it when every draw is 0.\<close>

definition inherit_doc :: "string Project" where
  "inherit_doc =
     \<lparr>editor = \<lparr>layers =
         [\<lparr>models = [(''toString'', \<lparr>model_id = Str ''toString'', model_rest = ''note''\<rparr>)],
           layer_rest = ''nodes''\<rparr>,
          \<lparr>models = [], layer_rest = ''links''\<rparr>],
        editor_rest = ''zoom''\<rparr>,
      design = \<lparr>graph =
         \<lparr>blocks = [\<lparr>block_id = ''a'', block_rest = ''code''\<rparr>],
          wires = [\<lparr>source = \<lparr>block = Str ''constructor'', port = ''out''\<rparr>,
                    target = \<lparr>block = Str ''a'', port = ''in''\<rparr>, wire_rest = ''w1''\<rparr>]\<rparr>,
        design_rest = ''board''\<rparr>,
      package = ''info'', dependencies = ''deps''\<rparr>"

definition inherit_out :: "string PackageOptions" where
  "inherit_out =
     \<lparr>opt_model = \<lparr>layers =
         [\<lparr>models = [(''function toString() { [native code] }'',
                        \<lparr>model_id = Inherited ''toString'', model_rest = ''note''\<rparr>)],
           layer_rest = ''nodes''\<rparr>,
          \<lparr>models = [], layer_rest = ''links''\<rparr>],
        editor_rest = ''zoom''\<rparr>,
      opt_design = \<lparr>graph =
         \<lparr>blocks = [\<lparr>block_id = ''00000000-0000-4000-8000-000000000000'', block_rest = ''code''\<rparr>],
          wires = [\<lparr>source = \<lparr>block = Inherited ''constructor'', port = ''out''\<rparr>,
                    target = \<lparr>block = Str ''00000000-0000-4000-8000-000000000000'', port = ''in''\<rparr>,
                    wire_rest = ''w1''\<rparr>]\<rparr>,
        design_rest = ''board''\<rparr>,
      opt_info = ''info'', opt_dependencies = ''deps''\<rparr>"

text \<open>A fixed id mapping.\<close>

definition sample_map :: "string \<rightharpoonup> string" where
  "sample_map = [''a'' \<mapsto> ''u1'', ''b'' \<mapsto> ''u2'']"

text \<open>The last \<open>k\<close> decimal digits of \<open>n\<close>; the number a string of digits denotes; a decimal
  digit.\<close>

fun fixedDigits :: "nat \<Rightarrow> nat \<Rightarrow> string" where
  "fixedDigits 0 n = []"
| "fixedDigits (Suc k) n = fixedDigits k (n div 10) @ [''0123456789'' ! (n mod 10)]"

definition decimalValue :: "string \<Rightarrow> nat" where
  "decimalValue s = foldl (\<lambda>acc ch. 10 * acc + (of_char ch - 48)) 0 s"

definition isDigit :: "char \<Rightarrow> bool" where
  "isDigit ch = (ch \<in> set ''0123456789'')"

text \<open>Collaborators whose dialogs are all cancelled, and collaborators whose dialogs all
  resolve.\<close>

definition cancelling :: "string Collaborators" where
  "cancelling =
     \<lparr>createConstantDialog = (\<lambda>p. Inl (Rejected ''cancelled'')),
      createCodeDialog = (\<lambda>p. Inl (Rejected ''cancelled'')),
      createIODialog = (\<lambda>p. Inl (Rejected ''cancelled'')),
      getCollectionBlock = (\<lambda>n. Inl (Rejected ''not found'')),
      UID = ''uid-1'', random = sample_rand, copyAttributes = (\<lambda>x. x),
      getName = (\<lambda>d. Some (data_fields d)), getLocal = (\<lambda>d. None),
      getInputNames = (\<lambda>d. None), getOutputNames = (\<lambda>d. None),
      getParameterNames = (\<lambda>d. None)\<rparr>"

definition accepting :: "string Collaborators" where
  "accepting =
     \<lparr>createConstantDialog = (\<lambda>p. Inr \<lparr>data_id = None, data_fields = ''value 5''\<rparr>),
      createCodeDialog = (\<lambda>p. Inr \<lparr>data_id = None, data_fields = ''code''\<rparr>),
      createIODialog = (\<lambda>p. Inr \<lparr>data_id = None, data_fields = ''io''\<rparr>),
      getCollectionBlock = (\<lambda>n. Inr sample_doc),
      UID = ''uid-1'', random = sample_rand, copyAttributes = (\<lambda>x. x),
      getName = (\<lambda>d. Some (data_fields d)), getLocal = (\<lambda>d. None),
      getInputNames = (\<lambda>d. None), getOutputNames = (\<lambda>d. None),
      getParameterNames = (\<lambda>d. None)\<rparr>"

text \<open>
  The addresses a cell holds. With respect to the store \<open>h0\<close> a computation starts from, a
  later store \<open>extends\<close> it when the cells of \<open>h0\<close> are still there, unchanged, and the cells
  after them hold addresses of cells after them only. A computation \<open>frames\<close> \<open>h0\<close> when it
  keeps this, and its result satisfies \<open>Q\<close>.
\<close>

fun refs_of :: "'a cell \<Rightarrow> ref list" where
  "refs_of (BlockCell b) = []"
| "refs_of (EndpointCell e) = []"
| "refs_of (WireCell s t x) = [s, t]"
| "refs_of (ModelCell m) = []"
| "refs_of (ModelsCell es) = map snd es"
| "refs_of (LayerCell m x) = [m]"
| "refs_of (ArrayCell rs) = rs"
| "refs_of (GraphCell bs ws) = [bs, ws]"
| "refs_of (DesignCell g x) = [g]"
| "refs_of (EditorCell ls x) = [ls]"
| "refs_of (ProjectCell e d p q) = [e, d]"

definition fresh_closed :: "nat \<Rightarrow> 'a store \<Rightarrow> bool" where
  "fresh_closed n0 h =
     (\<forall>a. n0 \<le> a \<and> a < length h \<longrightarrow> (\<forall>r \<in> set (refs_of (h ! a)). n0 \<le> r))"

definition extends :: "'a store \<Rightarrow> 'a store \<Rightarrow> bool" where
  "extends h0 h = (take (length h0) h = h0 \<and> fresh_closed (length h0) h)"

definition frames :: "'a store \<Rightarrow> ('a, 'r) prog \<Rightarrow> ('r \<Rightarrow> bool) \<Rightarrow> bool" where
  "frames h0 p Q =
     (\<forall>h res h'. extends h0 h \<and> p h = (res, h') \<longrightarrow>
        extends h0 h' \<and> (\<forall>x. res = Inr x \<longrightarrow> Q x))"

abbreviation fresh :: "'a store \<Rightarrow> ref \<Rightarrow> bool" where
  "fresh h0 r \<equiv> length h0 \<le> r"

text \<open>A store that only grew, and kept its old cells, shows the same document.\<close>

definition prefix_of :: "'a store \<Rightarrow> 'a store \<Rightarrow> bool" where
  "prefix_of h h' = (take (length h) h' = h)"

text \<open>A store that holds the sample document at address 22, and the objects that
  \<open>loadPackage\<close> adds to it.\<close>

definition sample_store :: "string store" where
  "sample_store =
     [BlockCell \<lparr>block_id = ''a'', block_rest = ''code''\<rparr>,
      BlockCell \<lparr>block_id = ''b'', block_rest = ''constant''\<rparr>,
      ArrayCell [0, 1],
      EndpointCell \<lparr>block = Str ''a'', port = ''out''\<rparr>,
      EndpointCell \<lparr>block = Str ''b'', port = ''in''\<rparr>,
      WireCell 3 4 ''w1'',
      EndpointCell \<lparr>block = Str ''b'', port = ''out''\<rparr>,
      EndpointCell \<lparr>block = Str ''orphan'', port = ''in''\<rparr>,
      WireCell 6 7 ''w2'',
      ArrayCell [5, 8],
      GraphCell 2 9,
      DesignCell 10 ''board'',
      ModelCell \<lparr>model_id = Str ''a'', model_rest = ''node a''\<rparr>,
      ModelCell \<lparr>model_id = Str ''z'', model_rest = ''node z''\<rparr>,
      ModelCell \<lparr>model_id = Str ''b'', model_rest = ''node b''\<rparr>,
      ModelsCell [(''a'', 12), (''z'', 13), (''b'', 14)],
      LayerCell 15 ''nodes'',
      ModelCell \<lparr>model_id = Str ''a'', model_rest = ''link a''\<rparr>,
      ModelsCell [(''a'', 17)],
      LayerCell 18 ''links'',
      ArrayCell [16, 19],
      EditorCell 20 ''zoom'',
      ProjectCell 21 11 ''info'' ''deps'']"

definition sample_copies :: "string store" where
  "sample_copies =
     [BlockCell \<lparr>block_id = ''01234567-89ab-4cde-b012-3456789abcde'', block_rest = ''code''\<rparr>,
      BlockCell \<lparr>block_id = ''f0123456-789a-4bcd-af01-23456789abcd'', block_rest = ''constant''\<rparr>,
      ArrayCell [23, 24],
      EndpointCell \<lparr>block = Str ''01234567-89ab-4cde-b012-3456789abcde'', port = ''out''\<rparr>,
      EndpointCell \<lparr>block = Str ''f0123456-789a-4bcd-af01-23456789abcd'', port = ''in''\<rparr>,
      WireCell 26 27 ''w1'',
      EndpointCell \<lparr>block = Str ''f0123456-789a-4bcd-af01-23456789abcd'', port = ''out''\<rparr>,
      EndpointCell \<lparr>block = Str ''orphan'', port = ''in''\<rparr>,
      WireCell 29 30 ''w2'',
      ArrayCell [28, 31],
      GraphCell 25 32,
      DesignCell 33 ''board'',
      ModelCell \<lparr>model_id = Str ''01234567-89ab-4cde-b012-3456789abcde'', model_rest = ''node a''\<rparr>,
      ModelCell \<lparr>model_id = Str ''z'', model_rest = ''node z''\<rparr>,
      ModelCell \<lparr>model_id = Str ''f0123456-789a-4bcd-af01-23456789abcd'', model_rest = ''node b''\<rparr>,
      ModelsCell [(''z'', 36), (''01234567-89ab-4cde-b012-3456789abcde'', 35),
                  (''f0123456-789a-4bcd-af01-23456789abcd'', 37)],
      LayerCell 38 ''nodes'',
      ModelCell \<lparr>model_id = Str ''01234567-89ab-4cde-b012-3456789abcde'', model_rest = ''link a''\<rparr>,
      ModelsCell [(''01234567-89ab-4cde-b012-3456789abcde'', 40)],
      LayerCell 41 ''links'',
      ArrayCell [39, 42],
      EditorCell 43 ''zoom'']"

definition sample_refs :: "string PackageRefs" where
  "sample_refs = \<lparr>ref_model = 44, ref_design = 34, ref_info = ''info'', ref_dependencies = ''deps''\<rparr>"

section \<open>Properties of the identifier generator\<close>

lemma unat_nibble: "unat (r :: 4 word) < 16"
  using unsigned_less [of r, where ?'a = nat] by simp

lemma nibble_enum: "(r :: 4 word) \<in> {0,1,2,3,4,5,6,7,8,9,10,11,12,13,14,15}"
proof -
  have "unat r < 16" by (rule unat_nibble)
  then have "unat r \<in> {0,1,2,3,4,5,6,7,8,9,10,11,12,13,14,15}" by simp arith
  then have "of_nat (unat r) \<in> (of_nat ` {0,1,2,3,4,5,6,7,8,9,10,11,12,13,14,15} :: 4 word set)"
    by (rule imageI)
  then show ?thesis by simp
qed

lemma isHex_toString16: "isHex (toString16 d)"
  unfolding toString16_def isHex_def by (rule nth_mem) (use unat_nibble [of d] in simp)

lemma variant_toString16: "toString16 ((r AND 3) OR 8) \<in> set ''89ab''"
  using nibble_enum [of r] by (auto simp: toString16_def)

lemma generateNewId_unfold:
  "generateNewId rand n =
     (map toString16 (map (\<lambda>k. rand (n + k)) [0..<8]) @ ''-'' @
      map toString16 (map (\<lambda>k. rand (n + k)) [8..<12]) @ ''-4'' @
      map toString16 (map (\<lambda>k. rand (n + k)) [12..<15]) @ ''-'' @
      toString16 ((rand (n + 15) AND 3) OR 8) # map toString16 (map (\<lambda>k. rand (n + k)) [16..<19]) @ ''-'' @
      map toString16 (map (\<lambda>k. rand (n + k)) [19..<31]), n + 31)"
  by (simp add: generateNewId_def upt_rec [of _ "numeral _"] upt_rec [of 0] numeral_eq_Suc)

lemma generateNewId_uuid: "is_uuid_v4 (fst (generateNewId rand n))"
  using variant_toString16 [of "rand (n + 15)"]
  by (simp add: generateNewId_unfold is_uuid_v4_def isHex_toString16 nth_append list_all_iff)

lemma generateNewId_snd: "snd (generateNewId rand n) = n + 31"
  by (simp add: generateNewId_unfold)

lemma generateNewId_nonempty: "fst (generateNewId rand n) \<noteq> []"
  by (simp add: generateNewId_unfold)

lemma newIds_Suc: "newIds rand n (Suc k) = fst (generateNewId rand n) # newIds rand (n + 31) k"
proof -
  have "[0..<Suc k] = 0 # map Suc [0..<k]"
    by (simp add: upt_conv_Cons map_Suc_upt del: upt_Suc)
  then show ?thesis
    unfolding newIds_def by (simp add: comp_def add.assoc del: upt_Suc)
qed

lemma newIds_0: "newIds rand n 0 = []"
  by (simp add: newIds_def)

section \<open>Properties of the block loop\<close>

lemma renameBlocks_ids:
  "renameBlocks rand n m bs = (bs', m', n') \<Longrightarrow>
     map block_id bs' = newIds rand n (length bs) \<and> map block_rest bs' = map block_rest bs"
proof (induction bs arbitrary: n m bs' m' n')
  case Nil
  then show ?case by (simp add: newIds_0)
next
  case (Cons b bs)
  obtain newId n1 where g: "generateNewId rand n = (newId, n1)" by (cases "generateNewId rand n")
  obtain bs2 m2 n2 where r: "renameBlocks rand n1 (assignId m (block_id b) newId) bs = (bs2, m2, n2)"
    by (cases "renameBlocks rand n1 (assignId m (block_id b) newId) bs")
  from g have n1: "n1 = n + 31" and nid: "newId = fst (generateNewId rand n)"
    using generateNewId_snd [of rand n] by simp_all
  from Cons.prems g r have bs': "bs' = b\<lparr>block_id := newId\<rparr> # bs2" by simp
  from Cons.IH [OF r] show ?case by (simp add: bs' newIds_Suc n1 nid)
qed

lemma renameBlocks_length: "renameBlocks rand n m bs = (bs', m', n') \<Longrightarrow> length bs' = length bs"
  using renameBlocks_ids [of rand n m bs bs' m' n'] by (metis length_map)

lemma renameBlocks_map_out:
  "renameBlocks rand n m bs = (bs', m', n') \<Longrightarrow> k \<notin> block_id ` set bs \<Longrightarrow> m' k = m k"
proof (induction bs arbitrary: n m bs' m' n')
  case Nil
  then show ?case by simp
next
  case (Cons b bs)
  obtain newId n1 where g: "generateNewId rand n = (newId, n1)" by (cases "generateNewId rand n")
  obtain bs2 m2 n2 where r: "renameBlocks rand n1 (assignId m (block_id b) newId) bs = (bs2, m2, n2)"
    by (cases "renameBlocks rand n1 (assignId m (block_id b) newId) bs")
  from Cons.prems g r have m': "m' = m2" by simp
  from Cons.prems have "k \<notin> block_id ` set bs" and "k \<noteq> block_id b" by auto
  with Cons.IH [OF r] show ?case by (simp add: m' assignId_def)
qed

lemma renameBlocks_map_in:
  "renameBlocks rand n m bs = (bs', m', n') \<Longrightarrow> k \<in> block_id ` set bs \<Longrightarrow>
   k \<noteq> ''__proto__'' \<Longrightarrow> \<exists>v. m' k = Some v \<and> v \<in> block_id ` set bs'"
proof (induction bs arbitrary: n m bs' m' n')
  case Nil
  then show ?case by simp
next
  case (Cons b bs)
  obtain newId n1 where g: "generateNewId rand n = (newId, n1)" by (cases "generateNewId rand n")
  obtain bs2 m2 n2 where r: "renameBlocks rand n1 (assignId m (block_id b) newId) bs = (bs2, m2, n2)"
    by (cases "renameBlocks rand n1 (assignId m (block_id b) newId) bs")
  from Cons.prems g r have m': "m' = m2" and bs': "bs' = b\<lparr>block_id := newId\<rparr> # bs2" by simp_all
  show ?case
  proof (cases "k \<in> block_id ` set bs")
    case True
    from Cons.IH [OF r True Cons.prems(3)] show ?thesis by (auto simp: m' bs')
  next
    case False
    with Cons.prems have k: "k = block_id b" by auto
    from renameBlocks_map_out [OF r False] Cons.prems(3) have "m2 k = Some newId"
      by (simp add: k assignId_def)
    then show ?thesis by (simp add: m' bs')
  qed
qed

lemma renameBlocks_ran:
  "renameBlocks rand n m bs = (bs', m', n') \<Longrightarrow> m' k = Some v \<Longrightarrow>
     m k = Some v \<or> v \<in> block_id ` set bs'"
proof (induction bs arbitrary: n m bs' m' n')
  case Nil
  then show ?case by simp
next
  case (Cons b bs)
  obtain newId n1 where g: "generateNewId rand n = (newId, n1)" by (cases "generateNewId rand n")
  obtain bs2 m2 n2 where r: "renameBlocks rand n1 (assignId m (block_id b) newId) bs = (bs2, m2, n2)"
    by (cases "renameBlocks rand n1 (assignId m (block_id b) newId) bs")
  from Cons.prems g r have m': "m' = m2" and bs': "bs' = b\<lparr>block_id := newId\<rparr> # bs2" by simp_all
  from Cons.IH [OF r] Cons.prems(2) show ?case
    by (auto simp: m' bs' assignId_def split: if_splits)
qed

lemma renameBlocks_inj:
  "renameBlocks rand n m bs = (bs', m', n') \<Longrightarrow> distinct (map block_id bs') \<Longrightarrow>
     inj_map m \<Longrightarrow> ran m \<inter> block_id ` set bs' = {} \<Longrightarrow> inj_map m'"
proof (induction bs arbitrary: n m bs' m' n')
  case Nil
  then show ?case by simp
next
  case (Cons b bs)
  obtain newId n1 where g: "generateNewId rand n = (newId, n1)" by (cases "generateNewId rand n")
  obtain bs2 m2 n2 where r: "renameBlocks rand n1 (assignId m (block_id b) newId) bs = (bs2, m2, n2)"
    by (cases "renameBlocks rand n1 (assignId m (block_id b) newId) bs")
  from Cons.prems(1) g r have m': "m' = m2" and bs': "bs' = b\<lparr>block_id := newId\<rparr> # bs2" by simp_all
  from Cons.prems(2) have d2: "distinct (map block_id bs2)" and fresh: "newId \<notin> block_id ` set bs2"
    by (auto simp: bs')
  from Cons.prems(4) have nr: "newId \<notin> ran m" and r2: "ran m \<inter> block_id ` set bs2 = {}"
    by (auto simp: bs')
  have inj1: "inj_map (assignId m (block_id b) newId)"
    using Cons.prems(3) nr unfolding inj_map_def ran_def assignId_def by (auto split: if_splits)
  have "ran (assignId m (block_id b) newId) \<subseteq> insert newId (ran m)"
    unfolding ran_def assignId_def by (auto split: if_splits)
  with fresh r2 have ran1: "ran (assignId m (block_id b) newId) \<inter> block_id ` set bs2 = {}" by auto
  from Cons.IH [OF r d2 inj1 ran1] show ?case by (simp add: m')
qed

lemma renameBlocks_proto:
  "renameBlocks rand n m bs = (bs', m', n') \<Longrightarrow> m' ''__proto__'' = m ''__proto__''"
proof (induction bs arbitrary: n m bs' m' n')
  case Nil
  then show ?case by simp
next
  case (Cons b bs)
  obtain newId n1 where g: "generateNewId rand n = (newId, n1)" by (cases "generateNewId rand n")
  obtain bs2 m2 n2 where r: "renameBlocks rand n1 (assignId m (block_id b) newId) bs = (bs2, m2, n2)"
    by (cases "renameBlocks rand n1 (assignId m (block_id b) newId) bs")
  from Cons.prems g r have m': "m' = m2" by simp
  from Cons.IH [OF r] show ?case by (simp add: m' assignId_def)
qed

section \<open>Properties of the layer loop\<close>

lemma lookupId_own: "m k = Some v \<Longrightarrow> lookupId m k = Some (Str v)"
  by (simp add: lookupId_def)

lemma lookupId_plain: "k \<notin> set protoNames \<Longrightarrow> lookupId m k = map_option Str (m k)"
  by (simp add: lookupId_def split: option.splits)

lemma lookupId_None: "m k = None \<Longrightarrow> k \<notin> set protoNames \<Longrightarrow> lookupId m k = None"
  by (simp add: lookupId_def)

lemma lookupId_Str: "lookupId m k = Some (Str v) \<Longrightarrow> m k = Some v"
  by (auto simp: lookupId_def split: option.splits if_splits)

lemma lookupId_Inherited: "lookupId m k = Some (Inherited x) \<Longrightarrow> x = k \<and> m k = None \<and> k \<in> set protoNames"
  by (auto simp: lookupId_def split: option.splits if_splits)

lemma targets_Nil: "targets m [] = {}"
  by (simp add: targets_def)

lemma targets_Cons_truthy:
  "lookupId m k = Some v \<Longrightarrow> truthy (Some v) \<Longrightarrow>
     targets m (k # ks) = insert (toPropertyKey v) (targets m ks)"
  by (auto simp: targets_def)

lemma targets_Cons_falsy: "\<not> truthy (lookupId m k) \<Longrightarrow> targets m (k # ks) = targets m ks"
  by (auto simp: targets_def)

lemma targets_plain:
  assumes "set ks \<inter> set protoNames = {}"
  shows "targets m ks \<subseteq> {v. \<exists>k \<in> set ks. m k = Some v \<and> v \<noteq> []}"
proof
  fix t assume "t \<in> targets m ks"
  then obtain k v where k: "k \<in> set ks" and l: "lookupId m k = Some v" and tr: "truthy (Some v)"
    and t: "t = toPropertyKey v" by (auto simp: targets_def)
  from k assms have "k \<notin> set protoNames" by blast
  with l have "map_option Str (m k) = Some v" by (simp add: lookupId_plain)
  then obtain s where "m k = Some s" "v = Str s" by (cases "m k") auto
  with k t tr show "t \<in> {v. \<exists>k \<in> set ks. m k = Some v \<and> v \<noteq> []}" by auto
qed

lemma truthy_Some: "truthy x \<Longrightarrow> \<exists>v. x = Some v"
  by (cases x) auto

lemma renameModels_step:
  "lookupId m oldId = Some newId \<Longrightarrow> truthy (Some newId) \<Longrightarrow> map_of ms oldId = Some b \<Longrightarrow>
     renameModels m (oldId # ks) ms =
       renameModels m ks
         (AList.delete oldId (assignProp (toPropertyKey newId) (b\<lparr>model_id := newId\<rparr>) ms))"
  by simp

lemma renameModels_skip:
  "\<not> truthy (lookupId m oldId) \<Longrightarrow> renameModels m (oldId # ks) ms = renameModels m ks ms"
  by simp

lemma keys_assignProp: "fst ` set (assignProp k v ms) \<subseteq> insert k (fst ` set ms)"
  and keys_assignProp': "fst ` set ms \<subseteq> fst ` set (assignProp k v ms)"
  using dom_update [of k v ms] by (auto simp: assignProp_def)

lemma distinct_assignProp: "distinct (map fst ms) \<Longrightarrow> distinct (map fst (assignProp k v ms))"
  by (simp add: assignProp_def distinct_update)

lemma map_of_assignProp_other: "k' \<noteq> k \<Longrightarrow> map_of (assignProp k v ms) k' = map_of ms k'"
  by (simp add: assignProp_def update_conv')

lemma map_of_assignProp_same:
  "map_of (assignProp k v ms) k = Some v \<or> (k = ''__proto__'' \<and> map_of (assignProp k v ms) k = None)"
  by (auto simp: assignProp_def update_conv' map_of_eq_None_iff)

lemma keys_delete: "fst ` set (AList.delete k ms) = fst ` set ms - {k}"
proof -
  have "fst ` set (AList.delete k ms) = set (map fst (AList.delete k ms))" by simp
  also have "\<dots> = set (map fst ms) - {k}" by (simp only: delete_keys set_removeAll)
  finally show ?thesis by simp
qed

lemma renameModels_ok:
  "distinct (map fst ms) \<Longrightarrow> distinct ks \<Longrightarrow> set ks \<subseteq> fst ` set ms \<Longrightarrow>
     \<exists>ms'. renameModels m ks ms = Inr ms' \<and> distinct (map fst ms')"
proof (induction ks arbitrary: ms)
  case Nil
  then show ?case by simp
next
  case (Cons oldId ks)
  show ?case
  proof (cases "truthy (lookupId m oldId)")
    case False
    with Cons show ?thesis by simp
  next
    case True
    then obtain newId where n: "lookupId m oldId = Some newId" using truthy_Some by blast
    with True have tr: "truthy (Some newId)" by simp
    from Cons.prems(3) have "oldId \<in> fst ` set ms" by simp
    then obtain b where b: "map_of ms oldId = Some b"
      by (metis map_of_eq_None_iff not_Some_eq)
    let ?ms1 = "AList.delete oldId (assignProp (toPropertyKey newId) (b\<lparr>model_id := newId\<rparr>) ms)"
    have d1: "distinct (map fst ?ms1)"
      using Cons.prems(1) by (simp add: distinct_assignProp distinct_delete)
    have s1: "set ks \<subseteq> fst ` set ?ms1"
      using Cons.prems(2,3) keys_assignProp' [of ms "toPropertyKey newId" "b\<lparr>model_id := newId\<rparr>"]
      unfolding keys_delete by auto
    from Cons.prems(2) have d2: "distinct ks" by simp
    from Cons.IH [OF d1 d2 s1] show ?thesis
      unfolding renameModels_step [of m oldId newId ms b ks, OF n tr b] .
  qed
qed

lemma length_step:
  assumes "distinct (map fst ms)" "oldId \<in> fst ` set ms" "t \<notin> fst ` set ms" "t \<noteq> ''__proto__''"
  shows "length (AList.delete oldId (assignProp t b ms)) = length ms"
proof -
  let ?u = "AList.update t b ms"
  have u: "assignProp t b ms = ?u" using assms(4) by (simp add: assignProp_def)
  have du: "distinct (map fst ?u)" using assms(1) by (simp add: distinct_update)
  have mem: "oldId \<in> set (map fst ?u)" using assms(2) by (auto simp: update_keys)
  have "length (AList.delete oldId ?u) = length (map fst (AList.delete oldId ?u))" by simp
  also have "\<dots> = length (removeAll oldId (map fst ?u))" by (simp only: delete_keys)
  also have "\<dots> = length (remove1 oldId (map fst ?u))"
    using du by (simp add: distinct_remove1_removeAll)
  also have "\<dots> = length (map fst ?u) - 1" using mem by (simp add: length_remove1)
  also have "\<dots> = length ms" using assms(3) by (simp add: update_keys)
  finally show ?thesis unfolding u .
qed

text \<open>When the keys are renamed to keys that are new and differ from each other, the number
  of entries stays.\<close>

lemma renameModels_length:
  "distinct (map fst ms) \<Longrightarrow> distinct ks \<Longrightarrow> set ks \<subseteq> fst ` set ms \<Longrightarrow>
   set ks \<inter> set protoNames = {} \<Longrightarrow> inj_map m \<Longrightarrow> ''__proto__'' \<notin> ran m \<Longrightarrow>
   targets m ks \<inter> fst ` set ms = {} \<Longrightarrow>
     renameModels m ks ms = Inr ms' \<Longrightarrow> length ms' = length ms"
proof (induction ks arbitrary: ms)
  case Nil
  then show ?case by simp
next
  case (Cons oldId ks)
  from Cons.prems(4) have pk: "set ks \<inter> set protoNames = {}" and po: "oldId \<notin> set protoNames"
    by auto
  show ?case
  proof (cases "truthy (lookupId m oldId)")
    case False
    with Cons.prems have "targets m ks \<inter> fst ` set ms = {}" "renameModels m ks ms = Inr ms'"
      by (simp_all add: targets_Cons_falsy)
    with Cons.IH [of ms] Cons.prems pk show ?thesis by simp
  next
    case True
    then obtain newId where n: "lookupId m oldId = Some newId" using truthy_Some by blast
    with True have tr: "truthy (Some newId)" by simp
    from n po obtain v where v: "m oldId = Some v" "newId = Str v"
      by (cases "m oldId") (auto simp: lookupId_plain)
    from v(1) Cons.prems(6) have np: "v \<noteq> ''__proto__''" by (auto simp: ran_def)
    from Cons.prems(3) have old: "oldId \<in> fst ` set ms" by simp
    then obtain b where b: "map_of ms oldId = Some b"
      by (metis map_of_eq_None_iff not_Some_eq)
    let ?ms1 = "AList.delete oldId (assignProp (toPropertyKey newId) (b\<lparr>model_id := newId\<rparr>) ms)"
    have t: "targets m (oldId # ks) = insert v (targets m ks)"
      using targets_Cons_truthy [of m oldId newId ks, OF n tr] by (simp add: v(2))
    with Cons.prems(7) have fresh: "v \<notin> fst ` set ms" and t2: "targets m ks \<inter> fst ` set ms = {}"
      by auto
    have d1: "distinct (map fst ?ms1)"
      using Cons.prems(1) by (simp add: distinct_assignProp distinct_delete)
    have s1: "set ks \<subseteq> fst ` set ?ms1"
      using Cons.prems(2,3) keys_assignProp' [of ms "toPropertyKey newId" "b\<lparr>model_id := newId\<rparr>"]
      unfolding keys_delete by auto
    from Cons.prems(2) have d2: "distinct ks" and notin: "oldId \<notin> set ks" by simp_all
    have vt: "v \<notin> targets m ks"
    proof
      assume "v \<in> targets m ks"
      with targets_plain [OF pk, of m] obtain k where "k \<in> set ks" "m k = Some v" by auto
      with v(1) Cons.prems(5) have "k = oldId" unfolding inj_map_def by blast
      with \<open>k \<in> set ks\<close> notin show False by simp
    qed
    have "fst ` set ?ms1 \<subseteq> insert v (fst ` set ms)"
      using keys_assignProp [of "toPropertyKey newId" "b\<lparr>model_id := newId\<rparr>" ms]
      unfolding keys_delete by (simp add: v(2)) blast
    with t2 vt have t1: "targets m ks \<inter> fst ` set ?ms1 = {}" by blast
    from Cons.prems(8) have r: "renameModels m ks ?ms1 = Inr ms'"
      unfolding renameModels_step [of m oldId newId ms b ks, OF n tr b] .
    from Cons.IH [OF d1 d2 s1 pk Cons.prems(5,6) t1 r]
    show ?thesis using length_step [OF Cons.prems(1) old fresh np] by (simp add: v(2))
  qed
qed

text \<open>A key that is not renamed, and that no key is renamed to, keeps its entry.\<close>

lemma renameModels_keep:
  "renameModels m ks ms = Inr ms' \<Longrightarrow> \<not> truthy (lookupId m k) \<Longrightarrow> k \<notin> targets m ks \<Longrightarrow>
     map_of ms' k = map_of ms k"
proof (induction ks arbitrary: ms)
  case Nil
  then show ?case by simp
next
  case (Cons oldId ks)
  show ?case
  proof (cases "truthy (lookupId m oldId)")
    case False
    with Cons show ?thesis by (simp add: targets_Cons_falsy)
  next
    case True
    then obtain newId where n: "lookupId m oldId = Some newId" using truthy_Some by blast
    with True have tr: "truthy (Some newId)" by simp
    have t: "targets m (oldId # ks) = insert (toPropertyKey newId) (targets m ks)"
      by (rule targets_Cons_truthy [of m oldId newId ks, OF n tr])
    from True Cons.prems(2) have ne1: "k \<noteq> oldId" by auto
    from t Cons.prems(3) have ne2: "k \<noteq> toPropertyKey newId" and k2: "k \<notin> targets m ks" by auto
    from Cons.prems(1) n tr obtain b where b: "map_of ms oldId = Some b"
      by (cases "map_of ms oldId") auto
    let ?ms1 = "AList.delete oldId (assignProp (toPropertyKey newId) (b\<lparr>model_id := newId\<rparr>) ms)"
    from Cons.prems(1) have r: "renameModels m ks ?ms1 = Inr ms'"
      unfolding renameModels_step [of m oldId newId ms b ks, OF n tr b] .
    from Cons.IH [OF r Cons.prems(2) k2] show ?thesis
      using ne1 ne2 by (simp add: delete_conv' map_of_assignProp_other)
  qed
qed

text \<open>A model stored under a key it was renamed to by an own entry of \<open>newIdMap\<close> carries
  that key as its \<open>id\<close>.\<close>

lemma renameModels_ids:
  "renameModels m ks ms = Inr ms' \<Longrightarrow> ids_agree ms W \<Longrightarrow>
   (W \<union> ran m) \<inter> inheritedKeys = {} \<Longrightarrow>
     ids_agree ms' (W \<union> {v. \<exists>k \<in> set ks. m k = Some v \<and> v \<noteq> []})"
proof (induction ks arbitrary: ms W)
  case Nil
  then show ?case by simp
next
  case (Cons oldId ks)
  let ?S = "\<lambda>ks. {v. \<exists>k \<in> set ks. m k = Some v \<and> v \<noteq> []}"
  show ?case
  proof (cases "truthy (lookupId m oldId)")
    case False
    have "?S (oldId # ks) = ?S ks"
    proof -
      have "\<not> (\<exists>v. m oldId = Some v \<and> v \<noteq> [])"
        using False by (auto simp: lookupId_def)
      then show ?thesis by auto
    qed
    with False Cons show ?thesis by simp
  next
    case True
    then obtain newId where n: "lookupId m oldId = Some newId" using truthy_Some by blast
    with True have tr: "truthy (Some newId)" by simp
    from Cons.prems(1) n tr obtain b where b: "map_of ms oldId = Some b"
      by (cases "map_of ms oldId") auto
    let ?t = "toPropertyKey newId"
    let ?ms1 = "AList.delete oldId (assignProp ?t (b\<lparr>model_id := newId\<rparr>) ms)"
    from Cons.prems(1) have r: "renameModels m ks ?ms1 = Inr ms'"
      unfolding renameModels_step [of m oldId newId ms b ks, OF n tr b] .
    show ?thesis
    proof (cases newId)
      case (Str v)
      with n have mv: "m oldId = Some v" by (simp add: lookupId_Str)
      from tr Str have ne: "v \<noteq> []" by simp
      have "ids_agree ?ms1 (insert v W)"
        unfolding ids_agree_def
      proof (intro ballI allI impI)
        fix x mdl assume x: "x \<in> insert v W" and mo: "map_of ?ms1 x = Some mdl"
        from mo have xo: "x \<noteq> oldId" by (auto simp: delete_conv' split: if_splits)
        with mo have mo1: "map_of (assignProp ?t (b\<lparr>model_id := newId\<rparr>) ms) x = Some mdl"
          by (simp add: delete_conv')
        show "model_id mdl = Str x"
        proof (cases "x = v")
          case True
          with mo1 map_of_assignProp_same [of ?t "b\<lparr>model_id := newId\<rparr>" ms] Str
          show ?thesis by auto
        next
          case False
          with x have xw: "x \<in> W" by simp
          from False mo1 Str have "map_of ms x = Some mdl" by (simp add: map_of_assignProp_other)
          with Cons.prems(2) xw show ?thesis by (simp add: ids_agree_def)
        qed
      qed
      moreover have "(insert v W \<union> ran m) \<inter> inheritedKeys = {}"
        using Cons.prems(3) mv by (auto simp: ran_def)
      ultimately have "ids_agree ms' (insert v W \<union> ?S ks)" by (rule Cons.IH [OF r])
      moreover have "W \<union> ?S (oldId # ks) = insert v W \<union> ?S ks" using mv ne by auto
      ultimately show ?thesis by simp
    next
      case (Inherited x)
      with n have mn: "m oldId = None" and xp: "x \<in> set protoNames"
        by (auto dest: lookupId_Inherited)
      have tk: "?t \<in> inheritedKeys" unfolding inheritedKeys_def Inherited using xp by (rule imageI)
      with Cons.prems(3) have tw: "?t \<notin> W" by blast
      have "ids_agree ?ms1 W"
        unfolding ids_agree_def
      proof (intro ballI allI impI)
        fix y mdl assume y: "y \<in> W" and mo: "map_of ?ms1 y = Some mdl"
        from mo have yo: "y \<noteq> oldId" by (auto simp: delete_conv' split: if_splits)
        from y tw have "y \<noteq> ?t" by blast
        with mo yo have "map_of ms y = Some mdl" by (simp add: delete_conv' map_of_assignProp_other)
        with Cons.prems(2) y show "model_id mdl = Str y" by (simp add: ids_agree_def)
      qed
      then have "ids_agree ms' (W \<union> ?S ks)" by (rule Cons.IH [OF r _ Cons.prems(3)])
      moreover have "?S (oldId # ks) = ?S ks" using mn by auto
      ultimately show ?thesis by simp
    qed
  qed
qed

lemma targets_subset:
  "targets m ks \<subseteq> ran m \<union> inheritedKeys"
proof
  fix t assume "t \<in> targets m ks"
  then obtain k v where l: "lookupId m k = Some v" and t: "t = toPropertyKey v"
    by (auto simp: targets_def)
  show "t \<in> ran m \<union> inheritedKeys"
  proof (cases v)
    case (Str s)
    with l have "m k = Some s" by (simp add: lookupId_Str)
    then show ?thesis unfolding t Str by (auto simp: ran_def)
  next
    case (Inherited x)
    with l have "x \<in> set protoNames" by (auto dest: lookupId_Inherited)
    then have "toPropertyKey (Inherited x) \<in> inheritedKeys"
      unfolding inheritedKeys_def by (rule imageI)
    then show ?thesis unfolding t Inherited by blast
  qed
qed

lemma renameModels_Inl: "renameModels m ks ms = Inl e \<Longrightarrow> e = TypeError"
  by (induction ks arbitrary: ms) (auto split: if_splits option.splits)

section \<open>Properties of cloneDeep\<close>

lemma cloneDeep_design_blockIds [simp]: "blockIds (cloneDeep_design copy d) = blockIds d"
  by (simp add: cloneDeep_design_def comp_def)

lemma cloneDeep_design_blockIds_set [simp]:
  "block_id ` set (blocks (graph (cloneDeep_design copy d))) = block_id ` set (blocks (graph d))"
  using arg_cong [OF cloneDeep_design_blockIds [of copy d], of set] by (simp only: set_map)

lemma cloneDeep_design_blocks_length [simp]:
  "length (blocks (graph (cloneDeep_design copy d))) = length (blocks (graph d))"
  by (simp add: cloneDeep_design_def)

lemma cloneDeep_design_wires:
  "wires (graph (cloneDeep_design copy d)) =
     map (\<lambda>w. w\<lparr>wire_rest := copy (wire_rest w)\<rparr>) (wires (graph d))"
  by (simp add: cloneDeep_design_def)

lemma cloneDeep_editor_length [simp]:
  "length (layers (cloneDeep_editor copy ed)) = length (layers ed)"
  by (simp add: cloneDeep_editor_def)

lemma cloneDeep_editor_models:
  "i < length (layers ed) \<Longrightarrow>
     models (layers (cloneDeep_editor copy ed) ! i) = cloneDeep_models copy (models (layers ed ! i))"
  by (simp add: cloneDeep_editor_def)

lemma cloneDeep_editor_all_models:
  "map models (layers (cloneDeep_editor copy ed)) =
     map (\<lambda>l. cloneDeep_models copy (models l)) (layers ed)"
  by (simp add: cloneDeep_editor_def comp_def)

lemma cloneDeep_models_keys:
  "map fst (cloneDeep_models copy ms) = filter (\<lambda>k. k \<noteq> ''__proto__'') (map fst ms)"
  unfolding cloneDeep_models_def by (induction ms) auto

lemma cloneDeep_models_keys_subset: "fst ` set (cloneDeep_models copy ms) \<subseteq> fst ` set ms"
proof -
  have "set (map fst (cloneDeep_models copy ms)) \<subseteq> set (map fst ms)"
    unfolding cloneDeep_models_keys by auto
  then show ?thesis by simp
qed

lemma cloneDeep_models_distinct:
  "distinct (map fst ms) \<Longrightarrow> distinct (map fst (cloneDeep_models copy ms))"
  unfolding cloneDeep_models_keys by simp

lemma cloneDeep_models_length:
  "''__proto__'' \<notin> fst ` set ms \<Longrightarrow> length (cloneDeep_models copy ms) = length ms"
  unfolding cloneDeep_models_def by (induction ms) auto

lemma cloneDeep_models_map_of:
  "k \<noteq> ''__proto__'' \<Longrightarrow>
     map_of (cloneDeep_models copy ms) k = map_option (cloneModel_of copy) (map_of ms k)"
  unfolding cloneDeep_models_def cloneModel_of_def by (induction ms) auto

lemma cloneDeep_models_proto: "''__proto__'' \<notin> fst ` set (cloneDeep_models copy ms)"
proof -
  have "''__proto__'' \<notin> set (map fst (cloneDeep_models copy ms))"
    unfolding cloneDeep_models_keys by simp
  then show ?thesis by simp
qed

section \<open>Generated ids and inherited keys\<close>

lemma uuid_not_proto: "is_uuid_v4 s \<Longrightarrow> s \<noteq> ''__proto__''"
  by (auto simp: is_uuid_v4_def)

lemma inherited_nth8: "x \<noteq> ''__proto__'' \<Longrightarrow> toPropertyKey (Inherited x) ! 8 = CHR '' ''"
  by (simp add: nth_append)

lemma uuid_not_inherited: "is_uuid_v4 s \<Longrightarrow> s \<notin> inheritedKeys"
proof
  assume u: "is_uuid_v4 s" and "s \<in> inheritedKeys"
  then obtain x where s: "s = toPropertyKey (Inherited x)" unfolding inheritedKeys_def by blast
  show False
  proof (cases "x = ''__proto__''")
    case True
    with s u show False by (simp add: is_uuid_v4_def)
  next
    case False
    from u have "s ! 8 = CHR ''-''" by (simp add: is_uuid_v4_def)
    with inherited_nth8 [OF False] s show False by simp
  qed
qed

lemma newIds_uuid: "v \<in> set (newIds rand n k) \<Longrightarrow> is_uuid_v4 v"
  by (auto simp: newIds_def generateNewId_uuid)

lemma newIds_nonempty: "v \<in> set (newIds rand n k) \<Longrightarrow> v \<noteq> []"
  by (auto simp: newIds_def generateNewId_nonempty)

section \<open>Properties of loadPackage\<close>

lemma updateWire_rest:
  "updateWire m (w\<lparr>wire_rest := r\<rparr>) = (updateWire m w)\<lparr>wire_rest := r\<rparr>"
  by (simp add: updateWire_def Let_def split: option.splits)

lemma updateModelIdsInLayer_Inr:
  assumes "updateModelIdsInLayer m i ed = Inr ed'"
  obtains ms' where "i < length (layers ed)"
    "renameModels m (map fst (models (layers ed ! i))) (models (layers ed ! i)) = Inr ms'"
    "ed' = ed\<lparr>layers := (layers ed)[i := (layers ed ! i)\<lparr>models := ms'\<rparr>]\<rparr>"
  using assms unfolding updateModelIdsInLayer_def
  by (auto simp: Let_def split: if_splits sum.splits)

lemma updateModelIdsInLayer_ok:
  assumes "i < length (layers ed)" "distinct (map fst (models (layers ed ! i)))"
  shows "\<exists>ed'. updateModelIdsInLayer m i ed = Inr ed'"
proof -
  let ?ms = "models (layers ed ! i)"
  have "distinct (map fst ?ms)" using assms(2) .
  from renameModels_ok [OF assms(2) this, of m] obtain ms' where
    "renameModels m (map fst ?ms) ?ms = Inr ms'" by auto
  then show ?thesis using assms(1) by (simp add: updateModelIdsInLayer_def Let_def)
qed

lemma updateModelIdsInLayer_Inl: "updateModelIdsInLayer m i ed = Inl e \<Longrightarrow> e = TypeError"
  unfolding updateModelIdsInLayer_def
  by (auto simp: Let_def split: if_splits sum.splits dest: renameModels_Inl)

lemma loadPackage_Inr:
  assumes "loadPackage copy rand doc = Inr out"
  obtains bs' n ed0 ed1 where
    "renameBlocks rand 0 Map.empty (blocks (graph (cloneDeep_design copy (design doc))))
       = (bs', newIdMapOf copy rand doc, n)"
    "updateModelIdsInLayer (newIdMapOf copy rand doc) 0 (cloneDeep_editor copy (editor doc)) = Inr ed0"
    "updateModelIdsInLayer (newIdMapOf copy rand doc) 1 ed0 = Inr ed1"
    "out = \<lparr>opt_model = ed1,
            opt_design = (cloneDeep_design copy (design doc))
              \<lparr>graph := \<lparr>blocks = bs',
                         wires = map (updateWire (newIdMapOf copy rand doc))
                                   (wires (graph (cloneDeep_design copy (design doc))))\<rparr>\<rparr>,
            opt_info = package doc, opt_dependencies = dependencies doc\<rparr>"
proof -
  let ?d = "cloneDeep_design copy (design doc)"
  let ?e = "cloneDeep_editor copy (editor doc)"
  obtain bs' m n where r: "renameBlocks rand 0 Map.empty (blocks (graph ?d)) = (bs', m, n)"
    by (cases "renameBlocks rand 0 Map.empty (blocks (graph ?d))")
  then have m: "m = newIdMapOf copy rand doc" by (simp add: newIdMapOf_def)
  from assms r obtain ed0 where e0: "updateModelIdsInLayer m 0 ?e = Inr ed0"
    by (auto simp: loadPackage_def Let_def split: sum.splits)
  from assms r e0 obtain ed1 where e1: "updateModelIdsInLayer m 1 ed0 = Inr ed1"
    by (auto simp: loadPackage_def Let_def split: sum.splits)
  from assms r e0 e1 have "out = \<lparr>opt_model = ed1,
            opt_design = ?d
              \<lparr>graph := \<lparr>blocks = bs',
                         wires = map (updateWire m) (wires (graph ?d))\<rparr>\<rparr>,
            opt_info = package doc, opt_dependencies = dependencies doc\<rparr>"
    by (simp add: loadPackage_def Let_def)
  with r e0 e1 that show thesis unfolding m by blast
qed

lemma loadPackage_ok:
  assumes "2 \<le> length (layers (editor doc))"
    "distinct (map fst (models (layers (editor doc) ! 0)))"
    "distinct (map fst (models (layers (editor doc) ! 1)))"
  shows "\<exists>out. loadPackage copy rand doc = Inr out"
proof -
  let ?d = "cloneDeep_design copy (design doc)"
  let ?e = "cloneDeep_editor copy (editor doc)"
  obtain bs' m n where r: "renameBlocks rand 0 Map.empty (blocks (graph ?d)) = (bs', m, n)"
    by (cases "renameBlocks rand 0 Map.empty (blocks (graph ?d))")
  from assms(1) have l0': "0 < length (layers (editor doc))"
    and l1': "1 < length (layers (editor doc))" by linarith+
  from l0' have l0: "0 < length (layers ?e)" by simp
  have d0: "distinct (map fst (models (layers ?e ! 0)))"
    unfolding cloneDeep_editor_models [OF l0'] using assms(2) by (rule cloneDeep_models_distinct)
  have d1: "distinct (map fst (models (layers ?e ! 1)))"
    unfolding cloneDeep_editor_models [OF l1'] using assms(3) by (rule cloneDeep_models_distinct)
  from updateModelIdsInLayer_ok [OF l0 d0, of m] obtain ed0 where
    e0: "updateModelIdsInLayer m 0 ?e = Inr ed0" by blast
  from e0 obtain ms0 where
    ed0: "ed0 = ?e\<lparr>layers := (layers ?e)[0 := (layers ?e ! 0)\<lparr>models := ms0\<rparr>]\<rparr>"
    by (rule updateModelIdsInLayer_Inr)
  from assms(1) have l1: "1 < length (layers ed0)" by (simp add: ed0)
  have "distinct (map fst (models (layers ed0 ! 1)))" using d1 by (simp add: ed0)
  from updateModelIdsInLayer_ok [OF l1 this, of m] obtain ed1 where
    e1: "updateModelIdsInLayer m 1 ed0 = Inr ed1" by blast
  from r e0 e1 show ?thesis by (simp add: loadPackage_def Let_def)
qed

lemma loadPackage_too_few_layers:
  "length (layers (editor doc)) < 2 \<Longrightarrow> \<exists>e. loadPackage copy rand doc = Inl e"
  by (cases "renameBlocks rand 0 Map.empty (blocks (graph (cloneDeep_design copy (design doc))))")
     (auto simp: loadPackage_def updateModelIdsInLayer_def Let_def split: sum.splits)

text \<open>The layers of the output, read off the two layer updates.\<close>

lemma loadPackage_layers:
  assumes "loadPackage copy rand doc = Inr out"
  obtains ms0 ms1 where
    "2 \<le> length (layers (editor doc))"
    "renameModels (newIdMapOf copy rand doc)
        (map fst (cloneDeep_models copy (models (layers (editor doc) ! 0))))
        (cloneDeep_models copy (models (layers (editor doc) ! 0))) = Inr ms0"
    "renameModels (newIdMapOf copy rand doc)
        (map fst (cloneDeep_models copy (models (layers (editor doc) ! 1))))
        (cloneDeep_models copy (models (layers (editor doc) ! 1))) = Inr ms1"
    "map models (layers (opt_model out)) =
       (map (\<lambda>l. cloneDeep_models copy (models l)) (layers (editor doc)))[0 := ms0, 1 := ms1]"
proof -
  let ?m = "newIdMapOf copy rand doc"
  let ?e = "cloneDeep_editor copy (editor doc)"
  let ?ls = "layers ?e"
  from assms obtain bs' n ed0 ed1 where
    e0: "updateModelIdsInLayer ?m 0 ?e = Inr ed0" and
    e1: "updateModelIdsInLayer ?m 1 ed0 = Inr ed1" and
    out: "opt_model out = ed1"
    by (rule loadPackage_Inr) simp
  from e0 obtain ms0 where
    r0: "renameModels ?m (map fst (models (?ls ! 0))) (models (?ls ! 0)) = Inr ms0" and
    ed0: "ed0 = ?e\<lparr>layers := ?ls[0 := (?ls ! 0)\<lparr>models := ms0\<rparr>]\<rparr>"
    by (rule updateModelIdsInLayer_Inr)
  from e1 obtain ms1 where l1: "1 < length (layers ed0)" and
    r1: "renameModels ?m (map fst (models (layers ed0 ! 1))) (models (layers ed0 ! 1)) = Inr ms1" and
    ed1: "ed1 = ed0\<lparr>layers := (layers ed0)[1 := (layers ed0 ! 1)\<lparr>models := ms1\<rparr>]\<rparr>"
    by (rule updateModelIdsInLayer_Inr)
  from l1 have len: "2 \<le> length (layers (editor doc))" by (simp add: ed0)
  then have i0: "0 < length (layers (editor doc))" and i1: "1 < length (layers (editor doc))"
    by linarith+
  have same: "layers ed0 ! 1 = ?ls ! 1" by (simp add: ed0)
  show thesis
  proof (rule that [OF len])
    show "renameModels ?m (map fst (cloneDeep_models copy (models (layers (editor doc) ! 0))))
        (cloneDeep_models copy (models (layers (editor doc) ! 0))) = Inr ms0"
      using r0 unfolding cloneDeep_editor_models [OF i0] .
    show "renameModels ?m (map fst (cloneDeep_models copy (models (layers (editor doc) ! 1))))
        (cloneDeep_models copy (models (layers (editor doc) ! 1))) = Inr ms1"
      using r1 unfolding same cloneDeep_editor_models [OF i1] .
    have "map models (layers (opt_model out)) = (map models ?ls)[0 := ms0, 1 := ms1]"
      unfolding out ed1 same by (simp add: ed0 map_update)
    then show "map models (layers (opt_model out)) =
       (map (\<lambda>l. cloneDeep_models copy (models l)) (layers (editor doc)))[0 := ms0, 1 := ms1]"
      unfolding cloneDeep_editor_all_models .
  qed
qed

lemma loadPackage_blocks:
  assumes "loadPackage copy rand doc = Inr out"
  shows "blockIds (opt_design out) = newIds rand 0 (length (blocks (graph (design doc))))"
    and "length (blocks (graph (opt_design out))) = length (blocks (graph (design doc)))"
proof -
  from assms obtain bs' n where
    r: "renameBlocks rand 0 Map.empty (blocks (graph (cloneDeep_design copy (design doc))))
          = (bs', newIdMapOf copy rand doc, n)"
    and out: "blocks (graph (opt_design out)) = bs'"
    by (rule loadPackage_Inr) simp
  from renameBlocks_ids [OF r] show
    "blockIds (opt_design out) = newIds rand 0 (length (blocks (graph (design doc))))"
    by (simp add: out)
  from renameBlocks_length [OF r] show
    "length (blocks (graph (opt_design out))) = length (blocks (graph (design doc)))"
    by (simp add: out)
qed

lemma loadPackage_wires:
  assumes "loadPackage copy rand doc = Inr out"
  shows "wires (graph (opt_design out)) =
           map (\<lambda>w. (updateWire (newIdMapOf copy rand doc) w)\<lparr>wire_rest := copy (wire_rest w)\<rparr>)
             (wires (graph (design doc)))"
proof -
  from assms have "wires (graph (opt_design out)) =
      map (updateWire (newIdMapOf copy rand doc)) (wires (graph (cloneDeep_design copy (design doc))))"
    by (rule loadPackage_Inr) simp
  then show ?thesis by (simp add: cloneDeep_design_wires comp_def updateWire_rest)
qed

lemma blockIds_uuid:
  assumes "loadPackage copy rand doc = Inr out" "v \<in> set (blockIds (opt_design out))"
  shows "is_uuid_v4 v"
  using assms(2) unfolding loadPackage_blocks(1) [OF assms(1)] by (rule newIds_uuid)

lemma newIdMapOf_in:
  assumes "loadPackage copy rand doc = Inr out" "k \<in> set (blockIds (design doc))"
    "k \<noteq> ''__proto__''"
  shows "\<exists>v. newIdMapOf copy rand doc k = Some v \<and> v \<in> set (blockIds (opt_design out))"
proof -
  from assms(1) obtain bs' n where
    r: "renameBlocks rand 0 Map.empty (blocks (graph (cloneDeep_design copy (design doc))))
          = (bs', newIdMapOf copy rand doc, n)"
    and out: "blocks (graph (opt_design out)) = bs'"
    by (rule loadPackage_Inr) simp
  from renameBlocks_map_in [OF r] assms(2,3) show ?thesis by (simp add: out)
qed

lemma newIdMapOf_out:
  "k \<notin> set (blockIds (design doc)) \<Longrightarrow> newIdMapOf copy rand doc k = None"
proof -
  assume k: "k \<notin> set (blockIds (design doc))"
  let ?d = "cloneDeep_design copy (design doc)"
  obtain bs' m n where r: "renameBlocks rand 0 Map.empty (blocks (graph ?d)) = (bs', m, n)"
    by (cases "renameBlocks rand 0 Map.empty (blocks (graph ?d))")
  from renameBlocks_map_out [OF r] k have "m k = None" by simp
  with r show ?thesis by (simp add: newIdMapOf_def)
qed

lemma newIdMapOf_proto: "newIdMapOf copy rand doc ''__proto__'' = None"
proof -
  let ?d = "cloneDeep_design copy (design doc)"
  obtain bs' m n where r: "renameBlocks rand 0 Map.empty (blocks (graph ?d)) = (bs', m, n)"
    by (cases "renameBlocks rand 0 Map.empty (blocks (graph ?d))")
  from renameBlocks_proto [OF r] have "m ''__proto__'' = None" by simp
  with r show ?thesis by (simp add: newIdMapOf_def)
qed

lemma newIdMapOf_ran:
  assumes "loadPackage copy rand doc = Inr out" "newIdMapOf copy rand doc k = Some v"
  shows "v \<in> set (blockIds (opt_design out))" "v \<noteq> []" "is_uuid_v4 v"
proof -
  from assms(1) obtain bs' n where
    r: "renameBlocks rand 0 Map.empty (blocks (graph (cloneDeep_design copy (design doc))))
          = (bs', newIdMapOf copy rand doc, n)"
    and out: "blocks (graph (opt_design out)) = bs'"
    by (rule loadPackage_Inr) simp
  from renameBlocks_ran [OF r assms(2)] show v: "v \<in> set (blockIds (opt_design out))"
    by (simp add: out)
  with loadPackage_blocks(1) [OF assms(1)] show "v \<noteq> []" by (auto dest: newIds_nonempty)
  from v show "is_uuid_v4 v" by (rule blockIds_uuid [OF assms(1)])
qed

lemma newIdMapOf_ran_subset:
  assumes "loadPackage copy rand doc = Inr out"
  shows "ran (newIdMapOf copy rand doc) \<subseteq> set (blockIds (opt_design out))"
  using newIdMapOf_ran(1) [OF assms] by (auto simp: ran_def)

lemma newIdMapOf_ran_proto:
  assumes "loadPackage copy rand doc = Inr out"
  shows "''__proto__'' \<notin> ran (newIdMapOf copy rand doc)"
    and "ran (newIdMapOf copy rand doc) \<inter> inheritedKeys = {}"
  using newIdMapOf_ran(3) [OF assms] uuid_not_proto uuid_not_inherited
  by (auto simp: ran_def)

lemma newIdMapOf_inj:
  assumes "loadPackage copy rand doc = Inr out" "distinct (blockIds (opt_design out))"
  shows "inj_map (newIdMapOf copy rand doc)"
proof -
  from assms(1) obtain bs' n where
    r: "renameBlocks rand 0 Map.empty (blocks (graph (cloneDeep_design copy (design doc))))
          = (bs', newIdMapOf copy rand doc, n)"
    and out: "blocks (graph (opt_design out)) = bs'"
    by (rule loadPackage_Inr) simp
  show ?thesis
    by (rule renameBlocks_inj [OF r]) (use assms(2) in \<open>simp_all add: out inj_map_def\<close>)
qed

lemma targets_newIdMapOf:
  assumes "loadPackage copy rand doc = Inr out"
  shows "targets (newIdMapOf copy rand doc) ks \<subseteq> set (blockIds (opt_design out)) \<union> inheritedKeys"
  using targets_subset [of "newIdMapOf copy rand doc" ks] newIdMapOf_ran_subset [OF assms]
  by blast

lemma toString16_inj: "toString16 r = toString16 s \<longleftrightarrow> r = s"
proof
  assume eq: "toString16 r = toString16 s"
  have d: "distinct ''0123456789abcdef''" by simp
  have "unat r = unat s"
    using eq unat_nibble [of r] unat_nibble [of s] nth_eq_iff_index_eq [OF d, of "unat r" "unat s"]
    unfolding toString16_def by simp
  then show "r = s" by (simp add: word_unat_eq_iff)
qed simp

lemma variant_inj:
  "(r AND 3) OR 8 = (s AND 3) OR 8 \<longleftrightarrow> r AND 3 = s AND (3 :: 4 word)"
  using nibble_enum [of r] nibble_enum [of s] by auto

lemma generateNewId_eq_iff:
  "fst (generateNewId rand a) = fst (generateNewId rand b) \<longleftrightarrow> sameDraws rand a b"
  unfolding generateNewId_unfold sameDraws_def
  by (simp add: toString16_inj variant_inj upt_rec [of _ "numeral _"] upt_rec [of 0] numeral_eq_Suc)

lemma map_update_same:
  "i < length xs \<Longrightarrow> f a = f (xs ! i) \<Longrightarrow> map f (xs[i := a]) = map f xs"
  by (simp add: map_update list_update_same_conv)

text \<open>
  Claim C1, as the code has it. Whenever \<open>loadPackage\<close> returns a package, the package has
  as many blocks and as many wires as the input document. It has as many model entries in
  its editor layers as the input, provided that
  \<^item> the keys of every \<open>models\<close> object are distinct, as they are in a JavaScript object,
    and none of them is \<open>__proto__\<close>;
  \<^item> no key of the \<open>models\<close> objects of input layers 0 and 1 is the name of a member of
    \<open>Object.prototype\<close>;
  \<^item> the ids now carried by the blocks are pairwise distinct and none of them is already a
    key of the \<open>models\<close> object of input layer 0 or 1.

  Nothing in \<open>loadPackage\<close> checks the generated ids for collisions.
\<close>

theorem C1_counts:
  assumes "loadPackage copy rand doc = Inr out"
  shows "length (blocks (graph (opt_design out))) = length (blocks (graph (design doc))) \<and>
         length (wires (graph (opt_design out))) = length (wires (graph (design doc))) \<and>
         (distinctKeys (editor doc) \<and> protoFree (editor doc) \<and>
          (layerKeys (editor doc) 0 \<union> layerKeys (editor doc) 1) \<inter> set protoNames = {} \<and>
          distinct (blockIds (opt_design out)) \<and>
          set (blockIds (opt_design out)) \<inter> (layerKeys (editor doc) 0 \<union> layerKeys (editor doc) 1) = {}
            \<longrightarrow> modelCount (opt_model out) = modelCount (editor doc))"
proof (intro conjI impI)
  show "length (blocks (graph (opt_design out))) = length (blocks (graph (design doc)))"
    by (rule loadPackage_blocks(2) [OF assms])
  show "length (wires (graph (opt_design out))) = length (wires (graph (design doc)))"
    by (simp add: loadPackage_wires [OF assms])
next
  let ?m = "newIdMapOf copy rand doc"
  let ?ls = "layers (editor doc)"
  let ?cl = "\<lambda>l. cloneDeep_models copy (models l)"
  assume h: "distinctKeys (editor doc) \<and> protoFree (editor doc) \<and>
    (layerKeys (editor doc) 0 \<union> layerKeys (editor doc) 1) \<inter> set protoNames = {} \<and>
    distinct (blockIds (opt_design out)) \<and>
    set (blockIds (opt_design out)) \<inter> (layerKeys (editor doc) 0 \<union> layerKeys (editor doc) 1) = {}"
  from assms obtain ms0 ms1 where len: "2 \<le> length ?ls" and
    r0: "renameModels ?m (map fst (?cl (?ls ! 0))) (?cl (?ls ! 0)) = Inr ms0" and
    r1: "renameModels ?m (map fst (?cl (?ls ! 1))) (?cl (?ls ! 1)) = Inr ms1" and
    ls: "map models (layers (opt_model out)) = (map ?cl ?ls)[0 := ms0, 1 := ms1]"
    by (rule loadPackage_layers)
  from len have i0: "0 < length ?ls" and i1: "1 < length ?ls" by linarith+
  from h have dk: "\<And>i. i < length ?ls \<Longrightarrow> distinct (map fst (?cl (?ls ! i)))"
    by (simp add: distinctKeys_def list_all_length cloneDeep_models_distinct)
  from h have pf: "\<And>i. i < length ?ls \<Longrightarrow> length (?cl (?ls ! i)) = length (models (?ls ! i))"
    by (simp add: protoFree_def list_all_length cloneDeep_models_length)
  have inj: "inj_map ?m" using newIdMapOf_inj [OF assms] h by blast
  have np: "''__proto__'' \<notin> ran ?m" by (rule newIdMapOf_ran_proto(1) [OF assms])
  have keys: "fst ` set (?cl (?ls ! i)) \<subseteq> layerKeys (editor doc) 0 \<union> layerKeys (editor doc) 1"
    if "i < 2" for i
  proof -
    from that have "i = 0 \<or> i = 1" by auto
    then have "fst ` set (models (?ls ! i)) \<subseteq> layerKeys (editor doc) 0 \<union> layerKeys (editor doc) 1"
      by (auto simp: layerKeys_def)
    with cloneDeep_models_keys_subset [of copy "models (?ls ! i)"] show ?thesis by blast
  qed
  have plain: "set (map fst (?cl (?ls ! i))) \<inter> set protoNames = {}" if "i < 2" for i
    using keys [OF that] h by (simp only: set_map) blast
  have fresh: "targets ?m (map fst (?cl (?ls ! i))) \<inter> fst ` set (?cl (?ls ! i)) = {}"
    if "i < 2" for i
  proof -
    have "targets ?m (map fst (?cl (?ls ! i))) \<subseteq> ran ?m"
      using targets_plain [OF plain [OF that], of ?m] by (auto simp: ran_def)
    with newIdMapOf_ran_subset [OF assms] keys [OF that] h show ?thesis by blast
  qed
  have l0: "length ms0 = length (?cl (?ls ! 0))"
    by (rule renameModels_length [OF dk [OF i0] dk [OF i0] _ plain inj np fresh r0]) simp_all
  have l1: "length ms1 = length (?cl (?ls ! 1))"
    by (rule renameModels_length [OF dk [OF i1] dk [OF i1] _ plain inj np fresh r1]) simp_all
  have "map length ((map ?cl ?ls)[0 := ms0, 1 := ms1]) = map length ((map ?cl ?ls)[0 := ms0])"
    using i1 l1 by (intro map_update_same) simp_all
  also have "\<dots> = map length (map ?cl ?ls)"
    using i0 l0 by (intro map_update_same) simp_all
  also have "\<dots> = map length (map models ?ls)"
    using pf by (simp add: list_eq_iff_nth_eq)
  finally have "map length (map models (layers (opt_model out))) = map length (map models ?ls)"
    unfolding ls .
  then show "modelCount (opt_model out) = modelCount (editor doc)"
    by (simp add: modelCount_def comp_def)
qed

lemma distinct_map_upt:
  "distinct (map f [0..<n]) \<longleftrightarrow> (\<forall>i < n. \<forall>j < i. f j \<noteq> f i)"
proof
  assume d: "distinct (map f [0..<n])"
  show "\<forall>i < n. \<forall>j < i. f j \<noteq> f i"
  proof (intro allI impI)
    fix i j assume "i < n" "j < i"
    with d show "f j \<noteq> f i" by (auto simp: distinct_conv_nth)
  qed
next
  assume h: "\<forall>i < n. \<forall>j < i. f j \<noteq> f i"
  show "distinct (map f [0..<n])"
    unfolding distinct_conv_nth
  proof (intro allI impI)
    fix i j assume "i < length (map f [0..<n])" "j < length (map f [0..<n])" "i \<noteq> j"
    then have "i < n" "j < n" "i < j \<or> j < i" by auto
    with h have "f i \<noteq> f j" by metis
    with \<open>i < n\<close> \<open>j < n\<close> show "map f [0..<n] ! i \<noteq> map f [0..<n] ! j" by simp
  qed
qed

text \<open>
  Claim C2, as the code has it. The ids of the output blocks are the generated ids, in
  order: block \<open>i\<close> carries the id made from draws \<open>31 * i, ..., 31 * i + 30\<close> of the random
  source, whatever the input document holds. They are pairwise distinct exactly when no two
  of these windows of draws agree (on every \<open>x\<close> position, and on the two low bits at the
  \<open>y\<close> position).
\<close>

theorem C2_generated_ids:
  assumes "loadPackage copy rand doc = Inr out"
  shows "blockIds (opt_design out) =
           map (\<lambda>i. fst (generateNewId rand (31 * i))) [0..<length (blocks (graph (design doc)))] \<and>
         (distinct (blockIds (opt_design out)) \<longleftrightarrow>
            (\<forall>i < length (blocks (graph (design doc))). \<forall>j < i. \<not> sameDraws rand (31 * j) (31 * i)))"
proof -
  let ?n = "length (blocks (graph (design doc)))"
  have ids: "blockIds (opt_design out) = map (\<lambda>i. fst (generateNewId rand (31 * i))) [0..<?n]"
    using loadPackage_blocks(1) [OF assms] by (simp add: newIds_def)
  have "distinct (blockIds (opt_design out)) \<longleftrightarrow>
          (\<forall>i < ?n. \<forall>j < i. \<not> sameDraws rand (31 * j) (31 * i))"
    unfolding ids distinct_map_upt by (simp add: generateNewId_eq_iff)
  with ids show ?thesis by blast
qed

text \<open>
  A wire endpoint that names an input block other than by the id \<open>__proto__\<close> names an
  output block afterwards.
\<close>

lemma wire_endpoints_resolve:
  assumes "loadPackage copy rand doc = Inr out" "i < length (wires (graph (design doc)))"
  shows "(toPropertyKey (block (source (wires (graph (design doc)) ! i))) \<in> set (blockIds (design doc)) \<and>
          toPropertyKey (block (source (wires (graph (design doc)) ! i))) \<noteq> ''__proto__'' \<longrightarrow>
            block (source (wires (graph (opt_design out)) ! i)) \<in> Str ` set (blockIds (opt_design out))) \<and>
         (toPropertyKey (block (target (wires (graph (design doc)) ! i))) \<in> set (blockIds (design doc)) \<and>
          toPropertyKey (block (target (wires (graph (design doc)) ! i))) \<noteq> ''__proto__'' \<longrightarrow>
            block (target (wires (graph (opt_design out)) ! i)) \<in> Str ` set (blockIds (opt_design out)))"
proof -
  let ?m = "newIdMapOf copy rand doc"
  let ?w = "wires (graph (design doc)) ! i"
  have w: "wires (graph (opt_design out)) ! i = (updateWire ?m ?w)\<lparr>wire_rest := copy (wire_rest ?w)\<rparr>"
    using assms(2) by (simp add: loadPackage_wires [OF assms(1)])
  have look: "\<exists>v. lookupId ?m k = Some (Str v) \<and> v \<noteq> [] \<and> v \<in> set (blockIds (opt_design out))"
    if "k \<in> set (blockIds (design doc))" "k \<noteq> ''__proto__''" for k
  proof -
    from newIdMapOf_in [OF assms(1) that] obtain v where
      v: "?m k = Some v" "v \<in> set (blockIds (opt_design out))" by blast
    from newIdMapOf_ran(2) [OF assms(1) v(1)] have "v \<noteq> []" .
    with v lookupId_own [of ?m k v, OF v(1)] show ?thesis by blast
  qed
  have src: "block (source (updateWire ?m ?w)) \<in> Str ` set (blockIds (opt_design out))"
    if "toPropertyKey (block (source ?w)) \<in> set (blockIds (design doc))"
       "toPropertyKey (block (source ?w)) \<noteq> ''__proto__''"
    using look [OF that] by (auto simp: updateWire_def Let_def split: option.splits)
  have tgt: "block (target (updateWire ?m ?w)) \<in> Str ` set (blockIds (opt_design out))"
    if "toPropertyKey (block (target ?w)) \<in> set (blockIds (design doc))"
       "toPropertyKey (block (target ?w)) \<noteq> ''__proto__''"
    using look [OF that] by (auto simp: updateWire_def Let_def split: option.splits)
  from src tgt show ?thesis unfolding w by simp
qed

lemma proto_in_protoNames: "''__proto__'' \<in> set protoNames"
  by (simp add: protoNames_def)

lemma loadPackage_layer_models:
  assumes "map models (layers (opt_model out)) = xs[0 := ms0, 1 := ms1]" "2 \<le> length xs"
  shows "models (layers (opt_model out) ! 0) = ms0" "models (layers (opt_model out) ! 1) = ms1"
proof -
  from assms have len: "length (layers (opt_model out)) = length xs"
    using length_map [of models "layers (opt_model out)"] by simp
  with assms(2) have i0: "0 < length (layers (opt_model out))"
    and i1: "1 < length (layers (opt_model out))" by linarith+
  from assms(2) have j0: "0 < length xs" and j1: "1 < length xs" by linarith+
  have "models (layers (opt_model out) ! 0) = map models (layers (opt_model out)) ! 0"
    using i0 by (simp only: nth_map)
  also have "\<dots> = ms0" unfolding assms(1) using j0 by simp
  finally show "models (layers (opt_model out) ! 0) = ms0" .
  have "models (layers (opt_model out) ! 1) = map models (layers (opt_model out)) ! 1"
    using i1 by (simp only: nth_map)
  also have "\<dots> = ms1" unfolding assms(1) using j1 by simp
  finally show "models (layers (opt_model out) ! 1) = ms1" .
qed

text \<open>
  Claim C4, as the code has it. A wire endpoint whose block id is neither the id of an input
  block nor the name of a member of \<open>Object.prototype\<close> keeps that block id. A key of the
  \<open>models\<close> object of layer 0 or 1 that is neither the id of an input block nor the name of
  a member of \<open>Object.prototype\<close>, that no output block carries as its generated id, and
  that is not the text a member of \<open>Object.prototype\<close> turns into as a property key, is
  bound in the output to the copy of the model it is bound to in the input (and absent from
  the output when absent from the input).
\<close>

theorem C4_pass_through:
  assumes "loadPackage copy rand doc = Inr out"
  shows "(i < length (wires (graph (design doc))) \<longrightarrow>
            (toPropertyKey (block (source (wires (graph (design doc)) ! i)))
                 \<notin> set (blockIds (design doc)) \<union> set protoNames \<longrightarrow>
               block (source (wires (graph (opt_design out)) ! i)) =
               block (source (wires (graph (design doc)) ! i))) \<and>
            (toPropertyKey (block (target (wires (graph (design doc)) ! i)))
                 \<notin> set (blockIds (design doc)) \<union> set protoNames \<longrightarrow>
               block (target (wires (graph (opt_design out)) ! i)) =
               block (target (wires (graph (design doc)) ! i)))) \<and>
         (l < 2 \<and> k \<notin> set (blockIds (design doc)) \<union> set protoNames \<and>
          k \<notin> set (blockIds (opt_design out)) \<union> inheritedKeys \<longrightarrow>
            map_of (models (layers (opt_model out) ! l)) k =
            map_option (cloneModel_of copy) (map_of (models (layers (editor doc) ! l)) k))"
proof (intro conjI impI)
  let ?m = "newIdMapOf copy rand doc"
  let ?w = "wires (graph (design doc)) ! i"
  assume i: "i < length (wires (graph (design doc)))"
  then have w: "wires (graph (opt_design out)) ! i =
      (updateWire ?m ?w)\<lparr>wire_rest := copy (wire_rest ?w)\<rparr>"
    by (simp add: loadPackage_wires [OF assms])
  have look: "lookupId ?m k = None" if "k \<notin> set (blockIds (design doc)) \<union> set protoNames" for k
  proof -
    from that have a: "k \<notin> set (blockIds (design doc))" and b: "k \<notin> set protoNames" by blast+
    from newIdMapOf_out [OF a, of copy rand] b show ?thesis by (rule lookupId_None)
  qed
  show "block (source (wires (graph (opt_design out)) ! i)) = block (source ?w)"
    if "toPropertyKey (block (source ?w)) \<notin> set (blockIds (design doc)) \<union> set protoNames"
    unfolding w using look [OF that]
    by (simp add: updateWire_def Let_def split: option.splits)
  show "block (target (wires (graph (opt_design out)) ! i)) = block (target ?w)"
    if "toPropertyKey (block (target ?w)) \<notin> set (blockIds (design doc)) \<union> set protoNames"
    unfolding w using look [OF that]
    by (simp add: updateWire_def Let_def split: option.splits)
next
  let ?m = "newIdMapOf copy rand doc"
  let ?ls = "layers (editor doc)"
  let ?cl = "\<lambda>l. cloneDeep_models copy (models l)"
  assume h: "l < 2 \<and> k \<notin> set (blockIds (design doc)) \<union> set protoNames \<and>
          k \<notin> set (blockIds (opt_design out)) \<union> inheritedKeys"
  from assms obtain ms0 ms1 where len: "2 \<le> length ?ls" and
    r0: "renameModels ?m (map fst (?cl (?ls ! 0))) (?cl (?ls ! 0)) = Inr ms0" and
    r1: "renameModels ?m (map fst (?cl (?ls ! 1))) (?cl (?ls ! 1)) = Inr ms1" and
    ls: "map models (layers (opt_model out)) = (map ?cl ?ls)[0 := ms0, 1 := ms1]"
    by (rule loadPackage_layers)
  from len have len': "2 \<le> length (map ?cl ?ls)" by simp
  note out = loadPackage_layer_models [OF ls len']
  from h have a: "k \<notin> set (blockIds (design doc))" and b: "k \<notin> set protoNames" by blast+
  from b proto_in_protoNames have kp: "k \<noteq> ''__proto__''" by blast
  have "lookupId ?m k = None" using newIdMapOf_out [OF a, of copy rand] b by (rule lookupId_None)
  then have nt: "\<not> truthy (lookupId ?m k)" by simp
  from h targets_newIdMapOf [OF assms] have nk: "\<And>ks. k \<notin> targets ?m ks" by blast
  from h have "l = 0 \<or> l = 1" by auto
  then show "map_of (models (layers (opt_model out) ! l)) k =
               map_option (cloneModel_of copy) (map_of (models (?ls ! l)) k)"
  proof
    assume l: "l = 0"
    show ?thesis unfolding l out(1) using renameModels_keep [OF r0 nt nk]
      by (simp add: cloneDeep_models_map_of [OF kp])
  next
    assume l: "l = 1"
    show ?thesis unfolding l out(2) using renameModels_keep [OF r1 nt nk]
      by (simp add: cloneDeep_models_map_of [OF kp])
  qed
qed

text \<open>
  Claim C6. Let \<open>k\<close> be a key of the \<open>models\<close> object of input layer 0 or 1 that is the id of
  an input block. When \<open>k\<close> is not \<open>__proto__\<close>, \<open>newIdMap\<close> holds a new id \<open>n\<close> for \<open>k\<close>,
  \<open>n\<close> is the id of an output block, and a model stored under the key \<open>n\<close> in that layer of
  the output has \<open>n\<close> as its own \<open>id\<close>. The key \<open>__proto__\<close> is not renamed: \<open>newIdMap\<close> has
  no entry for it and the copy of the layer that \<open>loadPackage\<close> works on has no such key.
\<close>

theorem C6_renamed_model_id:
  assumes "loadPackage copy rand doc = Inr out" "l < 2"
    "k \<in> layerKeys (editor doc) l" "k \<in> set (blockIds (design doc))"
  shows "(k \<noteq> ''__proto__'' \<longrightarrow>
           (\<exists>n. newIdMapOf copy rand doc k = Some n \<and> n \<in> set (blockIds (opt_design out)) \<and>
              (\<forall>mdl. map_of (models (layers (opt_model out) ! l)) n = Some mdl
                  \<longrightarrow> model_id mdl = Str n))) \<and>
         newIdMapOf copy rand doc ''__proto__'' = None \<and>
         ''__proto__'' \<notin> layerKeys (cloneDeep_editor copy (editor doc)) l"
proof (intro conjI impI)
  let ?m = "newIdMapOf copy rand doc"
  let ?ls = "layers (editor doc)"
  let ?cl = "\<lambda>l. cloneDeep_models copy (models l)"
  assume kp: "k \<noteq> ''__proto__''"
  from newIdMapOf_in [OF assms(1,4) kp] obtain n where
    n: "?m k = Some n" "n \<in> set (blockIds (opt_design out))" by blast
  from newIdMapOf_ran(2) [OF assms(1) n(1)] have ne: "n \<noteq> []" .
  from assms(1) obtain ms0 ms1 where len: "2 \<le> length ?ls" and
    r0: "renameModels ?m (map fst (?cl (?ls ! 0))) (?cl (?ls ! 0)) = Inr ms0" and
    r1: "renameModels ?m (map fst (?cl (?ls ! 1))) (?cl (?ls ! 1)) = Inr ms1" and
    ls: "map models (layers (opt_model out)) = (map ?cl ?ls)[0 := ms0, 1 := ms1]"
    by (rule loadPackage_layers)
  from len have len': "2 \<le> length (map ?cl ?ls)" by simp
  note out = loadPackage_layer_models [OF ls len']
  have "k \<in> set (map fst (models (?ls ! l)))" using assms(3) by (simp add: layerKeys_def)
  with kp have "k \<in> set (map fst (?cl (?ls ! l)))" unfolding cloneDeep_models_keys by simp
  with n(1) ne have t: "n \<in> {v. \<exists>k \<in> set (map fst (?cl (?ls ! l))). ?m k = Some v \<and> v \<noteq> []}"
    by blast
  have e: "ids_agree ms {}" for ms :: "'a Models" by (simp add: ids_agree_def)
  have d: "({} \<union> ran ?m) \<inter> inheritedKeys = {}"
    using newIdMapOf_ran_proto(2) [OF assms(1)] by simp
  from assms(2) have "l = 0 \<or> l = 1" by auto
  then have "ids_agree (models (layers (opt_model out) ! l))
               ({} \<union> {v. \<exists>k \<in> set (map fst (?cl (?ls ! l))). ?m k = Some v \<and> v \<noteq> []})"
  proof
    assume l: "l = 0"
    show ?thesis unfolding l out(1) by (rule renameModels_ids [OF r0 e d])
  next
    assume l: "l = 1"
    show ?thesis unfolding l out(2) by (rule renameModels_ids [OF r1 e d])
  qed
  with t have "\<forall>mdl. map_of (models (layers (opt_model out) ! l)) n = Some mdl \<longrightarrow> model_id mdl = Str n"
    unfolding ids_agree_def by blast
  with n show "\<exists>n. ?m k = Some n \<and> n \<in> set (blockIds (opt_design out)) \<and>
      (\<forall>mdl. map_of (models (layers (opt_model out) ! l)) n = Some mdl \<longrightarrow> model_id mdl = Str n)"
    by blast
next
  show "newIdMapOf copy rand doc ''__proto__'' = None" by (rule newIdMapOf_proto)
next
  from assms(1) have "2 \<le> length (layers (editor doc))" by (rule loadPackage_layers)
  with assms(2) have "l < length (layers (editor doc))" by linarith
  then show "''__proto__'' \<notin> layerKeys (cloneDeep_editor copy (editor doc)) l"
    unfolding layerKeys_def by (simp add: cloneDeep_editor_models cloneDeep_models_proto)
qed

text \<open>
  Claim C7. Every id that \<open>generateNewId\<close> returns has the form
  \<open>xxxxxxxx-xxxx-4xxx-yxxx-xxxxxxxxxxxx\<close>: 32 lower-case hexadecimal digits in groups of
  8, 4, 4, 4 and 12, the first digit of the third group being \<open>4\<close> and the first digit of
  the fourth group one of \<open>8\<close>, \<open>9\<close>, \<open>a\<close>, \<open>b\<close>; and every block id of a package returned by
  \<open>loadPackage\<close> has this form.
\<close>

theorem C7_uuid_v4:
  "is_uuid_v4 (fst (generateNewId rand n)) \<and>
   (loadPackage copy rand doc = Inr out \<longrightarrow> list_all is_uuid_v4 (blockIds (opt_design out)))"
proof (intro conjI impI)
  show "is_uuid_v4 (fst (generateNewId rand n))" by (rule generateNewId_uuid)
  assume "loadPackage copy rand doc = Inr out"
  from loadPackage_blocks(1) [OF this] show "list_all is_uuid_v4 (blockIds (opt_design out))"
    by (simp add: newIds_def list_all_iff generateNewId_uuid)
qed

text \<open>
  Claim C8. For a fixed id mapping, updating layer 0 and then layer 1 gives the same result
  as updating layer 1 and then layer 0 (the same editor, or a TypeError in both orders).
  When the editor has its two layers, the result is the editor in which each of the two
  layers has been renamed on its own.
\<close>

theorem C8_layers_commute:
  "forEachLayer m [0, 1] ed = forEachLayer m [1, 0] ed \<and>
   (2 \<le> length (layers ed) \<and> distinctKeys ed \<longrightarrow>
      (\<exists>ms0 ms1.
         renameModels m (map fst (models (layers ed ! 0))) (models (layers ed ! 0)) = Inr ms0 \<and>
         renameModels m (map fst (models (layers ed ! 1))) (models (layers ed ! 1)) = Inr ms1 \<and>
         forEachLayer m [0, 1] ed =
           Inr (ed\<lparr>layers := (layers ed)[0 := (layers ed ! 0)\<lparr>models := ms0\<rparr>,
                                          1 := (layers ed ! 1)\<lparr>models := ms1\<rparr>]\<rparr>)))"
proof (intro conjI impI)
  let ?ls = "layers ed"
  let ?r0 = "renameModels m (map fst (models (?ls ! 0))) (models (?ls ! 0))"
  let ?r1 = "renameModels m (map fst (models (?ls ! 1))) (models (?ls ! 1))"
  have err: "x = Inl TypeError" if "x = Inl e" "x = updateModelIdsInLayer m i ed'"
    for x e i and ed' :: "'a Editor"
    using that updateModelIdsInLayer_Inl [of m i ed' e] by simp
  show "forEachLayer m [0, 1] ed = forEachLayer m [1, 0] ed"
  proof (cases "2 \<le> length ?ls")
    case False
    then have "length ?ls = 0 \<or> length ?ls = 1" by linarith
    then show ?thesis
      by (auto simp: updateModelIdsInLayer_def Let_def split: sum.splits
               dest: renameModels_Inl)
  next
    case True
    then have i0: "0 < length ?ls" and i1: "1 < length ?ls" by linarith+
    have swap: "xs[0 := a, Suc 0 := b] = xs[Suc 0 := b, 0 := a]" for a b and xs :: "'a Layer list"
      by (rule list_update_swap) simp
    show ?thesis
      using i0 i1
      by (cases ?r0; cases ?r1)
         (auto simp: updateModelIdsInLayer_def Let_def swap split: sum.splits
               dest: renameModels_Inl)
  qed
next
  let ?ls = "layers ed"
  assume h: "2 \<le> length ?ls \<and> distinctKeys ed"
  then have i0: "0 < length ?ls" and i1: "1 < length ?ls" by linarith+
  from h have dk: "\<And>i. i < length ?ls \<Longrightarrow> distinct (map fst (models (?ls ! i)))"
    by (simp add: distinctKeys_def list_all_length)
  from renameModels_ok [OF dk [OF i0] dk [OF i0], of m] obtain ms0 where
    r0: "renameModels m (map fst (models (?ls ! 0))) (models (?ls ! 0)) = Inr ms0" by auto
  from renameModels_ok [OF dk [OF i1] dk [OF i1], of m] obtain ms1 where
    r1: "renameModels m (map fst (models (?ls ! 1))) (models (?ls ! 1)) = Inr ms1" by auto
  have "forEachLayer m [0, 1] ed =
          Inr (ed\<lparr>layers := ?ls[0 := (?ls ! 0)\<lparr>models := ms0\<rparr>, 1 := (?ls ! 1)\<lparr>models := ms1\<rparr>]\<rparr>)"
    using i0 i1 r0 r1 by (simp add: updateModelIdsInLayer_def Let_def)
  with r0 r1 show "\<exists>ms0 ms1.
         renameModels m (map fst (models (?ls ! 0))) (models (?ls ! 0)) = Inr ms0 \<and>
         renameModels m (map fst (models (?ls ! 1))) (models (?ls ! 1)) = Inr ms1 \<and>
         forEachLayer m [0, 1] ed =
           Inr (ed\<lparr>layers := ?ls[0 := (?ls ! 0)\<lparr>models := ms0\<rparr>, 1 := (?ls ! 1)\<lparr>models := ms1\<rparr>]\<rparr>)"
    by blast
qed

section \<open>The claims about loadPackage at the sample inputs\<close>

lemmas eval_defs = loadPackage_def cloneDeep_design_def cloneDeep_editor_def
  cloneDeep_models_def generateNewId_def updateModelIdsInLayer_def updateWire_def
  lookupId_def assignId_def assignProp_def protoNames_def toString16_def

lemma sample_loadPackage: "loadPackage (\<lambda>x. x) sample_rand sample_doc = Inr sample_out"
  by (simp add: eval_defs sample_rand_def sample_doc_def sample_out_def)

lemma twin_loadPackage: "loadPackage (\<lambda>x. x) zero_rand twin_doc = Inr twin_out"
  by (simp add: eval_defs zero_rand_def twin_doc_def twin_out_def)

lemma clash_loadPackage: "loadPackage (\<lambda>x. x) zero_rand clash_doc = Inr clash_out"
  by (simp add: eval_defs zero_rand_def clash_doc_def clash_out_def)

lemma proto_loadPackage: "loadPackage (\<lambda>x. x) zero_rand proto_doc = Inr proto_out"
  by (simp add: eval_defs zero_rand_def proto_doc_def proto_out_def)

lemma inherit_loadPackage: "loadPackage (\<lambda>x. x) zero_rand inherit_doc = Inr inherit_out"
  by (simp add: eval_defs zero_rand_def inherit_doc_def inherit_out_def)

theorem C1_counts_counterexample:
  "loadPackage (\<lambda>x. x) zero_rand twin_doc = Inr twin_out \<and>
   modelCount (editor twin_doc) = 2 \<and> modelCount (opt_model twin_out) = 1"
  using twin_loadPackage by (simp add: modelCount_def twin_doc_def twin_out_def)

theorem C1_counts_witness:
  "loadPackage (\<lambda>x. x) sample_rand sample_doc = Inr sample_out \<and>
   distinctKeys (editor sample_doc) \<and> protoFree (editor sample_doc) \<and>
   (layerKeys (editor sample_doc) 0 \<union> layerKeys (editor sample_doc) 1) \<inter> set protoNames = {} \<and>
   distinct (blockIds (opt_design sample_out)) \<and>
   set (blockIds (opt_design sample_out)) \<inter>
     (layerKeys (editor sample_doc) 0 \<union> layerKeys (editor sample_doc) 1) = {} \<and>
   length (blocks (graph (opt_design sample_out))) = length (blocks (graph (design sample_doc))) \<and>
   length (wires (graph (opt_design sample_out))) = length (wires (graph (design sample_doc))) \<and>
   modelCount (opt_model sample_out) = modelCount (editor sample_doc)"
proof -
  have h: "distinctKeys (editor sample_doc) \<and> protoFree (editor sample_doc) \<and>
    (layerKeys (editor sample_doc) 0 \<union> layerKeys (editor sample_doc) 1) \<inter> set protoNames = {} \<and>
    distinct (blockIds (opt_design sample_out)) \<and>
    set (blockIds (opt_design sample_out)) \<inter>
      (layerKeys (editor sample_doc) 0 \<union> layerKeys (editor sample_doc) 1) = {}"
    by (simp add: sample_doc_def sample_out_def distinctKeys_def protoFree_def layerKeys_def
          protoNames_def)
  from C1_counts [OF sample_loadPackage] h sample_loadPackage show ?thesis by blast
qed

theorem C2_unique_ids_counterexample:
  "loadPackage (\<lambda>x. x) zero_rand twin_doc = Inr twin_out \<and> \<not> distinct (blockIds (opt_design twin_out))"
  using twin_loadPackage by (simp add: twin_out_def)

theorem C2_generated_ids_witness:
  "loadPackage (\<lambda>x. x) sample_rand sample_doc = Inr sample_out \<and>
   blockIds (opt_design sample_out) =
     [fst (generateNewId sample_rand 0), fst (generateNewId sample_rand 31)] \<and>
   distinct (blockIds (opt_design sample_out)) \<and>
   \<not> sameDraws sample_rand 0 31"
proof -
  have d: "distinct (blockIds (opt_design sample_out))" by (simp add: sample_out_def)
  have n: "length (blocks (graph (design sample_doc))) = 2" by (simp add: sample_doc_def)
  have u: "[0..<2] = [0, Suc 0]" by (simp add: upt_rec numeral_2_eq_2)
  from C2_generated_ids [OF sample_loadPackage] d sample_loadPackage
  show ?thesis unfolding n u by (simp add: numeral_2_eq_2 less_Suc_eq)
qed

text \<open>
  Claim C3, at a document whose block has the id \<open>__proto__\<close> and whose wire leaves and
  enters that block. The assignment \<open>newIdMap[block.id] = newId\<close> stores nothing under that
  key of a plain object, and the lookup \<open>newIdMap[wire.source.block]\<close> finds
  \<open>Object.prototype\<close>, which is written into the wire: the endpoint named an input block, and
  in the package it is not the id of a block.
\<close>

theorem C3_proto_block_id:
  "loadPackage (\<lambda>x. x) zero_rand proto_doc = Inr proto_out \<and>
   block (source (wires (graph (design proto_doc)) ! 0)) = Str ''__proto__'' \<and>
   ''__proto__'' \<in> set (blockIds (design proto_doc)) \<and>
   blockIds (opt_design proto_out) = [''00000000-0000-4000-8000-000000000000''] \<and>
   block (source (wires (graph (opt_design proto_out)) ! 0)) = Inherited ''__proto__'' \<and>
   block (source (wires (graph (opt_design proto_out)) ! 0))
     \<notin> Str ` set (blockIds (opt_design proto_out))"
  using proto_loadPackage by (simp add: proto_doc_def proto_out_def)

theorem C4_pass_through_counterexample:
  "loadPackage (\<lambda>x. x) zero_rand clash_doc = Inr clash_out \<and>
   ''00000000-0000-4000-8000-000000000000'' \<in> layerKeys (editor clash_doc) 0 \<and>
   ''00000000-0000-4000-8000-000000000000'' \<notin> set (blockIds (design clash_doc)) \<and>
   map_of (models (layers (editor clash_doc) ! 0)) ''00000000-0000-4000-8000-000000000000'' =
     Some \<lparr>model_id = Str ''00000000-0000-4000-8000-000000000000'', model_rest = ''note''\<rparr> \<and>
   map_of (models (layers (opt_model clash_out) ! 0)) ''00000000-0000-4000-8000-000000000000'' =
     Some \<lparr>model_id = Str ''00000000-0000-4000-8000-000000000000'', model_rest = ''node a''\<rparr>"
  using clash_loadPackage by (simp add: clash_doc_def clash_out_def layerKeys_def)

theorem C4_pass_through_witness:
  "loadPackage (\<lambda>x. x) sample_rand sample_doc = Inr sample_out \<and>
   1 < length (wires (graph (design sample_doc))) \<and>
   toPropertyKey (block (target (wires (graph (design sample_doc)) ! 1)))
     \<notin> set (blockIds (design sample_doc)) \<union> set protoNames \<and>
   block (target (wires (graph (opt_design sample_out)) ! 1)) = Str ''orphan'' \<and>
   (0::nat) < 2 \<and> ''z'' \<notin> set (blockIds (design sample_doc)) \<union> set protoNames \<and>
   ''z'' \<notin> set (blockIds (opt_design sample_out)) \<union> inheritedKeys \<and>
   map_of (models (layers (opt_model sample_out) ! 0)) ''z'' =
     Some \<lparr>model_id = Str ''z'', model_rest = ''node z''\<rparr>"
proof -
  have h1: "1 < length (wires (graph (design sample_doc)))" by (simp add: sample_doc_def)
  have h2: "toPropertyKey (block (target (wires (graph (design sample_doc)) ! 1)))
     \<notin> set (blockIds (design sample_doc)) \<union> set protoNames"
    by (simp add: sample_doc_def protoNames_def)
  have h3: "(0::nat) < 2 \<and> ''z'' \<notin> set (blockIds (design sample_doc)) \<union> set protoNames \<and>
    ''z'' \<notin> set (blockIds (opt_design sample_out)) \<union> inheritedKeys"
    by (simp add: sample_doc_def sample_out_def protoNames_def inheritedKeys_def)
  have e1: "block (target (wires (graph (design sample_doc)) ! 1)) = Str ''orphan''"
    by (simp add: sample_doc_def)
  have e2: "map_option (cloneModel_of (\<lambda>x. x)) (map_of (models (layers (editor sample_doc) ! 0)) ''z'') =
      Some \<lparr>model_id = Str ''z'', model_rest = ''node z''\<rparr>"
    by (simp add: sample_doc_def cloneModel_of_def)
  note all = C4_pass_through [OF sample_loadPackage, of 1 0 "''z''"]
  from all [THEN conjunct1, THEN mp, OF h1, THEN conjunct2, THEN mp, OF h2] e1
  have c1: "block (target (wires (graph (opt_design sample_out)) ! 1)) = Str ''orphan''" by simp
  from all [THEN conjunct2, THEN mp, OF h3] e2
  have c2: "map_of (models (layers (opt_model sample_out) ! 0)) ''z'' =
      Some \<lparr>model_id = Str ''z'', model_rest = ''node z''\<rparr>" by simp
  from h3 have h3a: "(0::nat) < 2" and h3b: "''z'' \<notin> set (blockIds (design sample_doc)) \<union> set protoNames"
    and h3c: "''z'' \<notin> set (blockIds (opt_design sample_out)) \<union> inheritedKeys" by blast+
  show ?thesis by (intro conjI sample_loadPackage h1 h2 c1 h3a h3b h3c c2)
qed

theorem C6_renamed_model_id_witness:
  "loadPackage (\<lambda>x. x) sample_rand sample_doc = Inr sample_out \<and> (0::nat) < 2 \<and>
   ''a'' \<in> layerKeys (editor sample_doc) 0 \<and> ''a'' \<in> set (blockIds (design sample_doc)) \<and>
   ''a'' \<noteq> ''__proto__'' \<and>
   newIdMapOf (\<lambda>x. x) sample_rand sample_doc ''a'' = Some ''01234567-89ab-4cde-b012-3456789abcde'' \<and>
   map_of (models (layers (opt_model sample_out) ! 0)) ''01234567-89ab-4cde-b012-3456789abcde'' =
     Some \<lparr>model_id = Str ''01234567-89ab-4cde-b012-3456789abcde'', model_rest = ''node a''\<rparr> \<and>
   model_id (the (map_of (models (layers (opt_model sample_out) ! 0))
                    ''01234567-89ab-4cde-b012-3456789abcde'')) =
     Str ''01234567-89ab-4cde-b012-3456789abcde''"
proof -
  have h1: "(0::nat) < 2" by simp
  have h2: "''a'' \<in> layerKeys (editor sample_doc) 0" by (simp add: sample_doc_def layerKeys_def)
  have h3: "''a'' \<in> set (blockIds (design sample_doc))" by (simp add: sample_doc_def)
  have h4: "''a'' \<noteq> ''__proto__''" by simp
  have m: "newIdMapOf (\<lambda>x. x) sample_rand sample_doc ''a'' = Some ''01234567-89ab-4cde-b012-3456789abcde''"
    by (simp add: newIdMapOf_def cloneDeep_design_def sample_doc_def sample_rand_def
          generateNewId_def toString16_def assignId_def)
  have l: "map_of (models (layers (opt_model sample_out) ! 0)) ''01234567-89ab-4cde-b012-3456789abcde'' =
     Some \<lparr>model_id = Str ''01234567-89ab-4cde-b012-3456789abcde'', model_rest = ''node a''\<rparr>"
    by (simp add: sample_out_def)
  from C6_renamed_model_id [OF sample_loadPackage h1 h2 h3, THEN conjunct1, THEN mp, OF h4]
  obtain n where n: "newIdMapOf (\<lambda>x. x) sample_rand sample_doc ''a'' = Some n"
    and a: "\<forall>mdl. map_of (models (layers (opt_model sample_out) ! 0)) n = Some mdl
              \<longrightarrow> model_id mdl = Str n" by blast
  from n m have "n = ''01234567-89ab-4cde-b012-3456789abcde''" by simp
  with a l have c: "model_id (the (map_of (models (layers (opt_model sample_out) ! 0))
                    ''01234567-89ab-4cde-b012-3456789abcde'')) =
     Str ''01234567-89ab-4cde-b012-3456789abcde''" by simp
  show ?thesis by (intro conjI sample_loadPackage h1 h2 h3 h4 m l c)
qed

theorem C7_uuid_v4_witness:
  "loadPackage (\<lambda>x. x) sample_rand sample_doc = Inr sample_out \<and>
   is_uuid_v4 ''01234567-89ab-4cde-b012-3456789abcde'' \<and>
   is_uuid_v4 ''f0123456-789a-4bcd-af01-23456789abcd''"
  using C7_uuid_v4 [of sample_rand 0 "\<lambda>x. x" sample_doc sample_out] sample_loadPackage
  by (simp add: sample_out_def)

theorem C8_layers_commute_witness:
  "2 \<le> length (layers (editor sample_doc)) \<and> distinctKeys (editor sample_doc) \<and>
   forEachLayer sample_map [0, 1] (editor sample_doc) =
     forEachLayer sample_map [1, 0] (editor sample_doc) \<and>
   map (\<lambda>l. map fst (models l)) (layers (editor sample_doc)) = [[''a'', ''z'', ''b''], [''a'']] \<and>
   (\<exists>ed. forEachLayer sample_map [1, 0] (editor sample_doc) = Inr ed \<and>
      map (\<lambda>l. map fst (models l)) (layers ed) = [[''z'', ''u1'', ''u2''], [''u1'']])"
proof -
  have h: "2 \<le> length (layers (editor sample_doc)) \<and> distinctKeys (editor sample_doc)"
    by (simp add: sample_doc_def distinctKeys_def)
  have k: "map (\<lambda>l. map fst (models l)) (layers (editor sample_doc)) = [[''a'', ''z'', ''b''], [''a'']]"
    by (simp add: sample_doc_def)
  have e: "\<exists>ed. forEachLayer sample_map [0, 1] (editor sample_doc) = Inr ed \<and>
      map (\<lambda>l. map fst (models l)) (layers ed) = [[''z'', ''u1'', ''u2''], [''u1'']]"
    by (simp add: sample_doc_def sample_map_def updateModelIdsInLayer_def lookupId_def
          assignProp_def protoNames_def)
  from C8_layers_commute [of sample_map "editor sample_doc"] h k e show ?thesis by metis
qed

section \<open>Properties of createBlock and editBlock\<close>

lemma digit_value: "d < 10 \<Longrightarrow> of_char (''0123456789'' ! d) - 48 = (d :: nat)"
proof -
  assume "d < 10"
  then have "d \<in> {0,1,2,3,4,5,6,7,8,9}" by simp arith
  then show ?thesis by auto
qed

lemma digit_isDigit: "d < 10 \<Longrightarrow> isDigit (''0123456789'' ! d)"
  unfolding isDigit_def by (rule nth_mem) simp

lemma digit_less: "d < 10 \<Longrightarrow> d' < 10 \<Longrightarrow> d < d' \<Longrightarrow> ''0123456789'' ! d < ''0123456789'' ! d'"
proof -
  assume a: "d < 10" "d' < 10" "d < d'"
  have v: "of_char (''0123456789'' ! x) = 48 + x" if "x < 10" for x :: nat
  proof -
    from that have "x \<in> {0,1,2,3,4,5,6,7,8,9}" by simp arith
    then show ?thesis by auto
  qed
  from a v [of d] v [of d'] show ?thesis by (simp only: less_char_def)
qed

lemma decimalValue_snoc: "decimalValue (s @ [ch]) = 10 * decimalValue s + (of_char ch - 48)"
  by (simp add: decimalValue_def)

lemma decimalValue_toString10: "decimalValue (toString10 n) = n"
proof (induction n rule: toString10.induct)
  case (1 n)
  show ?case
  proof (cases "n < 10")
    case True
    then show ?thesis by (subst toString10.simps) (simp add: decimalValue_def digit_value)
  next
    case False
    with 1 have "decimalValue (toString10 (n div 10)) = n div 10" by simp
    with False show ?thesis
      by (subst toString10.simps) (simp add: decimalValue_snoc digit_value)
  qed
qed

lemma isDigit_toString10: "list_all isDigit (toString10 n)"
proof (induction n rule: toString10.induct)
  case (1 n)
  show ?case
  proof (cases "n < 10")
    case True
    then show ?thesis by (subst toString10.simps) (simp add: digit_isDigit)
  next
    case False
    with 1 have "list_all isDigit (toString10 (n div 10))" by simp
    with False show ?thesis
      by (subst toString10.simps) (simp add: digit_isDigit)
  qed
qed

lemma length_fixedDigits: "length (fixedDigits k n) = k"
  by (induction k arbitrary: n) simp_all

lemma fixedDigits_zero: "fixedDigits k 0 = replicate k CHR ''0''"
  by (induction k) (simp_all add: replicate_append_same)

lemma fixedDigits_small: "n < 10 \<Longrightarrow> fixedDigits (Suc k) n = replicate k CHR ''0'' @ [''0123456789'' ! n]"
  by (simp add: fixedDigits_zero)

lemma length_toString10: "n < 10 ^ Suc k \<Longrightarrow> length (toString10 n) \<le> Suc k"
proof (induction n arbitrary: k rule: toString10.induct)
  case (1 n)
  show ?case
  proof (cases "n < 10")
    case True
    then show ?thesis by (subst toString10.simps) simp
  next
    case False
    with "1.prems" obtain k' where k: "k = Suc k'" by (cases k) auto
    from "1.prems" have "n div 10 < 10 ^ Suc k'" unfolding k by (simp add: less_mult_imp_div_less)
    with 1 False have "length (toString10 (n div 10)) \<le> Suc k'" by simp
    with False show ?thesis unfolding k by (subst toString10.simps) simp
  qed
qed

lemma padStart_fixedDigits:
  "n < 10 ^ Suc k \<Longrightarrow> padStart (Suc k) CHR ''0'' (toString10 n) = fixedDigits (Suc k) n"
proof (induction n arbitrary: k rule: toString10.induct)
  case (1 n)
  show ?case
  proof (cases "n < 10")
    case True
    then show ?thesis by (subst toString10.simps) (simp add: padStart_def fixedDigits_zero)
  next
    case False
    with "1.prems" obtain k' where k: "k = Suc k'" by (cases k) auto
    from "1.prems" have lt: "n div 10 < 10 ^ Suc k'" unfolding k by (simp add: less_mult_imp_div_less)
    with 1 False have ih: "padStart (Suc k') CHR ''0'' (toString10 (n div 10)) = fixedDigits (Suc k') (n div 10)"
      by simp
    have ts: "toString10 n = toString10 (n div 10) @ [''0123456789'' ! (n mod 10)]"
      using False by (subst toString10.simps) simp
    from length_toString10 [OF lt] have "length (toString10 (n div 10)) \<le> Suc k'" .
    then have "padStart (Suc k) CHR ''0'' (toString10 n) =
        padStart (Suc k') CHR ''0'' (toString10 (n div 10)) @ [''0123456789'' ! (n mod 10)]"
      unfolding ts k padStart_def by simp
    then show ?thesis unfolding ih k by simp
  qed
qed

lemma less_snoc_same: "xs @ [a] < xs @ [b]" if "a < b" for xs :: string
  using that by (induction xs) simp_all

lemma less_append_equal_length:
  "xs < ys \<Longrightarrow> length xs = length ys \<Longrightarrow> xs @ us < ys @ vs" for xs ys :: string
  unfolding list_less_def by (rule lexord_sufI) simp_all

lemma fixedDigits_mono: "n < 10 ^ k \<Longrightarrow> m < n \<Longrightarrow> fixedDigits k m < fixedDigits k n"
proof (induction k arbitrary: m n)
  case 0
  then show ?case by simp
next
  case (Suc k)
  from Suc.prems have nk: "n div 10 < 10 ^ k" by (simp add: less_mult_imp_div_less)
  from Suc.prems have le: "m div 10 \<le> n div 10" by (simp add: div_le_mono)
  show ?case
  proof (cases "m div 10 < n div 10")
    case True
    from Suc.IH [OF nk True] have "fixedDigits k (m div 10) < fixedDigits k (n div 10)" .
    then show ?thesis
      by (simp add: less_append_equal_length length_fixedDigits)
  next
    case False
    with le have eq: "m div 10 = n div 10" by simp
    with Suc.prems(2) have "m mod 10 < n mod 10"
      by (metis div_mult_mod_eq nat_add_left_cancel_less)
    then have "''0123456789'' ! (m mod 10) < ''0123456789'' ! (n mod 10)"
      by (intro digit_less) simp_all
    then show ?thesis by (simp add: eq less_snoc_same)
  qed
qed

lemma padStart_length: "targetLength \<le> length (padStart targetLength c s)"
  by (simp add: padStart_def)

text \<open>
  Claim C9. The promises returned by \<open>createBlock\<close> and \<open>editBlock\<close> never reject. When the
  dialog (or the collection lookup) that \<open>createBlock\<close> awaits for the given block name
  rejects with an error, \<open>createBlock\<close> logs that error and resolves with no block
  (\<open>undefined\<close>); when the dialog that \<open>editBlock\<close> awaits for the given node rejects,
  \<open>editBlock\<close> logs the error and leaves the node as it was.
\<close>

theorem C9_errors_caught:
  "(\<exists>r. snd (createBlock c name blockCount) = Inr r) \<and>
   (\<exists>r. snd (editBlock c node) = Inr r) \<and>
   (createConstantDialog c openProps = Inl e \<longrightarrow>
      createBlock c ''basic.constant'' blockCount = ([e], Inr None)) \<and>
   (createCodeDialog c openProps = Inl e \<longrightarrow>
      createBlock c ''basic.code'' blockCount = ([e], Inr None)) \<and>
   (createIODialog c openProps = Inl e \<longrightarrow>
      createBlock c ''basic.input'' blockCount = ([e], Inr None) \<and>
      createBlock c ''basic.output'' blockCount = ([e], Inr None)) \<and>
   (name \<notin> {''basic.constant'', ''basic.code'', ''basic.input'', ''basic.output''} \<and>
    getCollectionBlock c name = Inl e \<longrightarrow>
      createBlock c name blockCount = ([e], Inr None)) \<and>
   (createConstantDialog c (openProps\<lparr>dlg_name := getName c d, dlg_local := getLocal c d\<rparr>) = Inl e \<longrightarrow>
      editBlock c (ConstantBlockModel d) = ([e], Inr (ConstantBlockModel d))) \<and>
   (createCodeDialog c (openProps\<lparr>dlg_inputs := getInputNames c d,
        dlg_outputs := getOutputNames c d, dlg_params := getParameterNames c d\<rparr>) = Inl e \<longrightarrow>
      editBlock c (CodeBlockModel d) = ([e], Inr (CodeBlockModel d))) \<and>
   (createIODialog c (openProps\<lparr>dlg_name := getName c d\<rparr>) = Inl e \<longrightarrow>
      editBlock c (InputBlockModel d) = ([e], Inr (InputBlockModel d)) \<and>
      editBlock c (OutputBlockModel d) = ([e], Inr (OutputBlockModel d)))"
proof (intro conjI impI)
  show "\<exists>r. snd (createBlock c name blockCount) = Inr r"
    by (simp add: createBlock_def split: sum.splits)
  show "\<exists>r. snd (editBlock c node) = Inr r"
    by (simp add: editBlock_def split: sum.splits)
qed (simp_all add: createBlock_def createBlock_try_def editBlock_def editBlock_try_def)

theorem C9_errors_caught_witness:
  "createConstantDialog cancelling openProps = Inl (Rejected ''cancelled'') \<and>
   createBlock cancelling ''basic.constant'' 3 = ([Rejected ''cancelled''], Inr None) \<and>
   ''collection.adder'' \<notin> {''basic.constant'', ''basic.code'', ''basic.input'', ''basic.output''} \<and>
   getCollectionBlock cancelling ''collection.adder'' = Inl (Rejected ''not found'') \<and>
   createBlock cancelling ''collection.adder'' 3 = ([Rejected ''not found''], Inr None) \<and>
   createIODialog cancelling
     (openProps\<lparr>dlg_name := getName cancelling \<lparr>data_id = None, data_fields = ''in1''\<rparr>\<rparr>) =
       Inl (Rejected ''cancelled'') \<and>
   editBlock cancelling (InputBlockModel \<lparr>data_id = None, data_fields = ''in1''\<rparr>) =
     ([Rejected ''cancelled''], Inr (InputBlockModel \<lparr>data_id = None, data_fields = ''in1''\<rparr>))"
proof -
  have h1: "createConstantDialog cancelling openProps = Inl (Rejected ''cancelled'')"
    by (simp add: cancelling_def)
  have h2a: "''collection.adder'' \<notin> {''basic.constant'', ''basic.code'', ''basic.input'', ''basic.output''}"
    by simp
  have h2b: "getCollectionBlock cancelling ''collection.adder'' = Inl (Rejected ''not found'')"
    by (simp add: cancelling_def)
  have h3: "createIODialog cancelling
     (openProps\<lparr>dlg_name := getName cancelling \<lparr>data_id = None, data_fields = ''in1''\<rparr>\<rparr>) =
       Inl (Rejected ''cancelled'')"
    by (simp add: cancelling_def)
  note all1 = C9_errors_caught [where c = cancelling and blockCount = 3
      and e = "Rejected ''cancelled''" and d = "\<lparr>data_id = None, data_fields = ''in1''\<rparr>"]
  note all2 = C9_errors_caught [where c = cancelling and blockCount = 3
      and e = "Rejected ''not found''" and name = "''collection.adder''"]
  have c1: "createBlock cancelling ''basic.constant'' 3 = ([Rejected ''cancelled''], Inr None)"
    by (rule all1 [THEN conjunct2, THEN conjunct2, THEN conjunct1, THEN mp, OF h1])
  have c2: "createBlock cancelling ''collection.adder'' 3 = ([Rejected ''not found''], Inr None)"
    by (rule all2 [THEN conjunct2, THEN conjunct2, THEN conjunct2, THEN conjunct2, THEN conjunct2,
          THEN conjunct1, THEN mp, OF conjI [OF h2a h2b]])
  have c3: "editBlock cancelling (InputBlockModel \<lparr>data_id = None, data_fields = ''in1''\<rparr>) =
     ([Rejected ''cancelled''], Inr (InputBlockModel \<lparr>data_id = None, data_fields = ''in1''\<rparr>))"
    by (rule all1 [THEN conjunct2, THEN conjunct2, THEN conjunct2, THEN conjunct2, THEN conjunct2,
          THEN conjunct2, THEN conjunct2, THEN conjunct2, THEN mp, OF h3, THEN conjunct1])
  show ?thesis by (intro conjI h1 c1 h2a h2b c2 h3 c3)
qed

text \<open>
  Claim C10. When the constant dialog resolves with \<open>data\<close>, \<open>createBlock\<close> called with
  \<open>'basic.constant'\<close> logs nothing and resolves with a \<open>ConstantBlockModel\<close> built from
  \<open>data\<close> with its \<open>id\<close> set to the block count in decimal, padded on the left with zeros
  to at least 4 characters, then \<open>-\<close>, then the string \<open>Toolkit.UID()\<close> returned. For two
  counts \<open>m < n < 10000\<close> the id made for \<open>m\<close> is lexicographically smaller than the id made
  for \<open>n\<close>, whatever the two UIDs are.
\<close>

theorem C10_constant_block_id:
  "(createConstantDialog c openProps = Inr data \<longrightarrow>
      createBlock c ''basic.constant'' blockCount =
        ([], Inr (Some (ConstantBlockModel
           (data\<lparr>data_id := Some (padStart 4 CHR ''0'' (toString10 blockCount) @ ''-'' @ UID c)\<rparr>))))) \<and>
   decimalValue (toString10 blockCount) = blockCount \<and>
   list_all isDigit (toString10 blockCount) \<and>
   padStart 4 CHR ''0'' (toString10 blockCount) =
     replicate (4 - length (toString10 blockCount)) CHR ''0'' @ toString10 blockCount \<and>
   4 \<le> length (padStart 4 CHR ''0'' (toString10 blockCount)) \<and>
   (m < n \<and> n < 10000 \<longrightarrow>
      padStart 4 CHR ''0'' (toString10 m) @ ''-'' @ u1 <
      padStart 4 CHR ''0'' (toString10 n) @ ''-'' @ u2)"
proof (intro conjI impI)
  assume "createConstantDialog c openProps = Inr data"
  then show "createBlock c ''basic.constant'' blockCount =
        ([], Inr (Some (ConstantBlockModel
           (data\<lparr>data_id := Some (padStart 4 CHR ''0'' (toString10 blockCount) @ ''-'' @ UID c)\<rparr>))))"
    by (simp add: createBlock_def createBlock_try_def)
next
  show "decimalValue (toString10 blockCount) = blockCount" by (rule decimalValue_toString10)
  show "list_all isDigit (toString10 blockCount)" by (rule isDigit_toString10)
  show "padStart 4 CHR ''0'' (toString10 blockCount) =
     replicate (4 - length (toString10 blockCount)) CHR ''0'' @ toString10 blockCount"
    by (simp add: padStart_def)
  show "4 \<le> length (padStart 4 CHR ''0'' (toString10 blockCount))" by (rule padStart_length)
next
  assume h: "m < n \<and> n < 10000"
  then have n: "n < 10 ^ Suc 3" and m: "m < 10 ^ Suc 3" by simp_all
  have four: "(4::nat) = Suc 3" by simp
  from h n have "fixedDigits (Suc 3) m < fixedDigits (Suc 3) n" by (intro fixedDigits_mono) simp_all
  then have "padStart 4 CHR ''0'' (toString10 m) < padStart 4 CHR ''0'' (toString10 n)"
    unfolding four padStart_fixedDigits [OF m] padStart_fixedDigits [OF n] .
  moreover have "length (padStart 4 CHR ''0'' (toString10 m)) = length (padStart 4 CHR ''0'' (toString10 n))"
    unfolding four padStart_fixedDigits [OF m] padStart_fixedDigits [OF n]
    by (simp only: length_fixedDigits)
  ultimately show "padStart 4 CHR ''0'' (toString10 m) @ ''-'' @ u1 <
      padStart 4 CHR ''0'' (toString10 n) @ ''-'' @ u2"
    by (rule less_append_equal_length)
qed

lemma toString10_digit: "n < 10 \<Longrightarrow> toString10 n = [''0123456789'' ! n]"
  by (subst toString10.simps) simp

lemma toString10_step:
  "\<not> n < 10 \<Longrightarrow> toString10 n = toString10 (n div 10) @ [''0123456789'' ! (n mod 10)]"
  by (subst toString10.simps) simp

lemma pad_7: "padStart 4 CHR ''0'' (toString10 7) = ''0007''"
  by (simp add: toString10_digit padStart_def numeral_eq_Suc)

lemma pad_9: "padStart 4 CHR ''0'' (toString10 9) = ''0009''"
  by (simp add: toString10_digit padStart_def numeral_eq_Suc)

lemma pad_10: "padStart 4 CHR ''0'' (toString10 10) = ''0010''"
proof -
  have "toString10 10 = ''10''" by (simp add: toString10_step toString10_digit)
  then show ?thesis by (simp add: padStart_def numeral_eq_Suc)
qed

theorem C10_constant_block_id_witness:
  "createConstantDialog accepting openProps = Inr \<lparr>data_id = None, data_fields = ''value 5''\<rparr> \<and>
   createBlock accepting ''basic.constant'' 7 =
     ([], Inr (Some (ConstantBlockModel \<lparr>data_id = Some ''0007-uid-1'', data_fields = ''value 5''\<rparr>))) \<and>
   (9::nat) < 10 \<and> (10::nat) < 10000 \<and> ''0009-zz'' < ''0010-aa''"
proof -
  have h: "createConstantDialog accepting openProps = Inr \<lparr>data_id = None, data_fields = ''value 5''\<rparr>"
    by (simp add: accepting_def)
  have u: "UID accepting = ''uid-1''" by (simp add: accepting_def)
  have o1: "(9::nat) < 10" and o2: "(10::nat) < 10000" by simp_all
  note all = C10_constant_block_id [where c = accepting and blockCount = 7 and m = 9 and n = 10
      and ?u1.0 = "''zz''" and ?u2.0 = "''aa''"]
  have "createBlock accepting ''basic.constant'' 7 =
     ([], Inr (Some (ConstantBlockModel
        (\<lparr>data_id = None, data_fields = ''value 5''\<rparr>
           \<lparr>data_id := Some (padStart 4 CHR ''0'' (toString10 7) @ ''-'' @ UID accepting)\<rparr>))))"
    by (rule all [THEN conjunct1, THEN mp, OF h])
  then have c: "createBlock accepting ''basic.constant'' 7 =
     ([], Inr (Some (ConstantBlockModel \<lparr>data_id = Some ''0007-uid-1'', data_fields = ''value 5''\<rparr>)))"
    by (simp add: u pad_7)
  have "padStart 4 CHR ''0'' (toString10 9) @ ''-'' @ ''zz'' <
        padStart 4 CHR ''0'' (toString10 10) @ ''-'' @ ''aa''"
    by (rule all [THEN conjunct2, THEN conjunct2, THEN conjunct2, THEN conjunct2, THEN conjunct2,
          THEN mp, OF conjI [OF o1 o2]])
  then have l: "''0009-zz'' < ''0010-aa''" by (simp only: pad_9 pad_10 append.simps)
  show ?thesis by (intro conjI h c o1 o2 l)
qed

section \<open>loadPackage writes into its copies only\<close>

lemma extends_refl: "extends h0 h0"
  by (simp add: extends_def fresh_closed_def)

lemma extends_length: "extends h0 h \<Longrightarrow> length h0 \<le> length h"
proof -
  assume "extends h0 h"
  then have "length (take (length h0) h) = length h0" by (simp add: extends_def)
  then show ?thesis by simp
qed

lemma framesI:
  assumes "\<And>h res h'. extends h0 h \<Longrightarrow> p h = (res, h') \<Longrightarrow> extends h0 h'"
    and "\<And>h x h'. extends h0 h \<Longrightarrow> p h = (Inr x, h') \<Longrightarrow> Q x"
  shows "frames h0 p Q"
  using assms unfolding frames_def by blast

lemma framesD:
  assumes "frames h0 p Q" "extends h0 h" "p h = (res, h')"
  shows "extends h0 h'" and "\<And>x. res = Inr x \<Longrightarrow> Q x"
  using assms unfolding frames_def by blast+

lemma frames_weaken: "frames h0 p Q \<Longrightarrow> (\<And>x. Q x \<Longrightarrow> R x) \<Longrightarrow> frames h0 p R"
  unfolding frames_def by blast

lemma frames_ret: "Q x \<Longrightarrow> frames h0 (ret x) Q"
  by (simp add: frames_def ret_def)

lemma frames_throw: "frames h0 (throw e) Q"
  by (simp add: frames_def throw_def)

lemma frames_andThen:
  assumes p: "frames h0 p Q" and f: "\<And>x. Q x \<Longrightarrow> frames h0 (f x) R"
  shows "frames h0 (andThen p f) R"
proof (rule framesI)
  fix h res h'
  assume e: "extends h0 h" and r: "andThen p f h = (res, h')"
  obtain r1 h1 where p1: "p h = (r1, h1)" by (cases "p h")
  from framesD [OF p e p1] have e1: "extends h0 h1" and q: "\<And>x. r1 = Inr x \<Longrightarrow> Q x" by blast+
  show "extends h0 h'"
  proof (cases r1)
    case (Inl err)
    with r p1 e1 show ?thesis by (simp add: andThen_def)
  next
    case (Inr x)
    with r p1 have "f x h1 = (res, h')" by (simp add: andThen_def)
    from framesD(1) [OF f [OF q [OF Inr]] e1 this] show ?thesis .
  qed
next
  fix h x h'
  assume e: "extends h0 h" and r: "andThen p f h = (Inr x, h')"
  obtain r1 h1 where p1: "p h = (r1, h1)" by (cases "p h")
  from framesD [OF p e p1] have e1: "extends h0 h1" and q: "\<And>x. r1 = Inr x \<Longrightarrow> Q x" by blast+
  show "R x"
  proof (cases r1)
    case (Inl err)
    with r p1 show ?thesis by (simp add: andThen_def)
  next
    case (Inr y)
    with r p1 have "f y h1 = (Inr x, h')" by (simp add: andThen_def)
    from framesD(2) [OF f [OF q [OF Inr]] e1 this] show ?thesis by simp
  qed
qed

text \<open>Reading any cell: a cell of the new part of the store holds new addresses only.\<close>

lemma frames_getCell:
  "frames h0 (getCell r) (\<lambda>c. fresh h0 r \<longrightarrow> (\<forall>r' \<in> set (refs_of c). fresh h0 r'))"
  by (auto simp: frames_def getCell_def extends_def fresh_closed_def split: if_splits)

lemma frames_getCell_any: "frames h0 (getCell r) (\<lambda>c. True)"
  by (rule frames_weaken [OF frames_getCell]) simp

lemma extends_update:
  assumes "extends h0 h" "fresh h0 r" "\<forall>r' \<in> set (refs_of c). fresh h0 r'"
  shows "extends h0 (h[r := c])"
proof -
  from assms(1) have t: "take (length h0) h = h0" and fc: "fresh_closed (length h0) h"
    by (simp_all add: extends_def)
  have "take (length h0) (h[r := c]) = h0" using t assms(2) by simp
  moreover have "fresh_closed (length h0) (h[r := c])"
    unfolding fresh_closed_def
  proof (intro allI impI)
    fix a assume a: "length h0 \<le> a \<and> a < length (h[r := c])"
    show "\<forall>r' \<in> set (refs_of (h[r := c] ! a)). length h0 \<le> r'"
    proof (cases "a = r")
      case True
      with a assms(3) show ?thesis by simp
    next
      case False
      with a fc show ?thesis by (simp add: fresh_closed_def)
    qed
  qed
  ultimately show ?thesis by (simp add: extends_def)
qed

lemma extends_append:
  assumes "extends h0 h" "\<forall>r' \<in> set (refs_of c). fresh h0 r'"
  shows "extends h0 (h @ [c])"
proof -
  from assms(1) have t: "take (length h0) h = h0" and fc: "fresh_closed (length h0) h"
    by (simp_all add: extends_def)
  from extends_length [OF assms(1)] have le: "length h0 \<le> length h" .
  have "take (length h0) (h @ [c]) = h0" using t le by simp
  moreover have "fresh_closed (length h0) (h @ [c])"
    unfolding fresh_closed_def
  proof (intro allI impI)
    fix a assume a: "length h0 \<le> a \<and> a < length (h @ [c])"
    show "\<forall>r' \<in> set (refs_of ((h @ [c]) ! a)). length h0 \<le> r'"
    proof (cases "a < length h")
      case True
      with a fc show ?thesis by (simp add: fresh_closed_def nth_append)
    next
      case False
      with a have "a = length h" by simp
      with assms(2) show ?thesis by simp
    qed
  qed
  ultimately show ?thesis by (simp add: extends_def)
qed

lemma frames_setCell:
  assumes "fresh h0 r" "\<forall>r' \<in> set (refs_of c). fresh h0 r'"
  shows "frames h0 (setCell r c) (\<lambda>_. True)"
proof (rule framesI)
  fix h res h'
  assume "extends h0 h" "setCell r c h = (res, h')"
  with extends_update [OF _ assms] show "extends h0 h'"
    by (auto simp: setCell_def split: if_splits)
qed simp

lemma frames_alloc:
  assumes "\<forall>r' \<in> set (refs_of c). fresh h0 r'"
  shows "frames h0 (alloc c) (fresh h0)"
proof (rule framesI)
  fix h res h'
  assume "extends h0 h" "alloc c h = (res, h')"
  with extends_append [OF _ assms] show "extends h0 h'" by (auto simp: alloc_def)
next
  fix h x h'
  assume "extends h0 h" "alloc c h = (Inr x, h')"
  with extends_length [of h0 h] show "fresh h0 x" by (auto simp: alloc_def)
qed

lemma frames_andThen2:
  assumes "frames h0 p Q" and "\<And>a b. Q (a, b) \<Longrightarrow> frames h0 (f a b) R"
  shows "frames h0 (andThen p (\<lambda>(a, b). f a b)) R"
  by (rule frames_andThen [OF assms(1)]) (auto intro: assms(2))

lemma frames_andThen3:
  assumes "frames h0 p Q" and "\<And>a b c. Q (a, b, c) \<Longrightarrow> frames h0 (f a b c) R"
  shows "frames h0 (andThen p (\<lambda>(a, b, c). f a b c)) R"
  by (rule frames_andThen [OF assms(1)]) (auto intro: assms(2))

lemma frames_getBlock: "frames h0 (getBlock r) (\<lambda>b. True)"
  unfolding getBlock_def
  by (rule frames_andThen [OF frames_getCell]) (auto split: cell.splits intro: frames_ret frames_throw)

lemma frames_getEndpoint: "frames h0 (getEndpoint r) (\<lambda>e. True)"
  unfolding getEndpoint_def
  by (rule frames_andThen [OF frames_getCell]) (auto split: cell.splits intro: frames_ret frames_throw)

lemma frames_getModel: "frames h0 (getModel r) (\<lambda>m. True)"
  unfolding getModel_def
  by (rule frames_andThen [OF frames_getCell]) (auto split: cell.splits intro: frames_ret frames_throw)

lemma frames_getWire:
  "frames h0 (getWire r) (\<lambda>(s, t, x). fresh h0 r \<longrightarrow> fresh h0 s \<and> fresh h0 t)"
  unfolding getWire_def
  by (rule frames_andThen [OF frames_getCell]) (auto split: cell.splits intro: frames_ret frames_throw)

lemma frames_getModels:
  "frames h0 (getModels r) (\<lambda>es. fresh h0 r \<longrightarrow> (\<forall>b \<in> snd ` set es. fresh h0 b))"
  unfolding getModels_def
  by (rule frames_andThen [OF frames_getCell]) (auto split: cell.splits intro: frames_ret frames_throw)

lemma frames_getLayer: "frames h0 (getLayer r) (\<lambda>(m, x). fresh h0 r \<longrightarrow> fresh h0 m)"
  unfolding getLayer_def
  by (rule frames_andThen [OF frames_getCell]) (auto split: cell.splits intro: frames_ret frames_throw)

lemma frames_getArray:
  "frames h0 (getArray r) (\<lambda>rs. fresh h0 r \<longrightarrow> (\<forall>r' \<in> set rs. fresh h0 r'))"
  unfolding getArray_def
  by (rule frames_andThen [OF frames_getCell]) (auto split: cell.splits intro: frames_ret frames_throw)

lemma frames_getGraph:
  "frames h0 (getGraph r) (\<lambda>(bs, ws). fresh h0 r \<longrightarrow> fresh h0 bs \<and> fresh h0 ws)"
  unfolding getGraph_def
  by (rule frames_andThen [OF frames_getCell]) (auto split: cell.splits intro: frames_ret frames_throw)

lemma frames_getDesign: "frames h0 (getDesign r) (\<lambda>(g, x). fresh h0 r \<longrightarrow> fresh h0 g)"
  unfolding getDesign_def
  by (rule frames_andThen [OF frames_getCell]) (auto split: cell.splits intro: frames_ret frames_throw)

lemma frames_getEditor: "frames h0 (getEditor r) (\<lambda>(ls, x). fresh h0 r \<longrightarrow> fresh h0 ls)"
  unfolding getEditor_def
  by (rule frames_andThen [OF frames_getCell]) (auto split: cell.splits intro: frames_ret frames_throw)

text \<open>\<open>cloneDeep\<close> only adds objects, and its copy holds new addresses only.\<close>

lemma frames_cloneBlock: "frames h0 (cloneBlock copy r) (fresh h0)"
  unfolding cloneBlock_def
  by (rule frames_andThen [OF frames_getBlock]) (simp add: frames_alloc)

lemma frames_cloneEndpoint: "frames h0 (cloneEndpoint r) (fresh h0)"
  unfolding cloneEndpoint_def
  by (rule frames_andThen [OF frames_getEndpoint]) (simp add: frames_alloc)

lemma frames_cloneModel: "frames h0 (cloneModel copy r) (fresh h0)"
  unfolding cloneModel_def
  by (rule frames_andThen [OF frames_getModel]) (simp add: frames_alloc)

lemma frames_cloneWire: "frames h0 (cloneWire copy r) (fresh h0)"
  unfolding cloneWire_def
  by (intro frames_andThen3 [OF frames_getWire] frames_andThen [OF frames_cloneEndpoint]
        frames_alloc) simp

lemma frames_mapS:
  assumes "\<And>r. frames h0 (f r) (fresh h0)"
  shows "frames h0 (mapS f rs) (\<lambda>rs'. \<forall>r' \<in> set rs'. fresh h0 r')"
proof (induction rs)
  case Nil
  show ?case by (simp add: frames_ret)
next
  case (Cons r rs)
  show ?case
    unfolding mapS.simps
    by (intro frames_andThen [OF assms] frames_andThen [OF Cons.IH] frames_ret) simp
qed

lemma frames_cloneEntries:
  "frames h0 (cloneEntries copy es) (\<lambda>es'. \<forall>b \<in> snd ` set es'. fresh h0 b)"
proof (induction es)
  case Nil
  show ?case by (simp add: frames_ret)
next
  case (Cons e es)
  obtain k r where e: "e = (k, r)" by (cases e)
  show ?case
    unfolding e cloneEntries.simps
    by (intro frames_andThen [OF frames_cloneModel] frames_andThen [OF Cons.IH] frames_ret) simp
qed

lemma frames_cloneModels: "frames h0 (cloneModels copy r) (fresh h0)"
  unfolding cloneModels_def
  by (intro frames_andThen [OF frames_getModels] frames_andThen [OF frames_cloneEntries]
        frames_alloc) auto

lemma frames_cloneLayer: "frames h0 (cloneLayer copy r) (fresh h0)"
  unfolding cloneLayer_def
  by (intro frames_andThen2 [OF frames_getLayer] frames_andThen [OF frames_cloneModels]
        frames_alloc) simp

lemma frames_cloneArray:
  assumes "\<And>r. frames h0 (f r) (fresh h0)"
  shows "frames h0 (cloneArray f r) (fresh h0)"
  unfolding cloneArray_def
  by (intro frames_andThen [OF frames_getArray] frames_andThen [OF frames_mapS [of h0 f, OF assms]]
        frames_alloc) simp

lemma frames_cloneEditor: "frames h0 (cloneEditor copy r) (fresh h0)"
  unfolding cloneEditor_def
  by (intro frames_andThen2 [OF frames_getEditor]
        frames_andThen [OF frames_cloneArray [of h0 "cloneLayer copy", OF frames_cloneLayer]]
        frames_alloc) simp

lemma frames_cloneGraph: "frames h0 (cloneGraph copy r) (fresh h0)"
  unfolding cloneGraph_def
  by (intro frames_andThen2 [OF frames_getGraph]
        frames_andThen [OF frames_cloneArray [of h0 "cloneBlock copy", OF frames_cloneBlock]]
        frames_andThen [OF frames_cloneArray [of h0 "cloneWire copy", OF frames_cloneWire]]
        frames_alloc) simp

lemma frames_cloneDesign: "frames h0 (cloneDesign copy r) (fresh h0)"
  unfolding cloneDesign_def
  by (intro frames_andThen2 [OF frames_getDesign] frames_andThen [OF frames_cloneGraph]
        frames_alloc) simp

text \<open>The loops write only into objects of the copies.\<close>

lemma frames_renameBlocksS:
  "\<forall>r \<in> set rs. fresh h0 r \<Longrightarrow> frames h0 (renameBlocksS rand n m rs) (\<lambda>_. True)"
proof (induction rs arbitrary: n m)
  case Nil
  show ?case by (simp add: frames_ret)
next
  case (Cons r rs)
  from Cons.prems have r: "fresh h0 r" and rs: "\<forall>r \<in> set rs. fresh h0 r" by simp_all
  show ?case
    unfolding renameBlocksS.simps
  proof (rule frames_andThen [OF frames_getBlock])
    fix b :: "'a Block"
    obtain newId n' where g: "generateNewId rand n = (newId, n')" by (cases "generateNewId rand n")
    show "frames h0
            (let (newId, n') = generateNewId rand n;
                 newIdMap' = assignId m (block_id b) newId
             in andThen (setCell r (BlockCell (b\<lparr>block_id := newId\<rparr>)))
                  (\<lambda>_. renameBlocksS rand n' newIdMap' rs))
            (\<lambda>_. True)"
      unfolding g Let_def prod.case
      by (intro frames_andThen [OF frames_setCell [OF r]] Cons.IH [OF rs]) simp
  qed
qed

lemma snd_update_subset: "snd ` set (AList.update k v es) \<subseteq> insert v (snd ` set es)"
  by (induction es) auto

lemma snd_assignProp_subset: "snd ` set (assignProp k v es) \<subseteq> insert v (snd ` set es)"
  using snd_update_subset [of k v es] by (auto simp: assignProp_def)

lemma snd_delete_subset: "snd ` set (AList.delete k es) \<subseteq> snd ` set es"
  by (auto simp: AList.delete_eq)

lemma frames_renameModelsS:
  "fresh h0 modelsRef \<Longrightarrow> frames h0 (renameModelsS m modelsRef ks) (\<lambda>_. True)"
proof (induction ks)
  case Nil
  show ?case by (simp add: frames_ret)
next
  case (Cons oldId ks)
  note mr = Cons.prems
  note ih = Cons.IH [OF mr]
  show ?case
    unfolding renameModelsS.simps
  proof (rule frames_andThen [OF frames_getModels])
    fix es :: "(string \<times> ref) list"
    assume "fresh h0 modelsRef \<longrightarrow> (\<forall>b \<in> snd ` set es. fresh h0 b)"
    with mr have es: "\<forall>b \<in> snd ` set es. fresh h0 b" by simp
    show "frames h0
            (if truthy (lookupId m oldId) then
               (case (map_of es oldId, lookupId m oldId) of
                  (Some b, Some newId) \<Rightarrow>
                    andThen (getModel b) (\<lambda>mdl.
                    andThen (setCell b (ModelCell (mdl\<lparr>model_id := newId\<rparr>))) (\<lambda>_.
                    andThen (getModels modelsRef) (\<lambda>es1.
                    andThen (setCell modelsRef (ModelsCell (assignProp (toPropertyKey newId) b es1))) (\<lambda>_.
                    andThen (getModels modelsRef) (\<lambda>es2.
                    andThen (setCell modelsRef (ModelsCell (AList.delete oldId es2))) (\<lambda>_.
                    renameModelsS m modelsRef ks))))))
                | _ \<Rightarrow> throw TypeError)
             else renameModelsS m modelsRef ks)
            (\<lambda>_. True)"
    proof (cases "truthy (lookupId m oldId) \<and> map_of es oldId \<noteq> None")
      case False
      then show ?thesis by (auto simp: ih frames_throw split: option.splits)
    next
      case True
      then obtain b newId where b: "map_of es oldId = Some b" and n: "lookupId m oldId = Some newId"
        by (cases "lookupId m oldId") auto
      from b es have fb: "fresh h0 b" by (auto dest!: map_of_SomeD simp: image_iff)
      have upd: "frames h0 (setCell modelsRef (ModelsCell (assignProp (toPropertyKey newId) b es1))) (\<lambda>_. True)"
        if "\<forall>b \<in> snd ` set es1. fresh h0 b" for es1
      proof (intro frames_setCell [OF mr] ballI)
        fix r' assume "r' \<in> set (refs_of (ModelsCell (assignProp (toPropertyKey newId) b es1)))"
        then have "r' \<in> snd ` set (assignProp (toPropertyKey newId) b es1)" by simp
        with snd_assignProp_subset [of "toPropertyKey newId" b es1]
        have "r' = b \<or> r' \<in> snd ` set es1" by blast
        with that fb show "fresh h0 r'" by blast
      qed
      have del: "frames h0 (setCell modelsRef (ModelsCell (AList.delete oldId es2))) (\<lambda>_. True)"
        if "\<forall>b \<in> snd ` set es2. fresh h0 b" for es2
      proof (intro frames_setCell [OF mr] ballI)
        fix r' assume "r' \<in> set (refs_of (ModelsCell (AList.delete oldId es2)))"
        then have "r' \<in> snd ` set (AList.delete oldId es2)" by simp
        with snd_delete_subset [of oldId es2] have "r' \<in> snd ` set es2" by blast
        with that show "fresh h0 r'" by blast
      qed
      have "frames h0
              (andThen (getModel b) (\<lambda>mdl.
               andThen (setCell b (ModelCell (mdl\<lparr>model_id := newId\<rparr>))) (\<lambda>_.
               andThen (getModels modelsRef) (\<lambda>es1.
               andThen (setCell modelsRef (ModelsCell (assignProp (toPropertyKey newId) b es1))) (\<lambda>_.
               andThen (getModels modelsRef) (\<lambda>es2.
               andThen (setCell modelsRef (ModelsCell (AList.delete oldId es2))) (\<lambda>_.
               renameModelsS m modelsRef ks)))))))
              (\<lambda>_. True)"
        by (intro frames_andThen [OF frames_getModel] frames_andThen [OF frames_setCell [OF fb]]
              frames_andThen [OF frames_getModels] frames_andThen [OF upd]
              frames_andThen [OF del] ih)
           (use mr in simp_all)
      with True b n show ?thesis by simp
    qed
  qed
qed

lemma frames_updateModelIdsInLayerS:
  "fresh h0 ed \<Longrightarrow> frames h0 (updateModelIdsInLayerS m ed i) (\<lambda>_. True)"
  unfolding updateModelIdsInLayerS_def
proof (intro frames_andThen2 [OF frames_getEditor] frames_andThen [OF frames_getArray])
  fix ls x and layerRefs :: "ref list"
  assume ed: "fresh h0 ed" and "case (ls, x) of (ls, x) \<Rightarrow> fresh h0 ed \<longrightarrow> fresh h0 ls"
    and "fresh h0 ls \<longrightarrow> (\<forall>r' \<in> set layerRefs. fresh h0 r')"
  then have lr: "\<forall>r' \<in> set layerRefs. fresh h0 r'" by simp
  show "frames h0
          (if i < length layerRefs then
             andThen (getLayer (layerRefs ! i)) (\<lambda>(modelsRef, y).
             andThen (getModels modelsRef) (\<lambda>es. renameModelsS m modelsRef (map fst es)))
           else throw TypeError)
          (\<lambda>_. True)"
  proof (cases "i < length layerRefs")
    case False
    then show ?thesis by (simp add: frames_throw)
  next
    case True
    with lr have "fresh h0 (layerRefs ! i)" by simp
    then have "frames h0
          (andThen (getLayer (layerRefs ! i)) (\<lambda>(modelsRef, y).
             andThen (getModels modelsRef) (\<lambda>es. renameModelsS m modelsRef (map fst es))))
          (\<lambda>_. True)"
      by (intro frames_andThen2 [OF frames_getLayer] frames_andThen [OF frames_getModels]
            frames_renameModelsS) simp
    with True show ?thesis by simp
  qed
qed

lemma frames_forEachS:
  "(\<And>x. x \<in> set xs \<Longrightarrow> frames h0 (f x) (\<lambda>_. True)) \<Longrightarrow> frames h0 (forEachS f xs) (\<lambda>_. True)"
proof (induction xs)
  case Nil
  show ?case by (simp add: frames_ret)
next
  case (Cons x xs)
  show ?case
    unfolding forEachS.simps
    by (intro frames_andThen [OF Cons.prems] Cons.IH Cons.prems) simp_all
qed

lemma frames_updateWireS:
  "fresh h0 wire \<Longrightarrow> frames h0 (updateWireS m wire) (\<lambda>_. True)"
  unfolding updateWireS_def
proof (intro frames_andThen3 [OF frames_getWire] frames_andThen [OF frames_getEndpoint])
  fix s t x and src tgt :: Endpoint
  assume "fresh h0 wire" and "case (s, t, x) of (s, t, x) \<Rightarrow> fresh h0 wire \<longrightarrow> fresh h0 s \<and> fresh h0 t"
  then have s: "fresh h0 s" and t: "fresh h0 t" by simp_all
  have w: "frames h0 (andThen (getEndpoint r) (\<lambda>e. setCell r (EndpointCell (e\<lparr>block := i\<rparr>)))) (\<lambda>_. True)"
    if "fresh h0 r" for r i
    by (intro frames_andThen [OF frames_getEndpoint] frames_setCell that) simp
  show "frames h0
          (let newSourceId = lookupId m (toPropertyKey (block src));
               newTargetId = lookupId m (toPropertyKey (block tgt))
           in andThen
                (case newSourceId of
                   Some i \<Rightarrow> if truthy newSourceId
                             then andThen (getEndpoint s) (\<lambda>e. setCell s (EndpointCell (e\<lparr>block := i\<rparr>)))
                             else ret ()
                 | None \<Rightarrow> ret ())
                (\<lambda>_. case newTargetId of
                   Some i \<Rightarrow> if truthy newTargetId
                             then andThen (getEndpoint t) (\<lambda>e. setCell t (EndpointCell (e\<lparr>block := i\<rparr>)))
                             else ret ()
                 | None \<Rightarrow> ret ()))
          (\<lambda>_. True)"
    unfolding Let_def
  proof (rule frames_andThen [where Q = "\<lambda>_. True"])
    show "frames h0
            (case lookupId m (toPropertyKey (block src)) of
               Some i \<Rightarrow> if truthy (lookupId m (toPropertyKey (block src)))
                         then andThen (getEndpoint s) (\<lambda>e. setCell s (EndpointCell (e\<lparr>block := i\<rparr>)))
                         else ret ()
             | None \<Rightarrow> ret ())
            (\<lambda>_. True)"
      by (cases "lookupId m (toPropertyKey (block src))") (simp_all add: frames_ret w [OF s])
    show "frames h0
            (case lookupId m (toPropertyKey (block tgt)) of
               Some i \<Rightarrow> if truthy (lookupId m (toPropertyKey (block tgt)))
                         then andThen (getEndpoint t) (\<lambda>e. setCell t (EndpointCell (e\<lparr>block := i\<rparr>)))
                         else ret ()
             | None \<Rightarrow> ret ())
            (\<lambda>_. True)"
      by (cases "lookupId m (toPropertyKey (block tgt))") (simp_all add: frames_ret w [OF t])
  qed
qed

lemma frames_blocksOf:
  "fresh h0 d \<Longrightarrow> frames h0 (blocksOf d) (\<lambda>rs. \<forall>r \<in> set rs. fresh h0 r)"
  unfolding blocksOf_def
  by (intro frames_andThen2 [OF frames_getDesign] frames_andThen2 [OF frames_getGraph]
        frames_weaken [OF frames_getArray]) simp

lemma frames_wiresOf:
  "fresh h0 d \<Longrightarrow> frames h0 (wiresOf d) (\<lambda>rs. \<forall>r \<in> set rs. fresh h0 r)"
  unfolding wiresOf_def
  by (intro frames_andThen2 [OF frames_getDesign] frames_andThen2 [OF frames_getGraph]
        frames_weaken [OF frames_getArray]) simp

lemma frames_loadPackageS:
  "frames h0 (loadPackageS copy rand jsonModel)
     (\<lambda>p. fresh h0 (ref_model p) \<and> fresh h0 (ref_design p))"
  unfolding loadPackageS_def
proof (rule frames_andThen [OF frames_getCell_any])
  fix c :: "'a cell"
  show "frames h0
          (case c of
             ProjectCell originalEditor originalDesign pkg deps \<Rightarrow>
               andThen (cloneDesign copy originalDesign) (\<lambda>tempJsonModelDesign.
               andThen (cloneEditor copy originalEditor) (\<lambda>tempJsonModelEditor.
               andThen (blocksOf tempJsonModelDesign) (\<lambda>blockRefs.
               andThen (renameBlocksS rand 0 Map.empty blockRefs) (\<lambda>(newIdMap, n).
               andThen (forEachS (updateModelIdsInLayerS newIdMap tempJsonModelEditor) [0, 1]) (\<lambda>_.
               andThen (wiresOf tempJsonModelDesign) (\<lambda>wireRefs.
               andThen (forEachS (updateWireS newIdMap) wireRefs) (\<lambda>_.
               ret \<lparr>ref_model = tempJsonModelEditor, ref_design = tempJsonModelDesign,
                    ref_info = pkg, ref_dependencies = deps\<rparr>)))))))
           | _ \<Rightarrow> throw TypeError)
          (\<lambda>p. fresh h0 (ref_model p) \<and> fresh h0 (ref_design p))"
  proof (cases c)
    case (ProjectCell originalEditor originalDesign pkg deps)
    show ?thesis
      unfolding ProjectCell cell.case
    proof (intro frames_andThen [OF frames_cloneDesign] frames_andThen [OF frames_cloneEditor])
      fix td te
      assume td: "fresh h0 td" and te: "fresh h0 te"
      show "frames h0
              (andThen (blocksOf td) (\<lambda>blockRefs.
               andThen (renameBlocksS rand 0 Map.empty blockRefs) (\<lambda>(newIdMap, n).
               andThen (forEachS (updateModelIdsInLayerS newIdMap te) [0, 1]) (\<lambda>_.
               andThen (wiresOf td) (\<lambda>wireRefs.
               andThen (forEachS (updateWireS newIdMap) wireRefs) (\<lambda>_.
               ret \<lparr>ref_model = te, ref_design = td, ref_info = pkg, ref_dependencies = deps\<rparr>))))))
              (\<lambda>p. fresh h0 (ref_model p) \<and> fresh h0 (ref_design p))"
      proof (intro frames_andThen [OF frames_blocksOf [OF td]]
          frames_andThen2 [OF frames_renameBlocksS])
        fix blockRefs :: "ref list" and newIdMap :: "string \<rightharpoonup> string" and n :: nat
        assume "\<forall>r \<in> set blockRefs. fresh h0 r"
        then show "\<forall>r \<in> set blockRefs. fresh h0 r" .
        show "frames h0
                (andThen (forEachS (updateModelIdsInLayerS newIdMap te) [0, 1]) (\<lambda>_.
                 andThen (wiresOf td) (\<lambda>wireRefs.
                 andThen (forEachS (updateWireS newIdMap) wireRefs) (\<lambda>_.
                 ret \<lparr>ref_model = te, ref_design = td, ref_info = pkg, ref_dependencies = deps\<rparr>))))
                (\<lambda>p. fresh h0 (ref_model p) \<and> fresh h0 (ref_design p))"
        proof (intro frames_andThen [OF frames_forEachS] frames_andThen [OF frames_wiresOf [OF td]])
          fix x :: nat
          show "frames h0 (updateModelIdsInLayerS newIdMap te x) (\<lambda>_. True)"
            by (rule frames_updateModelIdsInLayerS [OF te])
        next
          fix wireRefs :: "ref list" and w :: ref
          assume "\<forall>r \<in> set wireRefs. fresh h0 r" "w \<in> set wireRefs"
          then show "frames h0 (updateWireS newIdMap w) (\<lambda>_. True)"
            by (intro frames_updateWireS) simp
        next
          show "frames h0
                  (ret \<lparr>ref_model = te, ref_design = td, ref_info = pkg, ref_dependencies = deps\<rparr>)
                  (\<lambda>p. fresh h0 (ref_model p) \<and> fresh h0 (ref_design p))"
            using td te by (intro frames_ret) simp
        qed
      qed
    qed
  qed (simp_all add: frames_throw)
qed

lemma prefix_of_nth: "prefix_of h h' \<Longrightarrow> r < length h \<Longrightarrow> r < length h' \<and> h' ! r = h ! r"
proof -
  assume p: "prefix_of h h'" and r: "r < length h"
  from p have "length (take (length h) h') = length h" by (simp add: prefix_of_def)
  then have le: "length h \<le> length h'" by simp
  from p r have "h ! r = take (length h) h' ! r" by (simp add: prefix_of_def)
  also from r have "\<dots> = h' ! r" by simp
  finally show ?thesis using r le by simp
qed

lemma valBlock_mono: "prefix_of h h' \<Longrightarrow> valBlock h r = Some v \<Longrightarrow> valBlock h' r = Some v"
  by (auto simp: valBlock_def dest: prefix_of_nth split: if_splits)

lemma valEndpoint_mono:
  "prefix_of h h' \<Longrightarrow> valEndpoint h r = Some v \<Longrightarrow> valEndpoint h' r = Some v"
  by (auto simp: valEndpoint_def dest: prefix_of_nth split: if_splits)

lemma valModel_mono: "prefix_of h h' \<Longrightarrow> valModel h r = Some v \<Longrightarrow> valModel h' r = Some v"
  by (auto simp: valModel_def dest: prefix_of_nth split: if_splits)

lemma valWire_mono:
  assumes "prefix_of h h'" "valWire h r = Some v"
  shows "valWire h' r = Some v"
proof -
  from assms(2) obtain s t x src tgt where r: "r < length h" and c: "h ! r = WireCell s t x"
    and e: "valEndpoint h s = Some src" "valEndpoint h t = Some tgt"
    and v: "v = \<lparr>source = src, target = tgt, wire_rest = x\<rparr>"
    by (auto simp: valWire_def split: if_splits cell.splits option.splits)
  from prefix_of_nth [OF assms(1) r] c have "r < length h'" "h' ! r = WireCell s t x" by simp_all
  with e [THEN valEndpoint_mono [OF assms(1)]] v show ?thesis by (simp add: valWire_def)
qed

lemma valList_mono:
  assumes "\<And>r v. f r = Some v \<Longrightarrow> g r = Some v"
  shows "valList f rs = Some vs \<Longrightarrow> valList g rs = Some vs"
proof (induction rs arbitrary: vs)
  case Nil
  then show ?case by simp
next
  case (Cons r rs)
  from Cons.prems obtain v ws where "f r = Some v" "valList f rs = Some ws" "vs = v # ws"
    by (auto split: option.splits)
  with assms [of r v] Cons.IH [of ws] show ?case by simp
qed

lemma valEntries_mono:
  "prefix_of h h' \<Longrightarrow> valEntries h es = Some ms \<Longrightarrow> valEntries h' es = Some ms"
proof (induction es arbitrary: ms)
  case Nil
  then show ?case by simp
next
  case (Cons e es)
  obtain k r where e: "e = (k, r)" by (cases e)
  from Cons.prems(2) obtain m ms' where "valModel h r = Some m" "valEntries h es = Some ms'"
    "ms = (k, m) # ms'"
    by (auto simp: e split: option.splits)
  with valModel_mono [OF Cons.prems(1)] Cons.IH [OF Cons.prems(1)] show ?case by (simp add: e)
qed

lemma valLayer_mono:
  assumes "prefix_of h h'" "valLayer h r = Some v"
  shows "valLayer h' r = Some v"
proof -
  from assms(2) obtain m x es ms where r: "r < length h" and c: "h ! r = LayerCell m x"
    and m: "m < length h" and cm: "h ! m = ModelsCell es" and e: "valEntries h es = Some ms"
    and v: "v = \<lparr>models = ms, layer_rest = x\<rparr>"
    by (auto simp: valLayer_def split: if_splits cell.splits option.splits)
  from prefix_of_nth [OF assms(1) r] c have "r < length h'" "h' ! r = LayerCell m x" by simp_all
  moreover from prefix_of_nth [OF assms(1) m] cm have "m < length h'" "h' ! m = ModelsCell es"
    by simp_all
  ultimately show ?thesis using valEntries_mono [OF assms(1) e] v by (simp add: valLayer_def)
qed

lemma valArray_mono:
  assumes "prefix_of h h'" "\<And>r v. f r = Some v \<Longrightarrow> g r = Some v" "valArray f h r = Some vs"
  shows "valArray g h' r = Some vs"
proof -
  from assms(3) obtain rs where r: "r < length h" and c: "h ! r = ArrayCell rs"
    and l: "valList f rs = Some vs"
    by (auto simp: valArray_def split: if_splits cell.splits)
  from prefix_of_nth [OF assms(1) r] c have "r < length h'" "h' ! r = ArrayCell rs" by simp_all
  with valList_mono [of f g, OF assms(2) l] show ?thesis by (simp add: valArray_def)
qed

lemma valEditor_mono:
  assumes "prefix_of h h'" "valEditor h r = Some v"
  shows "valEditor h' r = Some v"
proof -
  from assms(2) obtain ls x lvs where r: "r < length h" and c: "h ! r = EditorCell ls x"
    and a: "valArray (valLayer h) h ls = Some lvs" and v: "v = \<lparr>layers = lvs, editor_rest = x\<rparr>"
    by (auto simp: valEditor_def split: if_splits cell.splits option.splits)
  from prefix_of_nth [OF assms(1) r] c have "r < length h'" "h' ! r = EditorCell ls x" by simp_all
  moreover have "valArray (valLayer h') h' ls = Some lvs"
    by (rule valArray_mono [OF assms(1) _ a]) (rule valLayer_mono [OF assms(1)])
  ultimately show ?thesis using v by (simp add: valEditor_def)
qed

lemma valDesign_mono:
  assumes "prefix_of h h'" "valDesign h r = Some v"
  shows "valDesign h' r = Some v"
proof -
  from assms(2) obtain g x bs ws bvs wvs where r: "r < length h" and c: "h ! r = DesignCell g x"
    and g: "g < length h" and cg: "h ! g = GraphCell bs ws"
    and b: "valArray (valBlock h) h bs = Some bvs" and w: "valArray (valWire h) h ws = Some wvs"
    and v: "v = \<lparr>graph = \<lparr>blocks = bvs, wires = wvs\<rparr>, design_rest = x\<rparr>"
    by (auto simp: valDesign_def split: if_splits cell.splits option.splits)
  from prefix_of_nth [OF assms(1) r] c have "r < length h'" "h' ! r = DesignCell g x" by simp_all
  moreover from prefix_of_nth [OF assms(1) g] cg have "g < length h'" "h' ! g = GraphCell bs ws"
    by simp_all
  moreover have "valArray (valBlock h') h' bs = Some bvs"
    by (rule valArray_mono [OF assms(1) _ b]) (rule valBlock_mono [OF assms(1)])
  moreover have "valArray (valWire h') h' ws = Some wvs"
    by (rule valArray_mono [OF assms(1) _ w]) (rule valWire_mono [OF assms(1)])
  ultimately show ?thesis using v by (simp add: valDesign_def)
qed

lemma valProject_mono:
  assumes "prefix_of h h'" "valProject h r = Some v"
  shows "valProject h' r = Some v"
proof -
  from assms(2) obtain e d p q ev dv where r: "r < length h" and c: "h ! r = ProjectCell e d p q"
    and e: "valEditor h e = Some ev" and d: "valDesign h d = Some dv"
    and v: "v = \<lparr>editor = ev, design = dv, package = p, dependencies = q\<rparr>"
    by (auto simp: valProject_def split: if_splits cell.splits option.splits)
  from prefix_of_nth [OF assms(1) r] c have "r < length h'" "h' ! r = ProjectCell e d p q"
    by simp_all
  with valEditor_mono [OF assms(1) e] valDesign_mono [OF assms(1) d] v
  show ?thesis by (simp add: valProject_def)
qed

text \<open>
  Claim C5. Run on any store and any address, \<open>loadPackage\<close> leaves every object that was in
  the store as it was, whether it returns or throws: the store afterwards is the store
  before, followed by the new objects. So the document at the caller's address, with its
  \<open>editor\<close> and \<open>design\<close>, reads the same after the call; and the two copies handed to the
  \<open>PackageBlockModel\<close> are new objects.
\<close>

theorem C5_input_unchanged:
  assumes "loadPackageS copy rand jsonModel h = (res, h')"
  shows "length h \<le> length h' \<and> take (length h) h' = h \<and>
         (valProject h jsonModel = Some doc \<longrightarrow> valProject h' jsonModel = Some doc) \<and>
         (res = Inr p \<longrightarrow> length h \<le> ref_model p \<and> length h \<le> ref_design p)"
proof -
  from framesD [OF frames_loadPackageS extends_refl assms]
  have e: "extends h h'" and q: "\<And>x. res = Inr x \<Longrightarrow> length h \<le> ref_model x \<and> length h \<le> ref_design x"
    by blast+
  from e have t: "take (length h) h' = h" by (simp add: extends_def)
  then have "prefix_of h h'" by (simp add: prefix_of_def)
  from valProject_mono [OF this]
  have "valProject h jsonModel = Some doc \<longrightarrow> valProject h' jsonModel = Some doc" by blast
  with extends_length [OF e] t q show ?thesis by blast
qed

lemmas store_defs = loadPackageS_def andThen_def ret_def throw_def getCell_def setCell_def alloc_def
  getBlock_def getEndpoint_def getWire_def getModel_def getModels_def getLayer_def getArray_def
  getGraph_def getDesign_def getEditor_def cloneBlock_def cloneEndpoint_def cloneWire_def
  cloneModel_def cloneModels_def cloneLayer_def cloneArray_def cloneEditor_def cloneGraph_def
  cloneDesign_def updateModelIdsInLayerS_def updateWireS_def blocksOf_def wiresOf_def

lemmas val_defs = valProject_def valEditor_def valDesign_def valArray_def valLayer_def valWire_def
  valBlock_def valEndpoint_def valModel_def valPackage_def

lemma sample_store_doc: "valProject sample_store 22 = Some sample_doc"
  by (simp add: val_defs sample_store_def sample_doc_def)

lemma sample_store_run:
  "loadPackageS (\<lambda>x. x) sample_rand 22 sample_store = (Inr sample_refs, sample_store @ sample_copies)"
  by (simp add: store_defs sample_store_def sample_copies_def sample_refs_def sample_rand_def
        generateNewId_def toString16_def lookupId_def assignId_def assignProp_def protoNames_def
        Let_def)

lemma sample_store_out: "valPackage (sample_store @ sample_copies) sample_refs = Some sample_out"
  by (simp add: val_defs sample_store_def sample_copies_def sample_refs_def sample_out_def)

theorem C5_input_unchanged_witness:
  "valProject sample_store 22 = Some sample_doc \<and>
   loadPackageS (\<lambda>x. x) sample_rand 22 sample_store = (Inr sample_refs, sample_store @ sample_copies) \<and>
   take (length sample_store) (sample_store @ sample_copies) = sample_store \<and>
   valProject (sample_store @ sample_copies) 22 = Some sample_doc \<and>
   length sample_store \<le> ref_model sample_refs \<and> length sample_store \<le> ref_design sample_refs \<and>
   valPackage (sample_store @ sample_copies) sample_refs = Some sample_out \<and>
   loadPackage (\<lambda>x. x) sample_rand sample_doc = Inr sample_out"
proof -
  note all = C5_input_unchanged [OF sample_store_run, of sample_doc sample_refs]
  have t: "take (length sample_store) (sample_store @ sample_copies) = sample_store"
    by (rule all [THEN conjunct2, THEN conjunct1])
  have v: "valProject (sample_store @ sample_copies) 22 = Some sample_doc"
    by (rule all [THEN conjunct2, THEN conjunct2, THEN conjunct1, THEN mp, OF sample_store_doc])
  have f: "length sample_store \<le> ref_model sample_refs \<and> length sample_store \<le> ref_design sample_refs"
    by (rule all [THEN conjunct2, THEN conjunct2, THEN conjunct2, THEN mp, OF refl])
  show ?thesis
    by (intro conjI sample_store_doc sample_store_run t v f [THEN conjunct1] f [THEN conjunct2]
          sample_store_out sample_loadPackage)
qed

end
